(* ===== verification/Prelude.thy ===== *)
theory Prelude
  imports Main "HOL-Library.Word"
begin

text \<open>
  Shared vocabulary of the development: the names of the machine types of the C++ sources, what the
  sources use of the C++ standard library (byte vectors, \<^verbatim>\<open>c_str()\<close>, conversions from \<open>size_t\<close>),
  the exceptions that travel through the gateway, and the environment every component runs in (the
  opaque world outside the process and the log the components write).

  The environment is a record \<open>env\<close> that the component states extend, so that a function of one
  component runs unchanged inside a bigger one: \<open>ext\<close> is the state of everything that is not in the
  repository (SQLite, OpenSSL, the file system), a type parameter that only the parameters of the
  model can read or change.
\<close>

section \<open>Collections of facts\<close>

named_theorems frame_simps
  \<open>what an operation leaves unchanged\<close>

named_theorems invariant_intros
  \<open>an operation keeps the invariant of its component\<close>

section \<open>Machine types\<close>

type_synonym byte = "8 word"
type_synonym u64 = "64 word"
type_synonym bytes = "byte list"

definition int_of_size :: "nat \<Rightarrow> int" where
  \<comment> \<open>a \<open>size_t\<close> passed where a C \<open>int\<close> is expected: the low 32 bits as two's complement\<close>
  "int_of_size n = sint (word_of_nat n :: 32 word)"

lemma int_of_size_small:
  assumes "n < 2 ^ 31"
  shows "int_of_size n = int n"
proof -
  have "sint (word_of_nat n :: 32 word) = signed_take_bit 31 (int n)"
    by (simp add: signed_of_nat)
  also have "\<dots> = int n"
    using assms by (intro signed_take_bit_int_eq_self) auto
  finally show ?thesis
    by (simp add: int_of_size_def)
qed

section \<open>Byte vectors and strings\<close>

definition vec_resize :: "nat \<Rightarrow> bytes \<Rightarrow> bytes" where
  \<comment> \<open>\<open>std::vector<uint8_t>::resize\<close>: truncate, or append zeros\<close>
  "vec_resize n xs = take n xs @ replicate (n - length xs) 0"

lemma length_vec_resize [simp]: "length (vec_resize n xs) = n"
  by (simp add: vec_resize_def)

lemma vec_resize_id [simp]: "vec_resize (length xs) xs = xs"
  by (simp add: vec_resize_def)

definition buf_write :: "bytes \<Rightarrow> int \<Rightarrow> bytes \<Rightarrow> bytes option" where
  \<comment> \<open>a C callee writes \<open>ys\<close> through the pointer \<open>data() + off\<close>; writing outside the vector is
      undefined behaviour, the value \<open>None\<close>; writing nothing is harmless wherever it points\<close>
  "buf_write buf off ys =
     (if ys = [] then Some buf
      else if 0 \<le> off \<and> nat off + length ys \<le> length buf
        then Some (take (nat off) buf @ ys @ drop (nat off + length ys) buf)
        else None)"

lemma buf_write_nil [simp]: "buf_write buf off [] = Some buf"
  by (simp add: buf_write_def)

lemma buf_write_all: "length ys = length buf \<Longrightarrow> buf_write buf 0 ys = Some ys"
  by (auto simp: buf_write_def)

lemma length_buf_write: "buf_write buf off ys = Some buf' \<Longrightarrow> length buf' = length buf"
  by (auto simp: buf_write_def split: if_splits)

definition string_of_bytes :: "bytes \<Rightarrow> string" where
  \<comment> \<open>\<open>std::string(v.begin(), v.end())\<close>\<close>
  "string_of_bytes bs = map (\<lambda>b. char_of (unat b)) bs"

definition bytes_of_string :: "string \<Rightarrow> bytes" where
  \<comment> \<open>\<open>std::vector<uint8_t>(s.begin(), s.end())\<close>\<close>
  "bytes_of_string s = map (\<lambda>c. word_of_nat (of_char c)) s"

lemma length_bytes_of_string [simp]: "length (bytes_of_string s) = length s"
  by (simp add: bytes_of_string_def)

lemma string_of_bytes_of_string [simp]: "string_of_bytes (bytes_of_string s) = s"
proof -
  have "char_of (unat (word_of_nat (of_char c) :: 8 word)) = c" for c
    by (simp add: unat_of_nat take_bit_eq_mod)
  then show ?thesis
    by (simp add: string_of_bytes_def bytes_of_string_def comp_def)
qed

definition c_str :: "string \<Rightarrow> string" where
  \<comment> \<open>the text a C callee reads from \<open>s.c_str()\<close> when no length is given: up to the first NUL\<close>
  "c_str s = takeWhile (\<lambda>c. c \<noteq> CHR 0x00) s"

lemma c_str_id: "CHR 0x00 \<notin> set s \<Longrightarrow> c_str s = s"
  unfolding c_str_def by (induction s) auto

lemma c_str_idem [simp]: "c_str (c_str s) = c_str s"
  by (simp add: c_str_def takeWhile_idem)

section \<open>Exceptions\<close>

text \<open>
  The exceptions that cross a function of the repository, all of them derived from
  \<^verbatim>\<open>std::exception\<close>. The first is \<^verbatim>\<open>nlohmann::json::parse_error\<close>, the only one that
  \<^verbatim>\<open>parse_and_validate\<close> catches.
\<close>

datatype exn =
    Json_parse_error string
  | Json_type_error string
  | Json_out_of_range string
  | Other_exception string

fun is_parse_error :: "exn \<Rightarrow> bool" where
  "is_parse_error (Json_parse_error _) = True"
| "is_parse_error _ = False"

fun exn_what :: "exn \<Rightarrow> string" where
  "exn_what (Json_parse_error m) = m"
| "exn_what (Json_type_error m) = m"
| "exn_what (Json_out_of_range m) = m"
| "exn_what (Other_exception m) = m"

section \<open>The environment and its log\<close>

datatype log_level = Trace | Debug | Info | Warn | Error | Critical

type_synonym log_entry = "log_level \<times> string \<times> string list"

record 'w env =
  ext :: 'w
  logs :: "log_entry list"

definition log_msg ::
  "log_level \<Rightarrow> string \<Rightarrow> string list \<Rightarrow> ('w, 'm) env_scheme \<Rightarrow> ('w, 'm) env_scheme" where
  \<comment> \<open>one call of a logging macro: its level, its format string and the arguments\<close>
  "log_msg l fmt args e = e\<lparr>logs := logs e @ [(l, fmt, args)]\<rparr>"

lemma ext_log_msg [simp]: "ext (log_msg l fmt args e) = ext e"
  by (simp add: log_msg_def)

lemma logs_log_msg [simp]: "logs (log_msg l fmt args e) = logs e @ [(l, fmt, args)]"
  by (simp add: log_msg_def)

section \<open>Lists\<close>

lemma length_filter_update:
  assumes "i < length xs"
  shows "length (filter P (xs[i := y])) + (if P (xs ! i) then 1 else 0)
       = length (filter P xs) + (if P y then 1 else 0)"
  using assms
proof (induction xs arbitrary: i)
  case Nil
  then show ?case by simp
next
  case (Cons x xs)
  then show ?case by (cases i) auto
qed

lemma length_filter_pos: "i < length xs \<Longrightarrow> P (xs ! i) \<Longrightarrow> 0 < length (filter P xs)"
  by (auto simp: filter_empty_conv)

end
