(* ===== verification/Rounding_Grid.thy ===== *)
theory Rounding_Grid
  imports Prelude
begin

text \<open>
  The numbers a binary floating point format can represent, and rounding to the nearest of them. The
  format has \<open>F\<close> fraction bits; the bits of a number without its sign are a natural \<open>m\<close>, whose value in
  units of the least positive number is \<open>grid_units F m\<close>. Theory \<open>Floating_Point\<close> uses it with \<open>F = 23\<close> for
  \<^verbatim>\<open>float\<close> and \<open>F = 52\<close> for \<^verbatim>\<open>double\<close>. The main lemma says that \<open>grid_round\<close> is correct: no number of the
  grid is nearer. Everything computes on naturals.
\<close>

section \<open>Rounding a quotient to nearest, ties to even\<close>

definition round_half_even :: "nat \<Rightarrow> nat \<Rightarrow> nat" where
  "round_half_even n d =
     (let q = n div d; r = n mod d
      in if 2 * r < d then q
         else if d < 2 * r then q + 1
         else if even q then q else q + 1)"

lemma round_half_even_error:
  assumes "0 < d"
  shows "2 * \<bar>int (round_half_even n d) * int d - int n\<bar> \<le> int d"
proof -
  define q r where "q = n div d" and "r = n mod d"
  have n: "int n = int q * int d + int r"
    by (simp add: q_def r_def flip: of_nat_mult of_nat_add)
  have r: "r < d"
    using assms by (simp add: r_def)
  have "int (round_half_even n d) * int d - int n \<in> {- int r, int d - int r}
        \<and> (2 * r < d \<longrightarrow> int (round_half_even n d) * int d - int n = - int r)
        \<and> (d < 2 * r \<longrightarrow> int (round_half_even n d) * int d - int n = int d - int r)"
    unfolding round_half_even_def Let_def q_def [symmetric] r_def [symmetric] n
    by (auto simp: algebra_simps)
  with r show ?thesis
    by auto
qed

lemma round_half_even_exact [simp]: "0 < d \<Longrightarrow> round_half_even (q * d) d = q"
  by (simp add: round_half_even_def)

lemma nearest_multiple:
  fixes Q v n c :: int
  assumes "2 * \<bar>n * Q - v\<bar> \<le> Q"
  shows "\<bar>n * Q - v\<bar> \<le> \<bar>c * Q - v\<bar>"
proof (cases "c = n")
  case True
  then show ?thesis by simp
next
  case False
  have "0 \<le> 2 * \<bar>n * Q - v\<bar>"
    by simp
  with assms have "0 \<le> Q"
    by (rule order_trans [rotated])
  then have "Q \<le> \<bar>c - n\<bar> * Q"
    using False mult_right_mono [of 1 "\<bar>c - n\<bar>" Q] by simp
  also have "\<dots> = \<bar>c * Q - n * Q\<bar>"
    using \<open>0 \<le> Q\<close> by (simp add: abs_mult flip: left_diff_distrib)
  finally show ?thesis
    using assms abs_triangle_ineq4 [of "c * Q - v" "n * Q - v"] by simp
qed

section \<open>The length of a number in bits\<close>

fun bit_length :: "nat \<Rightarrow> nat" where
  "bit_length n = (if n = 0 then 0 else Suc (bit_length (n div 2)))"

declare bit_length.simps [simp del]

lemma bit_length_0 [simp]: "bit_length 0 = 0"
  by (simp add: bit_length.simps)

lemma bit_length_pos: "0 < n \<Longrightarrow> bit_length n = Suc (bit_length (n div 2))"
  by (subst bit_length.simps) simp

lemma bit_length_upper: "n < 2 ^ bit_length n"
proof (induction n rule: bit_length.induct)
  case (1 n)
  show ?case
  proof (cases "n = 0")
    case False
    then have "n div 2 < 2 ^ bit_length (n div 2)"
      using 1 by simp
    then have "n < 2 * 2 ^ bit_length (n div 2)"
      by linarith
    then show ?thesis
      using False by (simp add: bit_length_pos)
  qed simp
qed

lemma bit_length_lower: "0 < n \<Longrightarrow> 2 ^ (bit_length n - 1) \<le> n"
proof (induction n rule: bit_length.induct)
  case (1 n)
  show ?case
  proof (cases "n div 2 = 0")
    case True
    then show ?thesis
      using 1(2) by (simp add: bit_length_pos)
  next
    case False
    then have pos: "0 < n div 2" by simp
    then have "2 ^ (bit_length (n div 2) - 1) \<le> n div 2"
      using 1(1) 1(2) by simp
    then have "2 * 2 ^ (bit_length (n div 2) - 1) \<le> n"
      by linarith
    moreover have "0 < bit_length (n div 2)"
      by (subst bit_length_pos [OF pos]) simp
    ultimately show ?thesis
      using 1(2) by (simp add: bit_length_pos [of n] flip: power_Suc)
  qed
qed

section \<open>The grid\<close>

definition grid_units :: "nat \<Rightarrow> nat \<Rightarrow> nat" where
  "grid_units F m =
     (if m < 2 ^ F then m else (2 ^ F + m mod 2 ^ F) * 2 ^ (m div 2 ^ F - 1))"

lemma grid_units_parts:
  assumes "r < 2 ^ F"
  shows "grid_units F (2 ^ F * e + r) = (if e = 0 then r else (2 ^ F + r) * 2 ^ (e - 1))"
proof -
  have "(2 ^ F * e + r) mod 2 ^ F = r" "(2 ^ F * e + r) div 2 ^ F = e"
    using assms by simp_all
  moreover have "2 ^ F * e + r < 2 ^ F \<longleftrightarrow> e = 0"
    using assms by (cases e) simp_all
  ultimately show ?thesis
    by (simp only: grid_units_def if_True if_False split: if_split) simp
qed

lemma grid_units_Suc: "grid_units F m < grid_units F (Suc m)"
proof -
  define T :: nat where "T = 2 ^ F"
  define e r where "e = m div T" and "r = m mod T"
  have T: "0 < T" by (simp add: T_def)
  have r: "r < T" and m: "m = T * e + r"
    using T by (simp_all add: e_def r_def)
  note parts = grid_units_parts [of _ F, folded T_def]
  show ?thesis
  proof (cases "r + 1 < T")
    case True
    have "grid_units F (Suc m) = grid_units F (T * e + (r + 1))"
      by (simp add: m)
    then show ?thesis
      unfolding m parts [OF True] parts [OF r] by simp
  next
    case False
    then have r_max: "r = T - 1" using r by simp
    have next_e: "Suc m = T * (e + 1) + 0"
      using T by (simp add: m r_max)
    have "grid_units F m = (if e = 0 then T - 1 else (T + (T - 1)) * 2 ^ (e - 1))"
      unfolding m parts [OF r] by (simp add: r_max)
    moreover have "grid_units F (Suc m) = T * 2 ^ e"
      unfolding next_e parts [OF T] by simp
    moreover have "(T + (T - 1)) * 2 ^ (e - 1) < T * 2 ^ e" if "e \<noteq> 0"
      using that T by (cases e) simp_all
    ultimately show ?thesis
      using T by (auto split: if_splits)
  qed
qed

lemma grid_units_less [simp]: "grid_units F m < grid_units F n \<longleftrightarrow> m < n"
proof -
  have "m < n \<Longrightarrow> grid_units F m < grid_units F n" for m n
    by (rule lift_Suc_mono_less [where f = "grid_units F", OF grid_units_Suc])
  then show ?thesis
    by (metis linorder_neq_iff order.asym)
qed

lemma grid_units_le [simp]: "grid_units F m \<le> grid_units F n \<longleftrightarrow> m \<le> n"
  by (simp flip: not_less)

lemma grid_units_zero [simp]: "grid_units F 0 = 0"
  by (simp add: grid_units_def)

lemma grid_units_pos: "0 < grid_units F m \<longleftrightarrow> 0 < m"
  using grid_units_less [of F 0 m] by simp

lemma grid_units_point:
  assumes "n \<le> 2 * 2 ^ F" "q = 0 \<or> 2 ^ F \<le> n"
  shows "grid_units F (q * 2 ^ F + n) = n * 2 ^ q"
proof -
  define T :: nat where "T = 2 ^ F"
  have T: "0 < T" by (simp add: T_def)
  note parts = grid_units_parts [of _ F, folded T_def]
  consider "n = 2 * T" | "T \<le> n" "n < 2 * T" | "n < T" "q = 0"
    using assms unfolding T_def [symmetric] by linarith
  then have "grid_units F (q * T + n) = n * 2 ^ q"
  proof cases
    case 1
    have eq: "q * T + n = T * (q + 2) + 0"
      using 1 by (simp add: algebra_simps)
    show ?thesis
      unfolding eq parts [OF T] using 1 by simp
  next
    case 2
    have eq: "q * T + n = T * (q + 1) + (n - T)"
      using 2 by (simp add: algebra_simps)
    have "n - T < T" using 2 by simp
    then show ?thesis
      unfolding eq parts [OF \<open>n - T < T\<close>] using 2 by simp
  next
    case 3
    then show ?thesis
      by (simp add: grid_units_def T_def)
  qed
  then show ?thesis by (simp add: T_def)
qed

lemma grid_units_covered: "(\<exists>c. grid_units F k = c * 2 ^ q) \<or> 0 < q \<and> grid_units F k \<le> 2 ^ F * 2 ^ q"
proof -
  define T :: nat where "T = 2 ^ F"
  define e r where "e = k div T" and "r = k mod T"
  have "0 < T" by (simp add: T_def)
  then have r: "r < T" and k: "k = T * e + r"
    by (simp_all add: e_def r_def)
  have u: "grid_units F k = (if e = 0 then r else (T + r) * 2 ^ (e - 1))"
    using grid_units_parts [of r F e] r unfolding T_def [symmetric] k by simp
  show ?thesis
  proof (cases "q \<le> e - 1")
    case True
    then have "grid_units F k = (if e = 0 then r else (T + r) * 2 ^ (e - 1 - q)) * 2 ^ q"
      using u by (auto simp flip: power_add)
    then show ?thesis by blast
  next
    case False
    then have q: "0 < q" by simp
    have "grid_units F k \<le> 2 * T * 2 ^ (e - 1)"
      using u r by (auto split: if_splits intro: mult_right_mono)
    also have "\<dots> \<le> 2 * T * 2 ^ (q - 1)"
      using False by (intro mult_left_mono power_increasing) simp_all
    also have "\<dots> = T * 2 ^ q"
      using q by (cases q) simp_all
    finally show ?thesis
      using q by (simp add: T_def)
  qed
qed

section \<open>Rounding to the grid\<close>

definition grid_round :: "nat \<Rightarrow> nat \<Rightarrow> nat \<Rightarrow> nat" where
  \<comment> \<open>the bits of the number of the grid nearest to \<open>n / 2 ^ p\<close>; the unit in its last place is \<open>2 ^ q\<close>\<close>
  "grid_round F n p =
     (let q = bit_length (n div 2 ^ p) - Suc F in q * 2 ^ F + round_half_even n (2 ^ (p + q)))"

lemma scaled_bounds:
  fixes T U n v :: int
  assumes "0 < U" "2 * \<bar>n * U - v\<bar> \<le> U" "v < 2 * T * U"
  shows "n \<le> 2 * T" "T * U \<le> v \<Longrightarrow> T \<le> n"
proof -
  obtain a where a: "a = n * U" by blast
  obtain b where b: "b = T * U" by blast
  have err: "2 * (a - v) \<le> U" "2 * (v - a) \<le> U"
    using assms(2) unfolding a [symmetric] by presburger+
  have "v < 2 * b"
    using assms(3) by (simp add: b mult.assoc)
  then have "2 * a < 4 * b + U"
    using err by simp
  then have "(2 * n) * U < (4 * T + 1) * U"
    by (simp add: a b distrib_right mult.assoc)
  then have "2 * n < 4 * T + 1"
    by (rule mult_right_less_imp_less) (use assms(1) in simp)
  then show "n \<le> 2 * T" by simp
  assume "T * U \<le> v"
  then have "2 * b - U \<le> 2 * a"
    using err by (simp add: b)
  then have "(2 * T - 1) * U \<le> (2 * n) * U"
    by (simp add: a b left_diff_distrib mult.assoc)
  then have "2 * T - 1 \<le> 2 * n"
    by (rule mult_right_le_imp_le) (use assms(1) in simp)
  then show "T \<le> n" by simp
qed

lemma grid_round_bits:
  fixes F n p :: nat
  defines "q \<equiv> bit_length (n div 2 ^ p) - Suc F"
  shows "n < 2 * 2 ^ F * 2 ^ (p + q)" and "0 < q \<Longrightarrow> 2 ^ F * 2 ^ (p + q) \<le> n"
proof -
  let ?b = "bit_length (n div 2 ^ p)"
  have "n < 2 ^ ?b * 2 ^ p"
    using bit_length_upper [of "n div 2 ^ p"] by (simp add: div_less_iff_less_mult)
  also have "\<dots> = 2 ^ (?b + p)"
    by (simp add: power_add)
  also have "\<dots> \<le> 2 ^ (Suc F + (p + q))"
    by (rule power_increasing) (simp_all add: q_def)
  finally show "n < 2 * 2 ^ F * 2 ^ (p + q)"
    by (simp add: power_add)
  assume q: "0 < q"
  then have "0 < n div 2 ^ p"
    by (cases "n div 2 ^ p = 0") (simp_all add: q_def)
  then have "2 ^ (?b - 1) * 2 ^ p \<le> (n div 2 ^ p) * 2 ^ p"
    by (intro mult_right_mono bit_length_lower) simp_all
  also have "\<dots> \<le> n"
    by simp
  finally have "2 ^ (?b - 1 + p) \<le> n"
    by (simp add: power_add)
  moreover have "?b - 1 + p = F + (p + q)"
    using q by (simp add: q_def)
  ultimately show "2 ^ F * 2 ^ (p + q) \<le> n"
    by (simp add: power_add ac_simps)
qed

lemma grid_round_nearest:
  "\<bar>int (grid_units F (grid_round F n p)) * 2 ^ p - int n\<bar> \<le> \<bar>int (grid_units F k) * 2 ^ p - int n\<bar>"
proof -
  define q where "q = bit_length (n div 2 ^ p) - Suc F"
  define r where "r = round_half_even n (2 ^ (p + q))"
  define T U Q v :: int where "T = 2 ^ F" and "U = 2 ^ p" and "Q = 2 ^ (p + q)" and "v = int n"
  have Q: "Q = 2 ^ q * U" "0 < Q" "0 < U"
    by (simp_all add: Q_def U_def power_add)
  have err: "2 * \<bar>int r * Q - v\<bar> \<le> Q"
    using round_half_even_error [of "2 ^ (p + q)" n] by (simp add: r_def Q_def v_def)
  note bits = grid_round_bits [where n = n and p = p and F = F, folded q_def]
  have "int n < int (2 * 2 ^ F * 2 ^ (p + q))"
    using bits(1) by (simp only: of_nat_less_iff)
  then have upper: "v < 2 * T * Q"
    by (simp add: v_def T_def Q_def)
  have lower: "T * Q \<le> v" if "0 < q"
  proof -
    have "int (2 ^ F * 2 ^ (p + q)) \<le> int n"
      using bits(2) [OF that] by (simp only: of_nat_le_iff)
    then show ?thesis
      by (simp add: v_def T_def Q_def)
  qed
  note sb = scaled_bounds [OF Q(2) err upper]
  have "int r \<le> int (2 * 2 ^ F)" "0 < q \<Longrightarrow> int (2 ^ F) \<le> int r"
    using sb(1) sb(2) [OF lower] by (simp_all add: T_def)
  then have "r \<le> 2 * 2 ^ F" "q = 0 \<or> 2 ^ F \<le> r"
    by (simp_all only: of_nat_le_iff) auto
  from grid_units_point [OF this] have N: "int (grid_units F (q * 2 ^ F + r)) * U = int r * Q"
    by (simp add: Q)
  have "\<bar>int r * Q - v\<bar> \<le> \<bar>int (grid_units F k) * U - v\<bar>"
    using grid_units_covered [of F k q]
  proof (elim disjE exE conjE)
    fix c
    assume "grid_units F k = c * 2 ^ q"
    then have "int (grid_units F k) * U = int c * Q"
      by (simp add: Q)
    then show ?thesis
      using nearest_multiple [OF err, of "int c"] by simp
  next
    assume q: "0 < q" and "grid_units F k \<le> 2 ^ F * 2 ^ q"
    then have "int (grid_units F k) \<le> int (2 ^ F * 2 ^ q)"
      by (simp only: of_nat_le_iff)
    then have "int (grid_units F k) \<le> T * 2 ^ q"
      by (simp add: T_def)
    then have "int (grid_units F k) * U \<le> (T * 2 ^ q) * U"
      by (rule mult_right_mono) (simp add: U_def)
    then have "int (grid_units F k) * U \<le> T * Q"
      by (simp only: Q mult.assoc)
    then show ?thesis
      using nearest_multiple [OF err, of T] lower [OF q] by linarith
  qed
  then show ?thesis
    unfolding N [symmetric] by (simp add: grid_round_def Let_def q_def r_def U_def v_def)
qed

text \<open>With the bound of the exponent: an overflow gives the bits that follow the largest number.\<close>

lemma grid_round_bounded_nearest:
  assumes k: "k \<le> B"
  shows "\<bar>int (grid_units F (min (grid_round F n p) B)) * 2 ^ p - int n\<bar>
         \<le> \<bar>int (grid_units F k) * 2 ^ p - int n\<bar>"
proof -
  define N U v where "N = grid_round F n p" and "U = (2 ^ p :: int)" and "v = int n"
  define x where "x j = int (grid_units F j) * U" for j
  have mono: "x i \<le> x j" if "i \<le> j" for i j
    unfolding x_def U_def by (rule mult_right_mono) (use that in simp_all)
  have strict: "x i < x j" if "i < j" for i j
    unfolding x_def U_def by (rule mult_strict_right_mono) (use that in simp_all)
  have near: "\<bar>x N - v\<bar> \<le> \<bar>x j - v\<bar>" for j
    unfolding x_def U_def v_def N_def by (rule grid_round_nearest)
  have "\<bar>x (min N B) - v\<bar> \<le> \<bar>x k - v\<bar>"
  proof (cases "N \<le> B")
    case True
    then show ?thesis using near by (simp add: min_absorb1)
  next
    case False
    then have "x B < x N" "x k \<le> x B"
      using strict mono k by simp_all
    moreover have "x B \<le> v"
      using near [of B] \<open>x B < x N\<close> by linarith
    ultimately show ?thesis
      using False by (simp add: min_absorb2)
  qed
  then show ?thesis
    by (simp only: x_def U_def v_def N_def)
qed

text \<open>Rounding never crosses a number of the grid.\<close>

lemma grid_round_above:
  assumes "k \<le> B" "grid_units F k * 2 ^ p \<le> n"
  shows "k \<le> min (grid_round F n p) B"
proof (rule ccontr)
  define N where "N = min (grid_round F n p) B"
  assume "\<not> k \<le> N"
  then have "int (grid_units F N) * 2 ^ p < int (grid_units F k) * 2 ^ p"
    by (intro mult_strict_right_mono) simp_all
  moreover have "int (grid_units F k * 2 ^ p) \<le> int n"
    using assms(2) by (simp only: of_nat_le_iff)
  then have "int (grid_units F k) * 2 ^ p \<le> int n"
    by simp
  ultimately show False
    using grid_round_bounded_nearest [OF assms(1), of F n p, folded N_def] by linarith
qed

lemma grid_round_below:
  assumes "k \<le> B" "n \<le> grid_units F k * 2 ^ p"
  shows "min (grid_round F n p) B \<le> k"
proof (rule ccontr)
  define N where "N = min (grid_round F n p) B"
  assume "\<not> N \<le> k"
  then have "int (grid_units F k) * 2 ^ p < int (grid_units F N) * 2 ^ p"
    by (intro mult_strict_right_mono) simp_all
  moreover have "int n \<le> int (grid_units F k * 2 ^ p)"
    using assms(2) by (simp only: of_nat_le_iff)
  then have "int n \<le> int (grid_units F k) * 2 ^ p"
    by simp
  ultimately show False
    using grid_round_bounded_nearest [OF assms(1), of F n p, folded N_def] by linarith
qed

end
