(* ===== verification/Floating_Point.thy ===== *)
theory Floating_Point
  imports Rounding_Grid
begin

text \<open>
  What the sources use of the language's floating point: IEEE 754 \<open>double\<close> and \<open>float\<close> as
  their bit patterns, \<^verbatim>\<open>std::to_string(double)\<close> (the \<^verbatim>\<open>%f\<close> format, used for the JSON text of a
  stored frame), \<^verbatim>\<open>static_cast<float>(double)\<close> (the battery percentage of a published message) and
  the comparison \<^verbatim>\<open><\<close> of two floats (\<^verbatim>\<open>TelemetryPacket::is_critical\<close>). The rounding mode is the
  default one, to nearest with ties to even. Everything is computed on naturals, so the definitions
  evaluate on concrete bit patterns.
\<close>

type_synonym double = "64 word"
type_synonym float32 = "32 word"

section \<open>Fields of a double\<close>

definition dbl_negative :: "double \<Rightarrow> bool" where
  "dbl_negative d \<longleftrightarrow> 2 ^ 63 \<le> unat d"

definition dbl_exponent :: "double \<Rightarrow> nat" where
  "dbl_exponent d = unat d div 2 ^ 52 mod 2048"

definition dbl_fraction :: "double \<Rightarrow> nat" where
  "dbl_fraction d = unat d mod 2 ^ 52"

definition dbl_is_finite :: "double \<Rightarrow> bool" where
  "dbl_is_finite d \<longleftrightarrow> dbl_exponent d < 2047"

definition dbl_is_nan :: "double \<Rightarrow> bool" where
  "dbl_is_nan d \<longleftrightarrow> dbl_exponent d = 2047 \<and> dbl_fraction d \<noteq> 0"

definition dbl_mantissa :: "double \<Rightarrow> nat" where
  \<comment> \<open>the magnitude of a finite double is \<open>mantissa * 2 ^ (scale - 1074)\<close>\<close>
  "dbl_mantissa d = (if dbl_exponent d = 0 then dbl_fraction d else dbl_fraction d + 2 ^ 52)"

definition dbl_scale :: "double \<Rightarrow> nat" where
  "dbl_scale d = (if dbl_exponent d = 0 then 0 else dbl_exponent d - 1)"

section \<open>Decimal digits\<close>

definition digit_char :: "nat \<Rightarrow> char" where
  "digit_char n = char_of (48 + n)"

definition is_digit :: "char \<Rightarrow> bool" where
  "is_digit c \<longleftrightarrow> 48 \<le> (of_char c :: nat) \<and> (of_char c :: nat) \<le> 57"

lemma of_char_digit_char: "n < 10 \<Longrightarrow> (of_char (digit_char n) :: nat) = 48 + n"
  by (simp add: digit_char_def)

lemma is_digit_digit_char [simp]: "n < 10 \<Longrightarrow> is_digit (digit_char n)"
  by (simp add: is_digit_def of_char_digit_char)

fun nat_digits :: "nat \<Rightarrow> string" where
  "nat_digits n = (if n < 10 then [digit_char n] else nat_digits (n div 10) @ [digit_char (n mod 10)])"

declare nat_digits.simps [simp del]

fun pad_digits :: "nat \<Rightarrow> nat \<Rightarrow> string" where
  \<comment> \<open>the last \<open>k\<close> decimal digits of \<open>n\<close>, with leading zeros\<close>
  "pad_digits 0 n = []"
| "pad_digits (Suc k) n = pad_digits k (n div 10) @ [digit_char (n mod 10)]"

definition digits_value :: "string \<Rightarrow> nat" where
  "digits_value s = foldl (\<lambda>a c. 10 * a + (of_char c - 48)) 0 s"

lemma digits_value_snoc:
  "n < 10 \<Longrightarrow> digits_value (s @ [digit_char n]) = 10 * digits_value s + n"
  by (simp add: digits_value_def of_char_digit_char)

lemma nat_digits_all_digits: "list_all is_digit (nat_digits n)"
proof (induction n rule: nat_digits.induct)
  case (1 n)
  then show ?case by (subst nat_digits.simps) auto
qed

lemma nat_digits_not_Nil [simp]: "nat_digits n \<noteq> []"
  by (subst nat_digits.simps) simp

lemma digits_value_nat_digits [simp]: "digits_value (nat_digits n) = n"
proof (induction n rule: nat_digits.induct)
  case (1 n)
  show ?case
  proof (cases "n < 10")
    case True
    then show ?thesis
      using digits_value_snoc [of n "[]"] by (subst nat_digits.simps) (simp add: digits_value_def)
  next
    case False
    with "1.IH" show ?thesis
      by (subst nat_digits.simps) (simp add: digits_value_snoc)
  qed
qed

lemma length_pad_digits [simp]: "length (pad_digits k n) = k"
  by (induction k arbitrary: n) simp_all

lemma pad_digits_all_digits: "list_all is_digit (pad_digits k n)"
  by (induction k arbitrary: n) simp_all

lemma digits_value_pad_digits: "n < 10 ^ k \<Longrightarrow> digits_value (pad_digits k n) = n"
proof (induction k arbitrary: n)
  case 0
  then show ?case by (simp add: digits_value_def)
next
  case (Suc k)
  then have "n div 10 < 10 ^ k" by simp
  with Suc.IH show ?case by (simp add: digits_value_snoc)
qed

section \<open>std::to_string(double)\<close>

definition dbl_micros :: "double \<Rightarrow> nat" where
  \<comment> \<open>the magnitude of a finite double in millionths, rounded\<close>
  "dbl_micros d =
     (if 1074 \<le> dbl_scale d then dbl_mantissa d * 2 ^ (dbl_scale d - 1074) * 10 ^ 6
      else round_half_even (dbl_mantissa d * 10 ^ 6) (2 ^ (1074 - dbl_scale d)))"

definition double_to_string :: "double \<Rightarrow> string" where
  "double_to_string d =
     (if dbl_negative d then ''-'' else []) @
     (if dbl_is_finite d
      then nat_digits (dbl_micros d div 10 ^ 6) @ ''.'' @ pad_digits 6 (dbl_micros d mod 10 ^ 6)
      else if dbl_is_nan d then ''nan'' else ''inf'')"

lemma dbl_micros_error:
  assumes "dbl_scale d < 1074"
  shows "2 * \<bar>int (dbl_micros d) * 2 ^ (1074 - dbl_scale d) - int (dbl_mantissa d) * 10 ^ 6\<bar>
         \<le> 2 ^ (1074 - dbl_scale d)"
  using round_half_even_error [of "2 ^ (1074 - dbl_scale d)" "dbl_mantissa d * 10 ^ 6"] assms
  by (simp add: dbl_micros_def)

lemma dbl_micros_accurate:
  "2 * \<bar>int (dbl_micros d) * 2 ^ 1074 - int (dbl_mantissa d * 2 ^ dbl_scale d) * 10 ^ 6\<bar> \<le> 2 ^ 1074"
proof (cases "1074 \<le> dbl_scale d")
  case True
  then obtain k where k: "dbl_scale d = 1074 + k"
    using le_Suc_ex by blast
  then have "dbl_micros d * 2 ^ 1074 = dbl_mantissa d * 2 ^ dbl_scale d * 10 ^ 6"
    by (simp add: dbl_micros_def power_add)
  from arg_cong [OF this, of int]
  have "int (dbl_micros d) * 2 ^ 1074 = int (dbl_mantissa d * 2 ^ dbl_scale d) * 10 ^ 6"
    unfolding of_nat_mult of_nat_power of_nat_numeral .
  then show ?thesis
    unfolding \<open>int (dbl_micros d) * 2 ^ 1074 = _\<close> by simp
next
  case False
  define s where "s = dbl_scale d"
  define k where "k = 1074 - s"
  have k: "s + k = 1074" and less: "dbl_scale d < 1074"
    using False by (simp_all add: s_def k_def)
  have p: "(2 :: int) ^ 1074 = 2 ^ s * 2 ^ k"
    unfolding k [symmetric] power_add ..
  define x where "x = int (dbl_micros d) * 2 ^ k - int (dbl_mantissa d) * 10 ^ 6"
  have "2 * \<bar>x\<bar> \<le> 2 ^ k"
    using dbl_micros_error [OF less] unfolding x_def k_def s_def .
  then have "2 * \<bar>x\<bar> * 2 ^ s \<le> 2 ^ k * 2 ^ s"
    by (rule mult_right_mono) simp
  moreover have "int (dbl_micros d) * 2 ^ 1074 - int (dbl_mantissa d * 2 ^ dbl_scale d) * 10 ^ 6 = x * 2 ^ s"
    unfolding p s_def [symmetric] x_def by (simp add: algebra_simps)
  ultimately show ?thesis
    unfolding p by (simp add: abs_mult mult.commute mult.left_commute)
qed

definition is_number_char :: "char \<Rightarrow> bool" where
  "is_number_char c \<longleftrightarrow> is_digit c \<or> c = CHR ''-'' \<or> c = CHR ''.''"

lemma double_to_string_chars:
  assumes "dbl_is_finite d"
  shows "list_all is_number_char (double_to_string d)"
proof -
  have "list_all is_number_char s" if "list_all is_digit s" for s
    using that by (auto simp: list_all_iff is_number_char_def)
  then show ?thesis
    using assms
    by (simp add: double_to_string_def nat_digits_all_digits pad_digits_all_digits)
      (simp add: is_number_char_def)
qed

lemma double_to_string_not_Nil [simp]: "double_to_string d \<noteq> []"
  by (simp add: double_to_string_def)

section \<open>static_cast<float>(double)\<close>

definition flt_round :: "nat \<Rightarrow> nat \<Rightarrow> nat" where
  \<comment> \<open>the bits, without the sign, of the float nearest to \<open>m * 2 ^ (s - 1074)\<close>, which is \<open>m * 2 ^ s / 2 ^ 925\<close>
      units of \<open>2 ^ -149\<close>; an overflow gives the bits of infinity\<close>
  "flt_round m s = min (grid_round 23 (m * 2 ^ s) 925) (255 * 2 ^ 23)"

definition double_to_float :: "double \<Rightarrow> float32" where
  "double_to_float d =
     word_of_nat
      ((if dbl_negative d then 2 ^ 31 else 0) +
       (if dbl_is_finite d then flt_round (dbl_mantissa d) (dbl_scale d)
        else if dbl_is_nan d then 255 * 2 ^ 23 + 2 ^ 22 + dbl_fraction d div 2 ^ 29 mod 2 ^ 22
        else 255 * 2 ^ 23))"

section \<open>Comparing floats\<close>

definition flt_magnitude :: "float32 \<Rightarrow> nat" where
  "flt_magnitude f = unat f mod 2 ^ 31"

definition flt_is_nan :: "float32 \<Rightarrow> bool" where
  "flt_is_nan f \<longleftrightarrow> 255 * 2 ^ 23 < flt_magnitude f"

definition flt_order :: "float32 \<Rightarrow> int" where
  \<comment> \<open>the order of the floats that are numbers, both zeros at 0\<close>
  "flt_order f = (if 2 ^ 31 \<le> unat f then - int (flt_magnitude f) else int (flt_magnitude f))"

definition flt_less :: "float32 \<Rightarrow> float32 \<Rightarrow> bool" where
  "flt_less a b \<longleftrightarrow> \<not> flt_is_nan a \<and> \<not> flt_is_nan b \<and> flt_order a < flt_order b"

lemma flt_less_irrefl [simp]: "\<not> flt_less a a"
  by (simp add: flt_less_def)

lemma flt_less_trans: "flt_less a b \<Longrightarrow> flt_less b c \<Longrightarrow> flt_less a c"
  by (simp add: flt_less_def)

lemma flt_round_bound: "flt_round m s \<le> 255 * 2 ^ 23"
  by (simp add: flt_round_def Let_def)

lemma flt_magnitude_double_to_float:
  assumes "dbl_is_finite d"
  shows "flt_magnitude (double_to_float d) = flt_round (dbl_mantissa d) (dbl_scale d)"
proof -
  define n where "n = flt_round (dbl_mantissa d) (dbl_scale d)"
  define b :: nat where "b = (if dbl_negative d then 2 ^ 31 else 0)"
  have n: "n < 2 ^ 31"
    using flt_round_bound [of "dbl_mantissa d" "dbl_scale d"] by (simp add: n_def)
  then have "b + n < 2 ^ 32"
    by (simp add: b_def)
  then have "unat (word_of_nat (b + n) :: 32 word) = b + n"
    by (subst unat_of_nat) (simp add: take_bit_nat_eq_self)
  moreover have "(b + n) mod 2 ^ 31 = n"
    using n by (simp add: b_def)
  ultimately show ?thesis
    using assms
    by (simp only: flt_magnitude_def double_to_float_def b_def n_def if_True)
qed

section \<open>The values of floats\<close>

text \<open>
  \<open>flt_units\<close> is the value of a float that is a number in units of \<open>2 ^ -149\<close>, exactly; infinity has
  the value that would follow the largest float. The order of the bits is the order of the values.
\<close>

definition mag_units :: "nat \<Rightarrow> nat" where
  "mag_units m = grid_units 23 m"

definition flt_units :: "float32 \<Rightarrow> int" where
  "flt_units f =
     (if 2 ^ 31 \<le> unat f then - int (mag_units (flt_magnitude f)) else int (mag_units (flt_magnitude f)))"

lemma mag_units_less [simp]: "mag_units m < mag_units n \<longleftrightarrow> m < n"
  by (simp add: mag_units_def)

lemma mag_units_zero [simp]: "mag_units 0 = 0"
  by (simp add: mag_units_def)

lemma mag_units_pos: "0 < mag_units m \<longleftrightarrow> 0 < m"
  by (simp add: mag_units_def grid_units_pos)

lemma flt_order_units: "flt_order a < flt_order b \<longleftrightarrow> flt_units a < flt_units b"
proof -
  have "(- int x < int y) = (- int (mag_units x) < int (mag_units y))" for x y
    using mag_units_pos [of x] mag_units_pos [of y] by (cases x; cases y) auto
  moreover have "(int x < - int y) = (int (mag_units x) < - int (mag_units y))" for x y
    by simp
  ultimately show ?thesis
    unfolding flt_order_def flt_units_def by simp
qed

section \<open>Double arithmetic\<close>

text \<open>
  The operations on finite operands, rounded to nearest, ties to even; values are counted exactly in
  units of \<open>2 ^ -1074\<close>. An overflow gives the bits of infinity.
\<close>

definition dbl_units :: "double \<Rightarrow> nat" where
  "dbl_units d = dbl_mantissa d * 2 ^ dbl_scale d"

definition dbl_round :: "nat \<Rightarrow> nat \<Rightarrow> nat" where
  \<comment> \<open>the bits, without the sign, of the double nearest to \<open>n / 2 ^ p\<close> units\<close>
  "dbl_round n p = min (grid_round 52 n p) (2047 * 2 ^ 52)"

definition dbl_make :: "bool \<Rightarrow> nat \<Rightarrow> double" where
  "dbl_make neg bits = word_of_nat ((if neg then 2 ^ 63 else 0) + bits)"

definition dbl_of_nat :: "nat \<Rightarrow> double" where
  "dbl_of_nat n = dbl_make False (dbl_round (n * 2 ^ 1074) 0)"

definition dbl_mul :: "double \<Rightarrow> double \<Rightarrow> double" where
  "dbl_mul a b = dbl_make (dbl_negative a \<noteq> dbl_negative b) (dbl_round (dbl_units a * dbl_units b) 1074)"

definition dbl_signed_units :: "double \<Rightarrow> int" where
  "dbl_signed_units d = (if dbl_negative d then - int (dbl_units d) else int (dbl_units d))"

definition dbl_add :: "double \<Rightarrow> double \<Rightarrow> double" where
  "dbl_add a b =
     (let v = dbl_signed_units a + dbl_signed_units b
      in dbl_make (v < 0 \<or> v = 0 \<and> dbl_negative a \<and> dbl_negative b) (dbl_round (nat \<bar>v\<bar>) 0))"

definition dbl_sub :: "double \<Rightarrow> double \<Rightarrow> double" where
  "dbl_sub a b = dbl_add a (xor b (push_bit 63 1))"

end
