(* ===== verification/Telemetry.thy ===== *)
theory Telemetry
  imports Floating_Point "HOL-Library.AList"
begin

text \<open>
  The data that travels through the gateway: \<^verbatim>\<open>models::TelemetryData\<close> (models/telemetry_data.hpp), the
  frame the ingestion engine fills, the queue carries and the storage engine writes; and
  \<^verbatim>\<open>telemetry::TelemetryPacket\<close> (telemetry/telemetry_data.hpp), the unified frame with the robot's
  operational state.

  \<^verbatim>\<open>std::unordered_map<std::string, double>\<close> is an association list with distinct keys. Its order
  stands for no order of the program: whoever iterates over the map does so in an order given by a
  parameter (\<open>iteration_order\<close> in the storage theory).
\<close>

section \<open>models::TelemetryData\<close>

record telemetry_data =
  robot_id :: string
  sensor_type :: string
  timestamp_ns :: u64
  sequence_id :: u64
  payload_values :: "(string \<times> double) list"

definition empty_telemetry :: telemetry_data where
  \<comment> \<open>the default member initialisers\<close>
  "empty_telemetry =
     \<lparr>robot_id = [], sensor_type = [], timestamp_ns = 0, sequence_id = 0, payload_values = []\<rparr>"

definition payload_wf :: "telemetry_data \<Rightarrow> bool" where
  "payload_wf d \<longleftrightarrow> distinct (map fst (payload_values d))"

lemma payload_wf_empty [simp]: "payload_wf empty_telemetry"
  by (simp add: payload_wf_def empty_telemetry_def)

section \<open>telemetry::RobotState\<close>

text \<open>
  The enumeration has the underlying type \<^verbatim>\<open>uint8_t\<close>, so an object of it holds any byte; the bytes
  without an enumerator reach the default case of \<^verbatim>\<open>to_string\<close>.
\<close>

datatype robot_state =
    UNINITIALIZED
  | DISARMED
  | STANDBY
  | AUTONOMOUS
  | MANUAL_REMOTE
  | EMERGENCY_STOP
  | FAULT

fun robot_state_code :: "robot_state \<Rightarrow> byte" where
  "robot_state_code UNINITIALIZED = 0"
| "robot_state_code DISARMED = 1"
| "robot_state_code STANDBY = 2"
| "robot_state_code AUTONOMOUS = 3"
| "robot_state_code MANUAL_REMOTE = 4"
| "robot_state_code EMERGENCY_STOP = 5"
| "robot_state_code FAULT = 6"

definition robot_state_to_string :: "byte \<Rightarrow> string" where
  "robot_state_to_string b =
     (if b = robot_state_code UNINITIALIZED then ''UNINITIALIZED''
      else if b = robot_state_code DISARMED then ''DISARMED''
      else if b = robot_state_code STANDBY then ''STANDBY''
      else if b = robot_state_code AUTONOMOUS then ''AUTONOMOUS''
      else if b = robot_state_code MANUAL_REMOTE then ''MANUAL_REMOTE''
      else if b = robot_state_code EMERGENCY_STOP then ''EMERGENCY_STOP''
      else if b = robot_state_code FAULT then ''FAULT''
      else ''UNKNOWN'')"

lemma robot_state_code_inject: "robot_state_code s = robot_state_code t \<Longrightarrow> s = t"
  by (cases s; cases t) simp_all

text \<open>The states are ordered as the enumeration orders them.\<close>

instantiation robot_state :: linorder
begin

definition less_eq_robot_state :: "robot_state \<Rightarrow> robot_state \<Rightarrow> bool" where
  "less_eq_robot_state s t \<longleftrightarrow> robot_state_code s \<le> robot_state_code t"

definition less_robot_state :: "robot_state \<Rightarrow> robot_state \<Rightarrow> bool" where
  "less_robot_state s t \<longleftrightarrow> robot_state_code s < robot_state_code t"

instance
proof
  fix s t :: robot_state
  show "s \<le> t \<Longrightarrow> t \<le> s \<Longrightarrow> s = t"
    unfolding less_eq_robot_state_def by (rule robot_state_code_inject) (rule order.antisym)
qed (auto simp: less_eq_robot_state_def less_robot_state_def)

end

lemma robot_state_to_string_inject:
  "robot_state_to_string (robot_state_code s) = robot_state_to_string (robot_state_code t) \<Longrightarrow> s = t"
  by (cases s; cases t) (simp_all add: robot_state_to_string_def)

lemma robot_state_to_string_known:
  "robot_state_to_string (robot_state_code s) \<noteq> ''UNKNOWN''"
  by (cases s) (simp_all add: robot_state_to_string_def)

lemma robot_state_to_string_unknown:
  "(\<forall>s. b \<noteq> robot_state_code s) \<Longrightarrow> robot_state_to_string b = ''UNKNOWN''"
  by (simp add: robot_state_to_string_def del: robot_state_code.simps)

section \<open>telemetry::TelemetryPacket\<close>

record hardware_metrics =
  cpu_utilization_pct :: double
  ram_utilization_pct :: double
  core_temperature_c :: double
  battery_voltage_v :: double
  battery_percentage :: float32
  active_fault_codes :: byte

record kinematic_data =
  position_xyz :: "double \<times> double \<times> double"
  linear_velocity :: "double \<times> double \<times> double"
  angular_velocity :: "double \<times> double \<times> double"
  orientation_q :: "double \<times> double \<times> double \<times> double"

record telemetry_packet =
  sequence_number :: u64
  timestamp_us :: u64
  packet_robot_id :: string
  current_state :: byte
  hardware :: hardware_metrics
  kinematics :: kinematic_data
  status_message :: "string option"

definition default_hardware :: hardware_metrics where
  "default_hardware =
     \<lparr>cpu_utilization_pct = 0, ram_utilization_pct = 0, core_temperature_c = 0,
      battery_voltage_v = 0, battery_percentage = 0, active_fault_codes = 0\<rparr>"

definition default_kinematics :: kinematic_data where
  \<comment> \<open>\<open>0x3FF0000000000000\<close> is the double 1.0\<close>
  "default_kinematics =
     \<lparr>position_xyz = (0, 0, 0), linear_velocity = (0, 0, 0), angular_velocity = (0, 0, 0),
      orientation_q = (0x3FF0000000000000, 0, 0, 0)\<rparr>"

definition default_packet :: telemetry_packet where
  "default_packet =
     \<lparr>sequence_number = 0, timestamp_us = 0, packet_robot_id = [],
      current_state = robot_state_code UNINITIALIZED, hardware = default_hardware,
      kinematics = default_kinematics, status_message = None\<rparr>"

definition now_microseconds :: "int \<Rightarrow> u64" where
  \<comment> \<open>the argument is the system clock's signed count of microseconds since the epoch\<close>
  "now_microseconds clock_us = word_of_int clock_us"

definition float_ten :: float32 where
  \<comment> \<open>the literal \<open>10.0f\<close>\<close>
  "float_ten = 0x41200000"

definition is_critical :: "telemetry_packet \<Rightarrow> bool" where
  "is_critical p \<longleftrightarrow>
     current_state p = robot_state_code EMERGENCY_STOP \<or>
     current_state p = robot_state_code FAULT \<or>
     flt_less (battery_percentage (hardware p)) float_ten"

lemma float_ten_is_ten: "double_to_float 0x4024000000000000 = float_ten"
  by (simp add: double_to_float_def dbl_negative_def dbl_is_finite_def dbl_exponent_def
      dbl_mantissa_def dbl_fraction_def dbl_scale_def flt_round_def grid_round_def bit_length.simps
      round_half_even_def float_ten_def)

text \<open>
  A packet in a safe state is critical exactly when its battery reads below ten percent, which a
  reading that is not a number never does; the packet as constructed is critical, because the
  battery reads zero until somebody fills it in.
\<close>

lemma is_critical_nan:
  "flt_is_nan (battery_percentage (hardware p)) \<Longrightarrow>
   is_critical p \<longleftrightarrow>
     current_state p = robot_state_code EMERGENCY_STOP \<or> current_state p = robot_state_code FAULT"
  by (simp add: is_critical_def flt_less_def)

lemma flt_less_zero_ten [simp]: "flt_less 0 float_ten"
  by (simp add: flt_less_def flt_is_nan_def flt_magnitude_def flt_order_def float_ten_def)

lemma is_critical_default: "is_critical default_packet"
  by (simp add: is_critical_def default_packet_def default_hardware_def)

end
