(* ===== verification/Storage_Engine.thy ===== *)
theory Storage_Engine
  imports Telemetry
begin

text \<open>
  \<^verbatim>\<open>storage::StorageEngine\<close> (storage/storage_engine.hpp and .cpp): the SQLite store, its one-time
  initialisation, single and batch inserts, and closing.

  SQLite and the file system are parameters: \<open>store_api\<close> has one function per call of the source on
  the opaque world \<open>'w\<close>, with opaque connection handles \<open>'h\<close> and statement handles \<open>'s\<close>; a null
  pointer is \<open>None\<close>. \<open>map_order\<close> is the order in which the program iterates over an unordered map.

  The members of the class are a record that extends the environment. \<^verbatim>\<open>init_flag_\<close>, the once-flag of
  \<^verbatim>\<open>std::call_once\<close>, is the boolean \<open>init_done\<close>. Each public operation is the composition of the
  steps it takes without the mutex (the once-initialisation and the test of the atomic flag) and the
  section it runs under \<^verbatim>\<open>db_mutex_\<close>, which is a definition of its own, so that a theory of threads
  can interleave them.
\<close>

section \<open>SQLite and the file system, as parameters\<close>

definition SQLITE_OK :: int where "SQLITE_OK = 0"
definition SQLITE_DONE :: int where "SQLITE_DONE = 101"

record ('w, 'h, 's) store_api =
  create_directories :: "string \<Rightarrow> 'w \<Rightarrow> 'w"
  sq_open :: "string \<Rightarrow> 'w \<Rightarrow> int \<times> 'h option \<times> 'w"
  sq_errmsg :: "'h option \<Rightarrow> 'w \<Rightarrow> string"
  sq_exec :: "'h option \<Rightarrow> string \<Rightarrow> 'w \<Rightarrow> int \<times> string option \<times> 'w"
  sq_prepare :: "'h option \<Rightarrow> string \<Rightarrow> 'w \<Rightarrow> int \<times> 's option \<times> 'w"
  sq_reset :: "'s option \<Rightarrow> 'w \<Rightarrow> 'w"
  sq_clear_bindings :: "'s option \<Rightarrow> 'w \<Rightarrow> 'w"
  sq_bind_text :: "'s option \<Rightarrow> nat \<Rightarrow> string \<Rightarrow> 'w \<Rightarrow> 'w"
  sq_bind_int64 :: "'s option \<Rightarrow> nat \<Rightarrow> int \<Rightarrow> 'w \<Rightarrow> 'w"
  sq_step :: "'s option \<Rightarrow> 'w \<Rightarrow> int \<times> 'w"
  sq_finalize :: "'s \<Rightarrow> 'w \<Rightarrow> 'w"
  sq_close :: "'h \<Rightarrow> 'w \<Rightarrow> 'w"
  map_order :: "(string \<times> double) list \<Rightarrow> (string \<times> double) list"

section \<open>The state of the engine\<close>

record ('w, 'h, 's) storage = "'w env" +
  db_path :: string
  db :: "'h option"
  insert_stmt :: "'s option"
  init_done :: bool
  is_initialized :: bool
  init_failed :: bool

definition storage_new :: "string \<Rightarrow> 'w env \<Rightarrow> ('w, 'h, 's) storage" where
  "storage_new path e =
     env.extend e (storage.fields path None None False False False)"

section \<open>Initialisation and closing\<close>

definition parent_path :: "string \<Rightarrow> string" where
  \<comment> \<open>\<open>std::filesystem::path::parent_path\<close> of a POSIX path: drop the file name and the slashes before
      it; a root directory is its own parent; the result is empty when there is no parent\<close>
  "parent_path p =
     (let dir = dropWhile (\<lambda>c. c \<noteq> CHR ''/'') (rev p); up = dropWhile (\<lambda>c. c = CHR ''/'') dir
      in rev (if up = [] then dir else up))"

definition run_exec ::
  "('w, 'h, 's) store_api \<Rightarrow> string \<Rightarrow> ('w, 'h, 's, 'm) storage_scheme \<Rightarrow>
   int \<times> string option \<times> ('w, 'h, 's, 'm) storage_scheme" where
  "run_exec api sql s =
     (let (rc, err, w) = sq_exec api (db s) sql (ext s) in (rc, err, s\<lparr>ext := w\<rparr>))"

definition err_text :: "string option \<Rightarrow> string" where
  "err_text err = (case err of Some m \<Rightarrow> m | None \<Rightarrow> ''unknown'')"

definition close_internal ::
  "('w, 'h, 's) store_api \<Rightarrow> ('w, 'h, 's, 'm) storage_scheme \<Rightarrow> ('w, 'h, 's, 'm) storage_scheme" where
  "close_internal api s =
     (let s = (case insert_stmt s of
                 None \<Rightarrow> s
               | Some st \<Rightarrow> s\<lparr>ext := sq_finalize api st (ext s), insert_stmt := None\<rparr>);
          s = (case db s of
                 None \<Rightarrow> s
               | Some h \<Rightarrow> s\<lparr>ext := sq_close api h (ext s), db := None\<rparr>)
      in s\<lparr>is_initialized := False\<rparr>)"

definition close_engine ::
  "('w, 'h, 's) store_api \<Rightarrow> ('w, 'h, 's, 'm) storage_scheme \<Rightarrow> ('w, 'h, 's, 'm) storage_scheme" where
  "close_engine api s = (close_internal api s)\<lparr>init_failed := False\<rparr>"

definition enable_wal_mode ::
  "('w, 'h, 's) store_api \<Rightarrow> ('w, 'h, 's, 'm) storage_scheme \<Rightarrow>
   bool \<times> ('w, 'h, 's, 'm) storage_scheme" where
  "enable_wal_mode api s =
     (let (rc, err, s) = run_exec api ''PRAGMA journal_mode=WAL;'' s
      in if rc \<noteq> SQLITE_OK
         then (False, log_msg Error ''StorageEngine: Failed to enable WAL mode: {}'' [err_text err] s)
         else let (rc, err, s) = run_exec api ''PRAGMA synchronous=NORMAL;'' s
              in if rc \<noteq> SQLITE_OK
                 then (False, log_msg Error ''StorageEngine: Failed to set synchronous mode: {}''
                                [err_text err] s)
                 else (True, s))"

definition schema_sql :: string where
  "schema_sql =
     ''CREATE TABLE IF NOT EXISTS telemetry_records ('' @
     ''id INTEGER PRIMARY KEY AUTOINCREMENT,'' @
     ''robot_id TEXT NOT NULL,'' @
     ''sensor_type TEXT NOT NULL,'' @
     ''timestamp_ns INTEGER NOT NULL,'' @
     ''sequence_id INTEGER NOT NULL,'' @
     ''payload_json TEXT NOT NULL,'' @
     ''created_at DATETIME DEFAULT CURRENT_TIMESTAMP'' @
     '');'' @
     ''CREATE INDEX IF NOT EXISTS idx_robot_timestamp '' @
     ''ON telemetry_records(robot_id, timestamp_ns);''"

definition create_schema ::
  "('w, 'h, 's) store_api \<Rightarrow> ('w, 'h, 's, 'm) storage_scheme \<Rightarrow>
   bool \<times> ('w, 'h, 's, 'm) storage_scheme" where
  "create_schema api s =
     (let (rc, err, s) = run_exec api schema_sql s
      in if rc \<noteq> SQLITE_OK
         then (False, log_msg Error ''StorageEngine: Failed to create schema: {}'' [err_text err] s)
         else (True, s))"

definition insert_sql :: string where
  "insert_sql =
     ''INSERT INTO telemetry_records '' @
     ''(robot_id, sensor_type, timestamp_ns, sequence_id, payload_json) '' @
     ''VALUES (?, ?, ?, ?, ?);''"

definition init_failure ::
  "('w, 'h, 's) store_api \<Rightarrow> ('w, 'h, 's, 'm) storage_scheme \<Rightarrow>
   bool \<times> ('w, 'h, 's, 'm) storage_scheme" where
  \<comment> \<open>the common end of the failing branches\<close>
  "init_failure api s = (False, close_internal api (s\<lparr>init_failed := True\<rparr>))"

definition open_database ::
  "('w, 'h, 's) store_api \<Rightarrow> ('w, 'h, 's, 'm) storage_scheme \<Rightarrow>
   int \<times> ('w, 'h, 's, 'm) storage_scheme" where
  \<comment> \<open>the parent directory, then \<open>sqlite3_open\<close>\<close>
  "open_database api s =
     (let s = (if parent_path (db_path s) \<noteq> []
               then s\<lparr>ext := create_directories api (parent_path (db_path s)) (ext s)\<rparr> else s);
          (rc, h, w) = sq_open api (c_str (db_path s)) (ext s)
      in (rc, s\<lparr>db := h, ext := w\<rparr>))"

definition prepare_insert ::
  "('w, 'h, 's) store_api \<Rightarrow> ('w, 'h, 's, 'm) storage_scheme \<Rightarrow>
   int \<times> ('w, 'h, 's, 'm) storage_scheme" where
  "prepare_insert api s =
     (let (rc, st, w) = sq_prepare api (db s) insert_sql (ext s)
      in (rc, s\<lparr>insert_stmt := st, ext := w\<rparr>))"

definition init_internal ::
  "('w, 'h, 's) store_api \<Rightarrow> ('w, 'h, 's, 'm) storage_scheme \<Rightarrow>
   bool \<times> ('w, 'h, 's, 'm) storage_scheme" where
  "init_internal api s =
     (if is_initialized s then (True, s)
      else let s = s\<lparr>init_failed := False\<rparr>;
               (rc, s) = open_database api s
           in if rc \<noteq> SQLITE_OK
              then init_failure api
                     (log_msg Error ''StorageEngine: Failed to open SQLite database at '{}': {}''
                        [db_path s, sq_errmsg api (db s) (ext s)] s)
              else let (ok, s) = enable_wal_mode api s
           in if \<not> ok then init_failure api s
              else let (ok, s) = create_schema api s
           in if \<not> ok then init_failure api s
              else let (rc, s) = prepare_insert api s
           in if rc \<noteq> SQLITE_OK
              then init_failure api
                     (log_msg Error ''StorageEngine: Failed to prepare insert statement: {}''
                        [sq_errmsg api (db s) (ext s)] s)
              else (True,
                    log_msg Info
                      ''StorageEngine: Database initialized successfully at '{}' (WAL mode active)''
                      [db_path s] (s\<lparr>is_initialized := True\<rparr>)))"

definition ensure_initialized ::
  "('w, 'h, 's) store_api \<Rightarrow> ('w, 'h, 's, 'm) storage_scheme \<Rightarrow> ('w, 'h, 's, 'm) storage_scheme" where
  \<comment> \<open>\<open>std::call_once\<close>: the initialisation runs in the first call only, whatever it returns\<close>
  "ensure_initialized api s =
     (if init_done s then s else (snd (init_internal api s))\<lparr>init_done := True\<rparr>)"

definition init_engine ::
  "('w, 'h, 's) store_api \<Rightarrow> ('w, 'h, 's, 'm) storage_scheme \<Rightarrow>
   bool \<times> ('w, 'h, 's, 'm) storage_scheme" where
  "init_engine api s = (let s = ensure_initialized api s in (is_initialized s, s))"

definition is_ready :: "('w, 'h, 's, 'm) storage_scheme \<Rightarrow> bool" where
  "is_ready s = is_initialized s"

definition DEFAULT_DB_PATH :: string where
  \<comment> \<open>the default argument of the constructor\<close>
  "DEFAULT_DB_PATH = ''data/telemetry_history.db''"

definition storage_destroy ::
  "('w, 'h, 's) store_api \<Rightarrow> ('w, 'h, 's, 'm) storage_scheme \<Rightarrow> ('w, 'h, 's, 'm) storage_scheme" where
  "storage_destroy api s = close_engine api s"

section \<open>The text of a payload\<close>

fun payload_entries :: "bool \<Rightarrow> (string \<times> double) list \<Rightarrow> string" where
  "payload_entries first [] = []"
| "payload_entries first ((key, v) # rest) =
     (if \<not> first then '','' else []) @
     [CHR 0x22] @ key @ [CHR 0x22, CHR '':''] @ double_to_string v @ payload_entries False rest"

definition payload_json ::
  "((string \<times> double) list \<Rightarrow> (string \<times> double) list) \<Rightarrow> telemetry_data \<Rightarrow> string" where
  "payload_json order d = ''{'' @ payload_entries True (order (payload_values d)) @ ''}''"

section \<open>Inserting\<close>

definition write_row ::
  "('w, 'h, 's) store_api \<Rightarrow> telemetry_data \<Rightarrow> 's option \<Rightarrow> 'w \<Rightarrow> int \<times> 'w" where
  \<comment> \<open>reset, bind the five parameters (the result codes are ignored), step. The statement is not null when
      the calls come one after the other; a null one crashes here, which is in \<open>Storage_Threads\<close>\<close>
  "write_row api d st w =
     (let w = sq_reset api st w;
          w = sq_clear_bindings api st w;
          text = payload_json (map_order api) d;
          w = sq_bind_text api st 1 (c_str (robot_id d)) w;
          w = sq_bind_text api st 2 (c_str (sensor_type d)) w;
          w = sq_bind_int64 api st 3 (sint (timestamp_ns d)) w;
          w = sq_bind_int64 api st 4 (sint (sequence_id d)) w;
          w = sq_bind_text api st 5 (c_str text) w
      in sq_step api st w)"

definition insert_section ::
  "('w, 'h, 's) store_api \<Rightarrow> telemetry_data \<Rightarrow> ('w, 'h, 's, 'm) storage_scheme \<Rightarrow>
   bool \<times> ('w, 'h, 's, 'm) storage_scheme" where
  "insert_section api d s =
     (let (rc, w) = write_row api d (insert_stmt s) (ext s); s = s\<lparr>ext := w\<rparr>
      in if rc \<noteq> SQLITE_DONE
         then (False, log_msg Error ''StorageEngine: Insert telemetry step failed: {}''
                        [sq_errmsg api (db s) (ext s)] s)
         else (True, s))"

definition insert_telemetry ::
  "('w, 'h, 's) store_api \<Rightarrow> telemetry_data \<Rightarrow> ('w, 'h, 's, 'm) storage_scheme \<Rightarrow>
   bool \<times> ('w, 'h, 's, 'm) storage_scheme" where
  "insert_telemetry api d s =
     (let s = ensure_initialized api s
      in if \<not> is_initialized s
         then (False, log_msg Error
                 ''StorageEngine: Cannot insert telemetry; database connection initialization failed.''
                 [] s)
         else insert_section api d s)"

fun insert_all ::
  "('w, 'h, 's) store_api \<Rightarrow> telemetry_data list \<Rightarrow> ('w, 'h, 's, 'm) storage_scheme \<Rightarrow>
   bool \<times> ('w, 'h, 's, 'm) storage_scheme" where
  \<comment> \<open>the loop over the batch, left at the first step that fails\<close>
  "insert_all api [] s = (True, s)"
| "insert_all api (d # ds) s =
     (let (rc, w) = write_row api d (insert_stmt s) (ext s); s = s\<lparr>ext := w\<rparr>
      in if rc \<noteq> SQLITE_DONE
         then (False, log_msg Error ''StorageEngine: Batch item insert failed: {}''
                        [sq_errmsg api (db s) (ext s)] s)
         else insert_all api ds s)"

definition batch_section ::
  "('w, 'h, 's) store_api \<Rightarrow> telemetry_data list \<Rightarrow> ('w, 'h, 's, 'm) storage_scheme \<Rightarrow>
   bool \<times> ('w, 'h, 's, 'm) storage_scheme" where
  "batch_section api batch s =
     (let (rc, err, s) = run_exec api ''BEGIN TRANSACTION;'' s
      in if rc \<noteq> SQLITE_OK
         then (False, log_msg Error ''StorageEngine: Failed to begin transaction: {}'' [err_text err] s)
         else let (success, s) = insert_all api batch s
              in if success
                 then let (rc, err, s) = run_exec api ''COMMIT;'' s
                      in if rc \<noteq> SQLITE_OK
                         then (False, log_msg Error ''StorageEngine: Failed to commit transaction: {}''
                                        [err_text err] s)
                         else (True, s)
                 else let (rc, err, s) = run_exec api ''ROLLBACK;'' s in (False, s))"

definition insert_batch ::
  "('w, 'h, 's) store_api \<Rightarrow> telemetry_data list \<Rightarrow> ('w, 'h, 's, 'm) storage_scheme \<Rightarrow>
   bool \<times> ('w, 'h, 's, 'm) storage_scheme" where
  "insert_batch api batch s =
     (let s = ensure_initialized api s
      in if \<not> is_initialized s
         then (False, log_msg Error
                 ''StorageEngine: Cannot insert batch; database connection initialization failed.''
                 [] s)
         else if batch = [] then (True, s)
         else batch_section api batch s)"

section \<open>Queries and purging (stubs)\<close>

definition query_telemetry ::
  "('w, 'h, 's) store_api \<Rightarrow> string \<Rightarrow> u64 \<Rightarrow> ('w, 'h, 's, 'm) storage_scheme \<Rightarrow>
   telemetry_data list \<times> ('w, 'h, 's, 'm) storage_scheme" where
  "query_telemetry api rid limit s =
     (let s = ensure_initialized api s
      in if \<not> is_initialized s
         then ([], log_msg Error
                 ''StorageEngine: Cannot query telemetry; database connection initialization failed.''
                 [] s)
         else ([], s))"

definition purge_older_than ::
  "('w, 'h, 's) store_api \<Rightarrow> u64 \<Rightarrow> ('w, 'h, 's, 'm) storage_scheme \<Rightarrow>
   bool \<times> ('w, 'h, 's, 'm) storage_scheme" where
  "purge_older_than api threshold s =
     (let s = ensure_initialized api s
      in if \<not> is_initialized s
         then (False, log_msg Error
                 ''StorageEngine: Cannot purge data; database connection initialization failed.''
                 [] s)
         else (True, s))"

end
