(* ===== verification/Storage_Refinement.thy ===== *)
theory Storage_Refinement
  imports Storage_Engine
begin

text \<open>
  The storage engine against what SQLite documents. \<open>db_view\<close> is the abstract state of the database
  file and of the handles; \<open>sqlite_laws\<close> says how each call the engine makes moves it, as documented,
  failures included. The refinement: an insert appends exactly the row of its frame or changes
  nothing, a batch is stored as a whole or not at all. The contract the callers rely on is the locale
  \<open>telemetry_store\<close>, extended by \<open>batch_store\<close>, and interpreted on the engine at the end.
\<close>

section \<open>The abstract database\<close>

datatype sql_value = SText string | SInt int

type_synonym row = "sql_value list"

record ('h, 's) db_view =
  v_conn :: "'h \<Rightarrow> bool"
  v_prog :: "'s \<Rightarrow> string option"
  v_bound :: "'s \<Rightarrow> nat \<Rightarrow> sql_value option"
  v_rows :: "row list"
  v_txn :: "row list option"

text \<open>
  \<open>v_conn\<close>: the open connections; \<open>v_prog\<close>: the text of each live prepared statement; \<open>v_bound\<close>: its
  parameters, unbound ones being NULL; \<open>v_rows\<close>: the committed rows of \<^verbatim>\<open>telemetry_records\<close>, each with
  the values of the five inserted columns; \<open>v_txn\<close>: the rows of the open transaction, if there is one.
\<close>

definition bind_param :: "'s \<Rightarrow> nat \<Rightarrow> sql_value \<Rightarrow> ('h, 's) db_view \<Rightarrow> ('h, 's) db_view" where
  "bind_param st i v dv = dv\<lparr>v_bound := (v_bound dv)(st := (v_bound dv st)(i \<mapsto> v))\<rparr>"

definition unbind_all :: "'s \<Rightarrow> ('h, 's) db_view \<Rightarrow> ('h, 's) db_view" where
  "unbind_all st dv = dv\<lparr>v_bound := (v_bound dv)(st := (\<lambda>_. None))\<rparr>"

definition add_row :: "row \<Rightarrow> ('h, 's) db_view \<Rightarrow> ('h, 's) db_view" where
  \<comment> \<open>into the open transaction, or committed at once\<close>
  "add_row r dv =
     (case v_txn dv of
        None \<Rightarrow> dv\<lparr>v_rows := v_rows dv @ [r]\<rparr>
      | Some t \<Rightarrow> dv\<lparr>v_txn := Some (t @ [r])\<rparr>)"

definition drop_txn :: "('h, 's) db_view \<Rightarrow> ('h, 's) db_view" where
  "drop_txn dv = dv\<lparr>v_txn := None\<rparr>"

definition bind_laws :: "('w, 'h, 's) store_api \<Rightarrow> ('w \<Rightarrow> ('h, 's) db_view) \<Rightarrow> bool" where
  \<comment> \<open>a bind call may fail, and then leaves the parameter as it was\<close>
  "bind_laws api view \<longleftrightarrow>
     (\<forall>st w. view (sq_reset api (Some st) w) = view w) \<and>
     (\<forall>st w. view (sq_clear_bindings api (Some st) w) = unbind_all st (view w)) \<and>
     (\<forall>st i t w. view (sq_bind_text api (Some st) i t w)
                   \<in> {view w, bind_param st i (SText t) (view w)}) \<and>
     (\<forall>st i n w. view (sq_bind_int64 api (Some st) i n w)
                   \<in> {view w, bind_param st i (SInt n) (view w)})"

definition step_law :: "('w, 'h, 's) store_api \<Rightarrow> ('w \<Rightarrow> ('h, 's) db_view) \<Rightarrow> bool" where
  \<comment> \<open>a step that is done has added the row of the bindings, all of them non-null as the schema
      demands; one that fails has added nothing, and may have rolled the transaction back\<close>
  "step_law api view \<longleftrightarrow>
     (\<forall>st w rc w'. v_prog (view w) st = Some insert_sql \<longrightarrow> sq_step api (Some st) w = (rc, w') \<longrightarrow>
        (if rc = SQLITE_DONE
         then \<exists>r. map (v_bound (view w) st) [1, 2, 3, 4, 5] = map Some r \<and>
                  view w' = add_row r (view w)
         else view w' \<in> {view w, drop_txn (view w)}))"

definition txn_laws :: "('w, 'h, 's) store_api \<Rightarrow> ('w \<Rightarrow> ('h, 's) db_view) \<Rightarrow> bool" where
  "txn_laws api view \<longleftrightarrow>
     (\<forall>h w rc err w'. v_conn (view w) h \<longrightarrow>
        (sq_exec api (Some h) ''BEGIN TRANSACTION;'' w = (rc, err, w') \<longrightarrow>
           (if rc = SQLITE_OK
            then v_txn (view w) = None \<and> view w' = (view w)\<lparr>v_txn := Some []\<rparr>
            else view w' = view w)) \<and>
        (sq_exec api (Some h) ''COMMIT;'' w = (rc, err, w') \<longrightarrow>
           (if rc = SQLITE_OK
            then \<exists>t. v_txn (view w) = Some t \<and>
                     view w' = (view w)\<lparr>v_rows := v_rows (view w) @ t, v_txn := None\<rparr>
            else view w' \<in> {view w, drop_txn (view w)})) \<and>
        (sq_exec api (Some h) ''ROLLBACK;'' w = (rc, err, w') \<longrightarrow>
           view w' \<in> {view w, drop_txn (view w)} \<and> (rc = SQLITE_OK \<longrightarrow> view w' = drop_txn (view w))))"

definition open_laws_in ::
  "(('h, 's) db_view \<Rightarrow> bool) \<Rightarrow> ('w, 'h, 's) store_api \<Rightarrow> ('w \<Rightarrow> ('h, 's) db_view) \<Rightarrow> bool" where
  \<comment> \<open>in the worlds named: opening, the pragmas, the schema and preparing the insert neither add nor
      remove rows; a successful open gives an open connection, a successful prepare on an open
      connection a live statement\<close>
  "open_laws_in ok api view \<longleftrightarrow>
     (\<forall>p w. view (create_directories api p w) = view w) \<and>
     (\<forall>p w rc h w'. ok (view w) \<longrightarrow> sq_open api p w = (rc, h, w') \<longrightarrow>
        v_rows (view w') = v_rows (view w) \<and> v_txn (view w') = v_txn (view w) \<and>
        (rc = SQLITE_OK \<longrightarrow> (\<exists>c. h = Some c \<and> v_conn (view w') c))) \<and>
     (\<forall>h sql w rc err w'.
        sql \<in> {''PRAGMA journal_mode=WAL;'', ''PRAGMA synchronous=NORMAL;'', schema_sql} \<longrightarrow>
        sq_exec api h sql w = (rc, err, w') \<longrightarrow> view w' = view w) \<and>
     (\<forall>h w rc st w'. sq_prepare api h insert_sql w = (rc, st, w') \<longrightarrow>
        v_rows (view w') = v_rows (view w) \<and> v_txn (view w') = v_txn (view w) \<and>
        v_conn (view w') = v_conn (view w) \<and>
        (rc = SQLITE_OK \<longrightarrow> (\<exists>c. h = Some c \<and> v_conn (view w) c) \<longrightarrow>
           (\<exists>c. st = Some c \<and> v_prog (view w') c = Some insert_sql)))"

definition open_laws :: "('w, 'h, 's) store_api \<Rightarrow> ('w \<Rightarrow> ('h, 's) db_view) \<Rightarrow> bool" where
  \<comment> \<open>of the database file, which every connection of the program shares\<close>
  "open_laws = open_laws_in (\<lambda>_. True)"

definition no_connection :: "('h, 's) db_view \<Rightarrow> bool" where
  "no_connection dv \<longleftrightarrow> (\<forall>c. \<not> v_conn dv c)"

definition engine_laws :: "('w, 'h, 's) store_api \<Rightarrow> ('w \<Rightarrow> ('h, 's) db_view) \<Rightarrow> bool" where
  \<comment> \<open>what one engine needs while it is open; it holds of a database in a file, and of the one in memory
      that opening \<open>:memory:\<close> makes when there is none, empty and of this connection only\<close>
  "engine_laws api view \<longleftrightarrow>
     bind_laws api view \<and> step_law api view \<and> txn_laws api view \<and> open_laws_in no_connection api view"

definition close_laws :: "('w, 'h, 's) store_api \<Rightarrow> ('w \<Rightarrow> ('h, 's) db_view) \<Rightarrow> bool" where
  \<comment> \<open>a database in a file: finalizing and closing keep the committed rows (one in memory ceases to
      exist when it is closed); executing on a null connection is a misuse, which fails\<close>
  "close_laws api view \<longleftrightarrow>
     (\<forall>st w. v_rows (view (sq_finalize api st w)) = v_rows (view w)) \<and>
     (\<forall>h w. v_rows (view (sq_close api h w)) = v_rows (view w)) \<and>
     (\<forall>sql w rc err w'. sq_exec api None sql w = (rc, err, w') \<longrightarrow>
        rc \<noteq> SQLITE_OK \<and> view w' = view w)"

definition sqlite_laws :: "('w, 'h, 's) store_api \<Rightarrow> ('w \<Rightarrow> ('h, 's) db_view) \<Rightarrow> bool" where
  "sqlite_laws api view \<longleftrightarrow>
     bind_laws api view \<and> step_law api view \<and> txn_laws api view \<and> open_laws api view \<and>
     close_laws api view"

lemma open_laws_in_mono:
  assumes "open_laws api view"
  shows "open_laws_in C api view"
proof -
  have "\<forall>p w rc h w'. sq_open api p w = (rc, h, w') \<longrightarrow>
      v_rows (view w') = v_rows (view w) \<and> v_txn (view w') = v_txn (view w) \<and>
      (rc = SQLITE_OK \<longrightarrow> (\<exists>c. h = Some c \<and> v_conn (view w') c))"
    using assms unfolding open_laws_def open_laws_in_def simp_thms by (elim conjE)
  then have "\<forall>p w rc h w'. C (view w) \<longrightarrow> sq_open api p w = (rc, h, w') \<longrightarrow>
      v_rows (view w') = v_rows (view w) \<and> v_txn (view w') = v_txn (view w) \<and>
      (rc = SQLITE_OK \<longrightarrow> (\<exists>c. h = Some c \<and> v_conn (view w') c))"
    by blast
  with assms show ?thesis
    unfolding open_laws_def open_laws_in_def simp_thms by (elim conjE) (intro conjI)
qed

lemma sqlite_laws_engine: "sqlite_laws api view \<Longrightarrow> engine_laws api view"
  by (simp only: sqlite_laws_def engine_laws_def open_laws_in_mono simp_thms)

text \<open>
  Nothing is assumed of a call on a null statement: \<^verbatim>\<open>sqlite3_clear_bindings\<close> dereferences its argument.
  The operations never make one by themselves, because the flag is set only beside a live statement; the
  interleaving that does is in \<open>Storage_Threads\<close>.
\<close>

section \<open>Rows and ready engines\<close>

definition telemetry_row ::
  "((string \<times> double) list \<Rightarrow> (string \<times> double) list) \<Rightarrow> telemetry_data \<Rightarrow> row" where
  \<comment> \<open>the row that stands for a frame: the texts up to their first NUL, the numbers as signed 64 bits\<close>
  "telemetry_row order d =
     [SText (c_str (robot_id d)), SText (c_str (sensor_type d)),
      SInt (sint (timestamp_ns d)), SInt (sint (sequence_id d)), SText (c_str (payload_json order d))]"

definition engine_ready ::
  "('w \<Rightarrow> ('h, 's) db_view) \<Rightarrow> ('w, 'h, 's, 'm) storage_scheme \<Rightarrow> bool" where
  "engine_ready view s \<longleftrightarrow>
     init_done s \<and> is_initialized s \<and>
     (\<exists>h st. db s = Some h \<and> insert_stmt s = Some st \<and> v_conn (view (ext s)) h \<and>
             v_prog (view (ext s)) st = Some insert_sql)"

definition stored_rows ::
  "('w \<Rightarrow> ('h, 's) db_view) \<Rightarrow> ('w, 'h, 's, 'm) storage_scheme \<Rightarrow> row list" where
  "stored_rows view s = v_rows (view (ext s))"

definition open_txn ::
  "('w \<Rightarrow> ('h, 's) db_view) \<Rightarrow> ('w, 'h, 's, 'm) storage_scheme \<Rightarrow> row list option" where
  "open_txn view s = v_txn (view (ext s))"

lemmas view_ops = bind_param_def unbind_all_def add_row_def drop_txn_def

lemma add_row_frame [simp]:
  "v_conn (add_row r dv) = v_conn dv" "v_prog (add_row r dv) = v_prog dv"
  by (simp_all add: add_row_def split: option.splits)

lemma drop_txn_fields [simp]:
  "v_conn (drop_txn dv) = v_conn dv" "v_prog (drop_txn dv) = v_prog dv"
  "v_rows (drop_txn dv) = v_rows dv" "v_txn (drop_txn dv) = None"
  by (simp_all add: drop_txn_def)

lemma bind_frame [simp]:
  "v_conn (bind_param st i v dv) = v_conn dv" "v_prog (bind_param st i v dv) = v_prog dv"
  "v_rows (bind_param st i v dv) = v_rows dv" "v_txn (bind_param st i v dv) = v_txn dv"
  "v_conn (unbind_all st dv) = v_conn dv" "v_prog (unbind_all st dv) = v_prog dv"
  "v_rows (unbind_all st dv) = v_rows dv" "v_txn (unbind_all st dv) = v_txn dv"
  by (simp_all add: bind_param_def unbind_all_def)

section \<open>Writing one row\<close>

text \<open>
  \<open>binds_towards st vs a b\<close>: \<open>b\<close> is \<open>a\<close> with some of the parameters \<open>1..5\<close> of \<open>st\<close> bound to
  their values, and everything else unchanged.
\<close>

definition same_but_bindings :: "('h, 's) db_view \<Rightarrow> ('h, 's) db_view \<Rightarrow> bool" where
  "same_but_bindings a b \<longleftrightarrow>
     v_conn b = v_conn a \<and> v_prog b = v_prog a \<and> v_rows b = v_rows a \<and> v_txn b = v_txn a"

lemma same_but_bindings_intros [simp, intro]:
  "same_but_bindings a a"
  "same_but_bindings a (bind_param st i v a)"
  "same_but_bindings a (unbind_all st a)"
  by (simp_all add: same_but_bindings_def)

lemma same_but_bindings_trans:
  "same_but_bindings a b \<Longrightarrow> same_but_bindings b c \<Longrightarrow> same_but_bindings a c"
  by (simp add: same_but_bindings_def)

definition bound_within :: "'s \<Rightarrow> (nat \<rightharpoonup> sql_value) \<Rightarrow> ('h, 's) db_view \<Rightarrow> bool" where
  "bound_within st vs dv \<longleftrightarrow> (\<forall>i v. v_bound dv st i = Some v \<longrightarrow> vs i = Some v)"

lemma bound_within_unbind: "bound_within st vs (unbind_all st dv)"
  by (simp add: bound_within_def unbind_all_def)

lemma bound_within_bind:
  "bound_within st vs dv \<Longrightarrow> vs i = Some v \<Longrightarrow> bound_within st vs (bind_param st i v dv)"
  by (simp add: bound_within_def bind_param_def)

definition bindings_before_step ::
  "('w, 'h, 's) store_api \<Rightarrow> telemetry_data \<Rightarrow> 's option \<Rightarrow> 'w \<Rightarrow> 'w" where
  \<comment> \<open>the world when \<open>write_row\<close> reaches its step\<close>
  "bindings_before_step api d st w =
     sq_bind_text api st 5 (c_str (payload_json (map_order api) d))
      (sq_bind_int64 api st 4 (sint (sequence_id d))
        (sq_bind_int64 api st 3 (sint (timestamp_ns d))
          (sq_bind_text api st 2 (c_str (sensor_type d))
            (sq_bind_text api st 1 (c_str (robot_id d))
              (sq_clear_bindings api st (sq_reset api st w))))))"

lemma write_row_step: "write_row api d st w = sq_step api st (bindings_before_step api d st w)"
  by (simp add: write_row_def bindings_before_step_def Let_def)

definition row_params ::
  "((string \<times> double) list \<Rightarrow> (string \<times> double) list) \<Rightarrow> telemetry_data \<Rightarrow> nat \<rightharpoonup> sql_value" where
  "row_params order d =
     [1 \<mapsto> SText (c_str (robot_id d)), 2 \<mapsto> SText (c_str (sensor_type d)),
      3 \<mapsto> SInt (sint (timestamp_ns d)), 4 \<mapsto> SInt (sint (sequence_id d)),
      5 \<mapsto> SText (c_str (payload_json order d))]"

lemma row_params_row:
  "map (row_params order d) [1, 2, 3, 4, 5] = map Some (telemetry_row order d)"
  by (simp add: row_params_def telemetry_row_def)

lemma bind_step_within:
  assumes "new \<in> {old, bind_param st i v old}"
    and "bound_within st vs old \<and> same_but_bindings a old" "vs i = Some v"
  shows "bound_within st vs new \<and> same_but_bindings a new"
  using assms bound_within_bind same_but_bindings_trans by fastforce

lemma bindings_before_step_within:
  assumes "bind_laws api view"
  shows "bound_within st (row_params (map_order api) d) (view (bindings_before_step api d (Some st) w)) \<and>
         same_but_bindings (view w) (view (bindings_before_step api d (Some st) w))"
proof -
  let ?vs = "row_params (map_order api) d"
  define P where "P u \<longleftrightarrow> bound_within st ?vs (view u) \<and> same_but_bindings (view w) (view u)" for u
  have bind_text: "P (sq_bind_text api (Some st) i t u)" if "P u" "?vs i = Some (SText t)" for i t u
    using assms that unfolding P_def bind_laws_def by (metis (no_types) bind_step_within)
  have bind_int: "P (sq_bind_int64 api (Some st) i n u)" if "P u" "?vs i = Some (SInt n)" for i n u
    using assms that unfolding P_def bind_laws_def by (metis (no_types) bind_step_within)
  have "P (sq_clear_bindings api (Some st) (sq_reset api (Some st) w))"
    using assms by (simp add: P_def bind_laws_def bound_within_unbind)
  then have "P (bindings_before_step api d (Some st) w)"
    unfolding bindings_before_step_def
    by (intro bind_text bind_int) (simp_all add: row_params_def)
  then show ?thesis
    by (simp add: P_def)
qed

text \<open>A step that is done has stored exactly the row of the frame, whatever the bind calls returned.\<close>

lemma write_row_effect:
  assumes laws: "bind_laws api view" "step_law api view"
    and prog: "v_prog (view w) st = Some insert_sql"
    and run: "write_row api d (Some st) w = (rc, w')"
  shows "v_conn (view w') = v_conn (view w) \<and> v_prog (view w') = v_prog (view w) \<and>
         (if rc = SQLITE_DONE
          then v_rows (view w') = v_rows (view w) @
                 (if v_txn (view w) = None then [telemetry_row (map_order api) d] else []) \<and>
               v_txn (view w') =
                 map_option (\<lambda>t. t @ [telemetry_row (map_order api) d]) (v_txn (view w))
          else v_rows (view w') = v_rows (view w) \<and> v_txn (view w') \<in> {v_txn (view w), None})"
proof -
  let ?u = "bindings_before_step api d (Some st) w"
  have within: "bound_within st (row_params (map_order api) d) (view ?u)"
    and same: "same_but_bindings (view w) (view ?u)"
    using bindings_before_step_within [OF laws(1)] by auto
  have stp: "sq_step api (Some st) ?u = (rc, w')"
    using run by (simp add: write_row_step)
  have prog': "v_prog (view ?u) st = Some insert_sql"
    using same prog by (simp add: same_but_bindings_def)
  show ?thesis
  proof (cases "rc = SQLITE_DONE")
    case True
    then obtain r where r: "map (v_bound (view ?u) st) [1, 2, 3, 4, 5] = map Some r"
      and added: "view w' = add_row r (view ?u)"
      using laws(2) prog' stp unfolding step_law_def by metis
    have "map (row_params (map_order api) d) [1, 2, 3, 4, 5] = map Some r"
      using r within by (auto simp: bound_within_def)
    then have "r = telemetry_row (map_order api) d"
      unfolding row_params_row by (rule map_injective [symmetric]) (simp add: inj_def)
    then show ?thesis
      using same added True
      by (auto simp: same_but_bindings_def add_row_def split: option.splits)
  next
    case False
    then have "view w' \<in> {view ?u, drop_txn (view ?u)}"
      using laws(2) prog' stp unfolding step_law_def by metis
    then show ?thesis
      using same False by (auto simp: same_but_bindings_def)
  qed
qed

section \<open>Frames: which members an operation writes\<close>

definition only_world :: "('w, 'h, 's, 'm) storage_scheme \<Rightarrow> ('w, 'h, 's, 'm) storage_scheme \<Rightarrow> bool" where
  \<comment> \<open>the second state is the first after effects on the world and lines in the log\<close>
  "only_world s s' \<longleftrightarrow> (\<exists>w l. s' = s\<lparr>ext := w, logs := l\<rparr>)"

lemma only_world_refl [simp, intro]: "only_world s s"
  unfolding only_world_def by (rule exI [of _ "ext s"], rule exI [of _ "logs s"]) simp

lemma only_world_trans: "only_world a b \<Longrightarrow> only_world b c \<Longrightarrow> only_world a c"
proof -
  assume "only_world a b" "only_world b c"
  then obtain w l where "c = a\<lparr>ext := w, logs := l\<rparr>"
    unfolding only_world_def by auto
  then show "only_world a c"
    unfolding only_world_def by blast
qed

lemma only_world_ext [simp, intro]: "only_world s (s\<lparr>ext := w\<rparr>)"
  unfolding only_world_def by (rule exI [of _ w], rule exI [of _ "logs s"]) simp

lemma only_world_log: "only_world s (log_msg l f a s)"
  unfolding only_world_def log_msg_def by (rule exI [of _ "ext s"]) auto

lemma only_world_then_log: "only_world s a \<Longrightarrow> only_world s (log_msg l f args a)"
  by (rule only_world_trans [OF _ only_world_log])

lemma only_world_log_ext [simp, intro]: "only_world s (log_msg l f a (s\<lparr>ext := w\<rparr>))"
  by (rule only_world_trans [OF only_world_ext only_world_log])

lemma only_world_fields:
  assumes "only_world s s'"
  shows "db_path s' = db_path s" "db s' = db s" "insert_stmt s' = insert_stmt s"
    "init_done s' = init_done s" "is_initialized s' = is_initialized s" "init_failed s' = init_failed s"
    "storage.more s' = storage.more s"
  using assms by (auto simp: only_world_def)

lemma db_log_msg [simp]:
  "db_path (log_msg l f a s) = db_path s" "db (log_msg l f a s) = db s"
  "insert_stmt (log_msg l f a s) = insert_stmt s" "init_done (log_msg l f a s) = init_done s"
  "is_initialized (log_msg l f a s) = is_initialized s" "init_failed (log_msg l f a s) = init_failed s"
  by (simp_all add: log_msg_def)

lemma run_exec_frame: "run_exec api sql s = (rc, err, s') \<Longrightarrow> only_world s s'"
  by (auto simp: run_exec_def split: prod.splits)

lemma insert_section_frame: "insert_section api d s = (ok, s') \<Longrightarrow> only_world s s'"
  by (auto simp: insert_section_def Let_def split: prod.splits if_splits)

lemma insert_all_frame: "insert_all api ds s = (ok, s') \<Longrightarrow> only_world s s'"
proof (induction ds arbitrary: s)
  case Nil
  then show ?case by simp
next
  case (Cons d ds)
  then show ?case
    by (auto simp: Let_def split: prod.splits if_splits
        intro: only_world_trans [OF only_world_ext])
qed

lemma batch_section_frame: "batch_section api ds s = (ok, s') \<Longrightarrow> only_world s s'"
  unfolding batch_section_def Let_def
  by (auto split: prod.splits if_splits dest!: run_exec_frame insert_all_frame
      intro: only_world_then_log only_world_trans)

lemma enable_wal_mode_frame: "enable_wal_mode api s = (ok, s') \<Longrightarrow> only_world s s'"
  unfolding enable_wal_mode_def
  by (auto split: prod.splits if_splits dest!: run_exec_frame intro: only_world_then_log only_world_trans)

lemma create_schema_frame: "create_schema api s = (ok, s') \<Longrightarrow> only_world s s'"
  unfolding create_schema_def
  by (auto split: prod.splits if_splits dest!: run_exec_frame intro: only_world_then_log only_world_trans)

lemma close_internal_fields [simp]:
  "db (close_internal api s) = None" "insert_stmt (close_internal api s) = None"
  "is_initialized (close_internal api s) = False" "init_done (close_internal api s) = init_done s"
  "db_path (close_internal api s) = db_path s" "logs (close_internal api s) = logs s"
  "storage.more (close_internal api s) = storage.more s"
  by (auto simp: close_internal_def Let_def split: option.splits)

lemma close_engine_fields [simp]:
  "db (close_engine api s) = None" "insert_stmt (close_engine api s) = None"
  "is_initialized (close_engine api s) = False" "init_done (close_engine api s) = init_done s"
  "db_path (close_engine api s) = db_path s" "init_failed (close_engine api s) = False"
  "logs (close_engine api s) = logs s" "storage.more (close_engine api s) = storage.more s"
  by (simp_all add: close_engine_def)

section \<open>Inserts and batches on a ready engine\<close>

lemma engine_ready_only_world:
  assumes "engine_ready view s" "only_world s s'"
    "v_conn (view (ext s')) = v_conn (view (ext s))" "v_prog (view (ext s')) = v_prog (view (ext s))"
  shows "engine_ready view s'"
  using assms only_world_fields [OF assms(2)] by (simp add: engine_ready_def)

lemma ensure_initialized_ready: "engine_ready view s \<Longrightarrow> ensure_initialized api s = s"
  by (simp add: engine_ready_def ensure_initialized_def)

lemma insert_telemetry_ready: "engine_ready view s \<Longrightarrow> insert_telemetry api d s = insert_section api d s"
  by (simp add: insert_telemetry_def ensure_initialized_ready) (simp add: engine_ready_def)

lemma insert_batch_ready:
  "engine_ready view s \<Longrightarrow>
   insert_batch api ds s = (if ds = [] then (True, s) else batch_section api ds s)"
  by (simp add: insert_batch_def ensure_initialized_ready) (simp add: engine_ready_def)

lemma write_row_ready:
  assumes laws: "bind_laws api view" "step_law api view" and ready: "engine_ready view s"
    and run: "write_row api d (insert_stmt s) (ext s) = (rc, w')"
  shows "engine_ready view (s\<lparr>ext := w'\<rparr>) \<and>
         (if rc = SQLITE_DONE
          then v_rows (view w') = stored_rows view s @
                 (if open_txn view s = None then [telemetry_row (map_order api) d] else []) \<and>
               v_txn (view w') =
                 map_option (\<lambda>t. t @ [telemetry_row (map_order api) d]) (open_txn view s)
          else v_rows (view w') = stored_rows view s \<and> v_txn (view w') \<in> {open_txn view s, None})"
proof -
  obtain h st where st: "insert_stmt s = Some st" "v_prog (view (ext s)) st = Some insert_sql"
    using ready by (auto simp: engine_ready_def)
  from write_row_effect [OF laws st(2) run [unfolded st(1)]]
  have frame: "v_conn (view w') = v_conn (view (ext s))" "v_prog (view w') = v_prog (view (ext s))"
    and eff: "if rc = SQLITE_DONE
          then v_rows (view w') = v_rows (view (ext s)) @
                 (if v_txn (view (ext s)) = None then [telemetry_row (map_order api) d] else []) \<and>
               v_txn (view w') =
                 map_option (\<lambda>t. t @ [telemetry_row (map_order api) d]) (v_txn (view (ext s)))
          else v_rows (view w') = v_rows (view (ext s)) \<and> v_txn (view w') \<in> {v_txn (view (ext s)), None}"
    by blast+
  have "engine_ready view (s\<lparr>ext := w'\<rparr>)"
    by (rule engine_ready_only_world [OF ready]) (simp_all add: frame)
  with eff show ?thesis
    by (simp only: stored_rows_def open_txn_def)
qed

lemma engine_ready_log [simp]: "engine_ready view (log_msg l f a s) = engine_ready view s"
  by (simp add: engine_ready_def)

lemma stored_rows_log [simp]: "stored_rows view (log_msg l f a s) = stored_rows view s"
  by (simp add: stored_rows_def)

lemma open_txn_log [simp]: "open_txn view (log_msg l f a s) = open_txn view s"
  by (simp add: open_txn_def)

lemma insert_section_effect:
  assumes "engine_laws api view" "engine_ready view s" "insert_section api d s = (ok, s')"
  shows "engine_ready view s' \<and>
         (if ok
          then stored_rows view s' = stored_rows view s @
                 (if open_txn view s = None then [telemetry_row (map_order api) d] else []) \<and>
               open_txn view s' =
                 map_option (\<lambda>t. t @ [telemetry_row (map_order api) d]) (open_txn view s)
          else stored_rows view s' = stored_rows view s \<and> open_txn view s' \<in> {open_txn view s, None})"
proof -
  obtain rc w' where run: "write_row api d (insert_stmt s) (ext s) = (rc, w')"
    by (cases "write_row api d (insert_stmt s) (ext s)")
  have s': "ok = (rc = SQLITE_DONE)" "s' = s\<lparr>ext := w'\<rparr> \<or> (\<exists>l f a. s' = log_msg l f a (s\<lparr>ext := w'\<rparr>))"
    using assms(3) run by (auto simp: insert_section_def Let_def split: if_splits)
  have laws: "bind_laws api view" "step_law api view"
    using assms(1) by (simp_all add: engine_laws_def)
  from write_row_ready [OF laws assms(2) run] s' show ?thesis
    by (auto simp: stored_rows_def open_txn_def)
qed

lemma insert_all_effect:
  assumes "sqlite_laws api view"
  shows "engine_ready view s \<Longrightarrow> open_txn view s = Some t \<Longrightarrow> insert_all api ds s = (ok, s') \<Longrightarrow>
         engine_ready view s' \<and> stored_rows view s' = stored_rows view s \<and>
         (ok \<longrightarrow> open_txn view s' = Some (t @ map (telemetry_row (map_order api)) ds))"
proof (induction ds arbitrary: s t)
  case Nil
  then show ?case by simp
next
  case (Cons d ds)
  obtain rc w' where run: "write_row api d (insert_stmt s) (ext s) = (rc, w')"
    by (cases "write_row api d (insert_stmt s) (ext s)")
  have laws: "bind_laws api view" "step_law api view"
    using assms by (simp_all add: sqlite_laws_def)
  note row = write_row_ready [OF laws Cons.prems(1) run]
  show ?case
  proof (cases "rc = SQLITE_DONE")
    case True
    then have rest: "insert_all api ds (s\<lparr>ext := w'\<rparr>) = (ok, s')"
      using Cons.prems(3) run by simp
    have "open_txn view (s\<lparr>ext := w'\<rparr>) = Some (t @ [telemetry_row (map_order api) d])"
      "stored_rows view (s\<lparr>ext := w'\<rparr>) = stored_rows view s"
      using row True Cons.prems(2) by (simp_all add: open_txn_def stored_rows_def)
    with Cons.IH [OF conjunct1 [OF row] _ rest] show ?thesis by simp
  next
    case False
    then have "\<not> ok \<and> (\<exists>l f a. s' = log_msg l f a (s\<lparr>ext := w'\<rparr>))"
      using Cons.prems(3) run by auto
    then show ?thesis
      using row False by (auto simp: stored_rows_def)
  qed
qed

section \<open>Transactions\<close>

lemma run_exec_txn:
  assumes "txn_laws api view" "engine_ready view s" "run_exec api sql s = (rc, err, s')"
  shows "sql = ''BEGIN TRANSACTION;'' \<Longrightarrow>
           (if rc = SQLITE_OK
            then open_txn view s = None \<and> view (ext s') = (view (ext s))\<lparr>v_txn := Some []\<rparr>
            else view (ext s') = view (ext s))"
    and "sql = ''COMMIT;'' \<Longrightarrow>
           (if rc = SQLITE_OK
            then \<exists>t. open_txn view s = Some t \<and>
                     view (ext s') = (view (ext s))\<lparr>v_rows := stored_rows view s @ t, v_txn := None\<rparr>
            else view (ext s') \<in> {view (ext s), drop_txn (view (ext s))})"
    and "sql = ''ROLLBACK;'' \<Longrightarrow> view (ext s') \<in> {view (ext s), drop_txn (view (ext s))}"
proof -
  obtain h where h: "db s = Some h" "v_conn (view (ext s)) h"
    using assms(2) by (auto simp: engine_ready_def)
  obtain w' where run: "sq_exec api (Some h) sql (ext s) = (rc, err, w')" "s' = s\<lparr>ext := w'\<rparr>"
    using assms(3) h by (auto simp: run_exec_def split: prod.splits)
  note laws = assms(1) [unfolded txn_laws_def, THEN spec [of _ h], THEN spec [of _ "ext s"],
      THEN spec [of _ rc], THEN spec [of _ err], THEN spec [of _ w'], THEN mp, OF h(2)]
  show "sql = ''BEGIN TRANSACTION;'' \<Longrightarrow>
           (if rc = SQLITE_OK
            then open_txn view s = None \<and> view (ext s') = (view (ext s))\<lparr>v_txn := Some []\<rparr>
            else view (ext s') = view (ext s))"
    using laws run by (simp add: open_txn_def)
  show "sql = ''COMMIT;'' \<Longrightarrow>
           (if rc = SQLITE_OK
            then \<exists>t. open_txn view s = Some t \<and>
                     view (ext s') = (view (ext s))\<lparr>v_rows := stored_rows view s @ t, v_txn := None\<rparr>
            else view (ext s') \<in> {view (ext s), drop_txn (view (ext s))})"
    using laws run by (cases "rc = SQLITE_OK") (simp_all add: open_txn_def stored_rows_def)
  show "sql = ''ROLLBACK;'' \<Longrightarrow> view (ext s') \<in> {view (ext s), drop_txn (view (ext s))}"
    using laws run by simp
qed

lemma run_exec_ready:
  assumes "run_exec api sql s = (rc, err, s')" "engine_ready view s"
    and "v_conn (view (ext s')) = v_conn (view (ext s))" "v_prog (view (ext s')) = v_prog (view (ext s))"
  shows "engine_ready view s'"
  using engine_ready_only_world assms run_exec_frame by blast

lemma begin_effect:
  assumes "txn_laws api view" "engine_ready view s"
    and "run_exec api ''BEGIN TRANSACTION;'' s = (rc, err, s')"
  shows "engine_ready view s' \<and> stored_rows view s' = stored_rows view s \<and>
         (if rc = SQLITE_OK then open_txn view s = None \<and> open_txn view s' = Some []
          else open_txn view s' = open_txn view s)"
proof -
  note eff = run_exec_txn(1) [OF assms refl]
  have "engine_ready view s'"
    by (rule run_exec_ready [OF assms(3,2)]) (use eff in \<open>auto split: if_splits\<close>)
  with eff show ?thesis
    by (auto simp: open_txn_def stored_rows_def split: if_splits)
qed

lemma commit_effect:
  assumes "txn_laws api view" "engine_ready view s"
    and "run_exec api ''COMMIT;'' s = (rc, err, s')"
  shows "engine_ready view s' \<and>
         (if rc = SQLITE_OK
          then \<exists>t. open_txn view s = Some t \<and> stored_rows view s' = stored_rows view s @ t \<and>
                   open_txn view s' = None
          else stored_rows view s' = stored_rows view s \<and> open_txn view s' \<in> {open_txn view s, None})"
proof -
  note eff = run_exec_txn(2) [OF assms refl]
  have "engine_ready view s'"
    by (rule run_exec_ready [OF assms(3,2)]) (use eff in \<open>auto split: if_splits\<close>)
  with eff show ?thesis
    by (auto simp: open_txn_def stored_rows_def split: if_splits)
qed

lemma rollback_effect:
  assumes "txn_laws api view" "engine_ready view s"
    and "run_exec api ''ROLLBACK;'' s = (rc, err, s')"
  shows "engine_ready view s' \<and> stored_rows view s' = stored_rows view s"
proof -
  note eff = run_exec_txn(3) [OF assms refl]
  have "engine_ready view s'"
    by (rule run_exec_ready [OF assms(3,2)]) (use eff in auto)
  with eff show ?thesis
    by (auto simp: stored_rows_def)
qed

text \<open>The batch: all of it, or none of it.\<close>

lemma batch_section_effect:
  assumes laws: "sqlite_laws api view" and ready: "engine_ready view s"
    and run: "batch_section api ds s = (ok, s')"
  shows "engine_ready view s' \<and>
         (if ok
          then open_txn view s = None \<and> open_txn view s' = None \<and>
               stored_rows view s' = stored_rows view s @ map (telemetry_row (map_order api)) ds
          else stored_rows view s' = stored_rows view s)"
proof -
  have txn: "txn_laws api view"
    using laws by (simp add: sqlite_laws_def)
  obtain rc err s1 where b: "run_exec api ''BEGIN TRANSACTION;'' s = (rc, err, s1)"
    by (cases "run_exec api ''BEGIN TRANSACTION;'' s")
  note b_eff = begin_effect [OF txn ready b]
  show ?thesis
  proof (cases "rc = SQLITE_OK")
    case False
    then have "\<not> ok" "\<exists>l f a. s' = log_msg l f a s1"
      using run b by (auto simp: batch_section_def)
    then show ?thesis using b_eff by auto
  next
    case True
    obtain success s2 where a: "insert_all api ds s1 = (success, s2)"
      by (cases "insert_all api ds s1")
    have a_eff: "engine_ready view s2" "stored_rows view s2 = stored_rows view s"
      "success \<longrightarrow> open_txn view s2 = Some (map (telemetry_row (map_order api)) ds)"
      using insert_all_effect [OF laws _ _ a, of "[]"] b_eff True by auto
    show ?thesis
    proof (cases success)
      case False
      obtain rc2 err2 s3 where r: "run_exec api ''ROLLBACK;'' s2 = (rc2, err2, s3)"
        by (cases "run_exec api ''ROLLBACK;'' s2")
      then have "\<not> ok" "s' = s3"
        using run b a True False by (auto simp: batch_section_def)
      then show ?thesis
        using rollback_effect [OF txn a_eff(1) r] a_eff(2) by simp
    next
      case ok: True
      obtain rc2 err2 s3 where c: "run_exec api ''COMMIT;'' s2 = (rc2, err2, s3)"
        by (cases "run_exec api ''COMMIT;'' s2")
      then have "ok = (rc2 = SQLITE_OK)" "s' = s3 \<or> (\<exists>l f a. s' = log_msg l f a s3)"
        using run b a True ok by (auto simp: batch_section_def split: if_splits)
      then show ?thesis
        using commit_effect [OF txn a_eff(1) c] a_eff(2,3) ok b_eff True by auto
    qed
  qed
qed

lemma batch_section_in_txn:
  assumes "sqlite_laws api view" "engine_ready view s" "open_txn view s \<noteq> None"
    and "batch_section api ds s = (ok, s')"
  shows "\<not> ok \<and> open_txn view s' = open_txn view s \<and> stored_rows view s' = stored_rows view s"
proof -
  have txn: "txn_laws api view"
    using assms(1) by (simp add: sqlite_laws_def)
  obtain rc err s1 where b: "run_exec api ''BEGIN TRANSACTION;'' s = (rc, err, s1)"
    by (cases "run_exec api ''BEGIN TRANSACTION;'' s")
  note b_eff = begin_effect [OF txn assms(2) b]
  with assms(3) have "rc \<noteq> SQLITE_OK" by auto
  then have "\<not> ok" "\<exists>l f a. s' = log_msg l f a s1"
    using assms(4) b by (auto simp: batch_section_def)
  then show ?thesis
    using b_eff \<open>rc \<noteq> SQLITE_OK\<close> by auto
qed

section \<open>Initialisation and closing\<close>

lemma setup_exec_effect:
  assumes "open_laws_in C api view"
    and "sql \<in> {''PRAGMA journal_mode=WAL;'', ''PRAGMA synchronous=NORMAL;'', schema_sql}"
    and "run_exec api sql s = (rc, err, s')"
  shows "view (ext s') = view (ext s)"
  using assms unfolding open_laws_in_def run_exec_def by (fastforce split: prod.splits)

lemma enable_wal_mode_effect:
  assumes "open_laws_in C api view" "enable_wal_mode api s = (ok, s')"
  shows "view (ext s') = view (ext s)"
proof -
  obtain rc err s1 where r1: "run_exec api ''PRAGMA journal_mode=WAL;'' s = (rc, err, s1)"
    by (cases "run_exec api ''PRAGMA journal_mode=WAL;'' s")
  obtain rc2 err2 s2 where r2: "run_exec api ''PRAGMA synchronous=NORMAL;'' s1 = (rc2, err2, s2)"
    by (cases "run_exec api ''PRAGMA synchronous=NORMAL;'' s1")
  show ?thesis
    using assms(2) r1 r2 setup_exec_effect [OF assms(1) _ r1] setup_exec_effect [OF assms(1) _ r2]
    by (auto simp: enable_wal_mode_def split: if_splits)
qed

lemma create_schema_effect:
  assumes "open_laws_in C api view" "create_schema api s = (ok, s')"
  shows "view (ext s') = view (ext s)"
proof -
  obtain rc err s1 where r: "run_exec api schema_sql s = (rc, err, s1)"
    by (cases "run_exec api schema_sql s")
  show ?thesis
    using assms(2) r setup_exec_effect [OF assms(1) _ r]
    by (auto simp: create_schema_def split: if_splits)
qed

lemma open_database_effect:
  assumes "open_laws_in C api view" "C (view (ext s))" "open_database api s = (rc, s')"
  shows "stored_rows view s' = stored_rows view s \<and> open_txn view s' = open_txn view s \<and>
         is_initialized s' = is_initialized s \<and>
         (rc = SQLITE_OK \<longrightarrow> (\<exists>h. db s' = Some h \<and> v_conn (view (ext s')) h))"
proof -
  define s1 where "s1 = (if parent_path (db_path s) \<noteq> []
    then s\<lparr>ext := create_directories api (parent_path (db_path s)) (ext s)\<rparr> else s)"
  have s1: "view (ext s1) = view (ext s)" "is_initialized s1 = is_initialized s" "db_path s1 = db_path s"
    using assms(1) by (simp_all add: s1_def open_laws_in_def)
  obtain h w where o: "sq_open api (c_str (db_path s)) (ext s1) = (rc, h, w)" "s' = s1\<lparr>db := h, ext := w\<rparr>"
    using assms(3) s1(3) by (auto simp: open_database_def Let_def s1_def split: prod.splits if_splits)
  have "\<forall>p w rc h w'. C (view w) \<longrightarrow> sq_open api p w = (rc, h, w') \<longrightarrow>
      v_rows (view w') = v_rows (view w) \<and> v_txn (view w') = v_txn (view w) \<and>
      (rc = SQLITE_OK \<longrightarrow> (\<exists>c. h = Some c \<and> v_conn (view w') c))"
    using assms(1) unfolding open_laws_in_def by (elim conjE)
  from this [rule_format, OF _ o(1)] show ?thesis
    using assms(2) s1 o(2) by (simp add: stored_rows_def open_txn_def)
qed

lemma prepare_insert_effect:
  assumes "open_laws_in C api view" "prepare_insert api s = (rc, s')"
  shows "stored_rows view s' = stored_rows view s \<and> open_txn view s' = open_txn view s \<and>
         is_initialized s' = is_initialized s \<and> db s' = db s \<and>
         v_conn (view (ext s')) = v_conn (view (ext s)) \<and>
         (rc = SQLITE_OK \<longrightarrow> (\<exists>h. db s = Some h \<and> v_conn (view (ext s)) h) \<longrightarrow>
           (\<exists>st. insert_stmt s' = Some st \<and> v_prog (view (ext s')) st = Some insert_sql))"
proof -
  obtain st w where p: "sq_prepare api (db s) insert_sql (ext s) = (rc, st, w)"
      "s' = s\<lparr>insert_stmt := st, ext := w\<rparr>"
    using assms(2) by (auto simp: prepare_insert_def split: prod.splits)
  then show ?thesis
    using assms(1) unfolding open_laws_in_def stored_rows_def open_txn_def by fastforce
qed

lemma close_internal_rows:
  assumes "close_laws api view"
  shows "stored_rows view (close_internal api s) = stored_rows view s"
  using assms
  by (auto simp: close_internal_def close_laws_def stored_rows_def Let_def split: option.splits)

lemma init_failure_effect:
  assumes "close_laws api view" "init_failure api s = (ok, s')"
  shows "\<not> ok \<and> stored_rows view s' = stored_rows view s \<and> \<not> is_initialized s' \<and>
         db s' = None \<and> insert_stmt s' = None"
  using assms close_internal_rows [OF assms(1), of "s\<lparr>init_failed := True\<rparr>"]
  by (auto simp: init_failure_def stored_rows_def)

end
