(* ===== verification/Storage_Contract.thy ===== *)
theory Storage_Contract
  imports Storage_Refinement
begin

text \<open>
  What the callers of the storage engine rely on: the one-time initialisation, the life of an engine
  that has been closed or never came up, and the contract of an append-only store with batches, as
  locales interpreted on the engine.
\<close>

section \<open>The one-time initialisation\<close>

lemma init_internal_flag:
  "\<not> is_initialized s \<Longrightarrow> init_internal api s = (ok, s') \<Longrightarrow> is_initialized s' = ok"
  by (auto simp: init_internal_def init_failure_def Let_def split: prod.splits if_splits)

text \<open>An initialisation that succeeds, on a database in a file or in memory.\<close>

lemma init_internal_success:
  assumes open_l: "open_laws_in C api view" and ready: "C (view (ext s))"
    and fresh: "\<not> is_initialized s"
    and run: "init_internal api s = (True, s')"
  shows "stored_rows view s' = stored_rows view s \<and> is_initialized s' \<and>
         open_txn view s' = open_txn view s \<and>
         (\<exists>h st. db s' = Some h \<and> insert_stmt s' = Some st \<and> v_conn (view (ext s')) h \<and>
                 v_prog (view (ext s')) st = Some insert_sql)"
proof -
  let ?s0 = "s\<lparr>init_failed := False\<rparr>"
  obtain rc s1 where o: "open_database api ?s0 = (rc, s1)" by (cases "open_database api ?s0")
  obtain w_ok s2 where w: "enable_wal_mode api s1 = (w_ok, s2)" by (cases "enable_wal_mode api s1")
  obtain c_ok s3 where c: "create_schema api s2 = (c_ok, s3)" by (cases "create_schema api s2")
  obtain rc2 s4 where p: "prepare_insert api s3 = (rc2, s4)" by (cases "prepare_insert api s3")
  have "C (view (ext ?s0))"
    using ready by simp
  note o_eff = open_database_effect [OF open_l this o]
  note w_eff = enable_wal_mode_effect [OF open_l w] only_world_fields [OF enable_wal_mode_frame [OF w]]
  note c_eff = create_schema_effect [OF open_l c] only_world_fields [OF create_schema_frame [OF c]]
  note p_eff = prepare_insert_effect [OF open_l p]
  have ok: "rc = SQLITE_OK \<and> w_ok \<and> c_ok \<and> rc2 = SQLITE_OK"
    "\<exists>l f a. s' = log_msg l f a (s4\<lparr>is_initialized := True\<rparr>)"
    using run fresh o w c p by (auto simp: init_internal_def init_failure_def split: if_splits)
  have "\<exists>h st. db s4 = Some h \<and> insert_stmt s4 = Some st \<and> v_conn (view (ext s4)) h \<and>
      v_prog (view (ext s4)) st = Some insert_sql"
    using ok(1) o_eff w_eff c_eff p_eff by auto
  moreover have "open_txn view s4 = open_txn view s" "stored_rows view s4 = stored_rows view s"
    using o_eff w_eff(1) c_eff(1) p_eff by (simp_all add: open_txn_def stored_rows_def)
  ultimately show ?thesis
    using ok(2) by (auto simp: stored_rows_def open_txn_def)
qed

lemma init_engine_success:
  assumes "open_laws_in C api view" "C (view (ext s))" and "\<not> is_initialized s" "\<not> init_done s"
    and "init_engine api s = (True, s')"
  shows "engine_ready view s' \<and> stored_rows view s' = stored_rows view s \<and>
         open_txn view s' = open_txn view s"
proof -
  obtain s1 where "init_internal api s = (True, s1)" "s' = s1\<lparr>init_done := True\<rparr>"
    using assms(4,5) init_internal_flag [OF assms(3)]
    by (cases "init_internal api s") (fastforce simp: init_engine_def ensure_initialized_def Let_def)
  with init_internal_success [OF assms(1-3)] show ?thesis
    by (auto simp: engine_ready_def stored_rows_def open_txn_def)
qed

lemma init_internal_effect:
  assumes laws: "sqlite_laws api view" and fresh: "\<not> is_initialized s"
    and run: "init_internal api s = (ok, s')"
  shows "stored_rows view s' = stored_rows view s \<and> is_initialized s' = ok \<and>
         (ok \<longrightarrow> open_txn view s' = open_txn view s \<and>
                (\<exists>h st. db s' = Some h \<and> insert_stmt s' = Some st \<and> v_conn (view (ext s')) h \<and>
                        v_prog (view (ext s')) st = Some insert_sql)) \<and>
         (\<not> ok \<longrightarrow> db s' = None \<and> insert_stmt s' = None)"
proof -
  have open_l: "open_laws_in (\<lambda>_. True) api view" and close_l: "close_laws api view"
    using laws by (simp_all add: sqlite_laws_def open_laws_def)
  let ?s0 = "s\<lparr>init_failed := False\<rparr>"
  obtain rc s1 where o: "open_database api ?s0 = (rc, s1)" by (cases "open_database api ?s0")
  obtain w_ok s2 where w: "enable_wal_mode api s1 = (w_ok, s2)" by (cases "enable_wal_mode api s1")
  obtain c_ok s3 where c: "create_schema api s2 = (c_ok, s3)" by (cases "create_schema api s2")
  obtain rc2 s4 where p: "prepare_insert api s3 = (rc2, s4)" by (cases "prepare_insert api s3")
  have "stored_rows view ?s0 = stored_rows view s"
    by (simp add: stored_rows_def)
  then have rows: "stored_rows view s1 = stored_rows view s" "stored_rows view s2 = stored_rows view s"
      "stored_rows view s3 = stored_rows view s" "stored_rows view s4 = stored_rows view s"
    using open_database_effect [OF open_l TrueI o] enable_wal_mode_effect [OF open_l w]
      create_schema_effect [OF open_l c] prepare_insert_effect [OF open_l p]
    by (simp_all add: stored_rows_def)
  have failed: ?thesis if "init_failure api t = (ok, s')" "stored_rows view t = stored_rows view s" for t
    using init_failure_effect [OF close_l that(1)] that(2) by simp
  show ?thesis
  proof (cases ok)
    case True
    then show ?thesis
      using init_internal_success [OF open_l TrueI fresh] run by simp
  next
    case False
    then consider "init_failure api s2 = (ok, s')" | "init_failure api s3 = (ok, s')"
      | l f a where "init_failure api (log_msg l f a s1) = (ok, s')"
      | l f a where "init_failure api (log_msg l f a s4) = (ok, s')"
      using run fresh o w c p by (auto simp: init_internal_def split: if_splits)
    then show ?thesis
      by cases (erule failed, simp add: rows)+
  qed
qed

lemma init_engine_effect:
  assumes laws: "sqlite_laws api view" and fresh: "\<not> is_initialized s" "\<not> init_done s"
    and run: "init_engine api s = (ok, s')"
  shows "stored_rows view s' = stored_rows view s \<and> init_done s' \<and> is_initialized s' = ok \<and>
         (ok \<longrightarrow> engine_ready view s' \<and> open_txn view s' = open_txn view s) \<and>
         (\<not> ok \<longrightarrow> db s' = None \<and> insert_stmt s' = None)"
proof -
  obtain ok1 s1 where i: "init_internal api s = (ok1, s1)" by (cases "init_internal api s")
  have s': "s' = s1\<lparr>init_done := True\<rparr>" "ok = is_initialized s1"
    using run fresh i by (auto simp: init_engine_def ensure_initialized_def Let_def)
  show ?thesis
    using init_internal_effect [OF laws fresh(1) i] s'
    by (auto simp: engine_ready_def stored_rows_def open_txn_def)
qed

section \<open>An engine that is closed or never came up\<close>

definition engine_dead :: "('w, 'h, 's, 'm) storage_scheme \<Rightarrow> bool" where
  \<comment> \<open>the once-flag is spent and the engine is not initialised\<close>
  "engine_dead s \<longleftrightarrow> init_done s \<and> \<not> is_initialized s"

lemma ensure_initialized_done [simp]: "init_done (ensure_initialized api s)"
  by (simp add: ensure_initialized_def)

lemma ensure_initialized_dead: "engine_dead s \<Longrightarrow> ensure_initialized api s = s"
  by (simp add: engine_dead_def ensure_initialized_def)

lemma close_engine_dead: "init_done s \<Longrightarrow> engine_dead (close_engine api s)"
  by (simp add: engine_dead_def)

lemma engine_dead_log [simp]: "engine_dead (log_msg l f a s) = engine_dead s"
  by (simp add: engine_dead_def)

lemma dead_operations:
  assumes "engine_dead s"
  shows "init_engine api s = (False, s)"
    and "insert_telemetry api d s = (False, log_msg Error
           ''StorageEngine: Cannot insert telemetry; database connection initialization failed.'' [] s)"
    and "insert_batch api ds s = (False, log_msg Error
           ''StorageEngine: Cannot insert batch; database connection initialization failed.'' [] s)"
    and "purge_older_than api t s = (False, log_msg Error
           ''StorageEngine: Cannot purge data; database connection initialization failed.'' [] s)"
    and "query_telemetry api r n s = ([], log_msg Error
           ''StorageEngine: Cannot query telemetry; database connection initialization failed.'' [] s)"
  using ensure_initialized_dead [OF assms] assms
  by (simp_all add: engine_dead_def init_engine_def insert_telemetry_def insert_batch_def
      purge_older_than_def query_telemetry_def)

text \<open>The public operations as commands, for statements about histories.\<close>

datatype store_cmd =
    Cmd_Init
  | Cmd_Insert telemetry_data
  | Cmd_Batch "telemetry_data list"
  | Cmd_Query string u64
  | Cmd_Purge u64
  | Cmd_Close

fun store_cmd_run ::
  "('w, 'h, 's) store_api \<Rightarrow> store_cmd \<Rightarrow> ('w, 'h, 's, 'm) storage_scheme \<Rightarrow>
   bool \<times> ('w, 'h, 's, 'm) storage_scheme" where
  \<comment> \<open>whether the operation reports success (for a query: whether it returns anything)\<close>
  "store_cmd_run api Cmd_Init s = init_engine api s"
| "store_cmd_run api (Cmd_Insert d) s = insert_telemetry api d s"
| "store_cmd_run api (Cmd_Batch ds) s = insert_batch api ds s"
| "store_cmd_run api (Cmd_Query r n) s =
     (case query_telemetry api r n s of (rs, s') \<Rightarrow> (rs \<noteq> [], s'))"
| "store_cmd_run api (Cmd_Purge t) s = purge_older_than api t s"
| "store_cmd_run api Cmd_Close s = (False, close_engine api s)"

fun store_history ::
  "('w, 'h, 's) store_api \<Rightarrow> store_cmd list \<Rightarrow> ('w, 'h, 's, 'm) storage_scheme \<Rightarrow>
   bool list \<times> ('w, 'h, 's, 'm) storage_scheme" where
  "store_history api [] s = ([], s)"
| "store_history api (c # cs) s =
     (let (ok, s) = store_cmd_run api c s; (oks, s) = store_history api cs s in (ok # oks, s))"

definition handles_released :: "('w, 'h, 's, 'm) storage_scheme \<Rightarrow> bool" where
  "handles_released s \<longleftrightarrow> db s = None \<and> insert_stmt s = None"

lemma init_internal_failed:
  assumes "\<not> is_initialized s" and "init_internal api s = (False, s')"
  shows "\<not> is_initialized s' \<and> handles_released s'"
proof -
  have "init_failure api t = (ok, s') \<Longrightarrow> handles_released s'" for t ok
    by (auto simp: init_failure_def handles_released_def)
  then show ?thesis
    using assms init_internal_flag [OF assms] by (auto simp: init_internal_def split: prod.splits if_splits)
qed

lemma init_engine_failed:
  assumes "\<not> is_initialized s" "\<not> init_done s" and "init_engine api s = (False, s')"
  shows "engine_dead s' \<and> handles_released s'"
proof -
  obtain s1 where "init_internal api s = (False, s1)" "s' = s1\<lparr>init_done := True\<rparr>"
    using assms init_internal_flag [OF assms(1)]
    by (cases "init_internal api s") (fastforce simp: init_engine_def ensure_initialized_def Let_def)
  with init_internal_failed [OF assms(1)] show ?thesis
    by (auto simp: engine_dead_def handles_released_def)
qed

lemma close_engine_released:
  "handles_released s \<Longrightarrow> ext (close_engine api s) = ext s"
  by (simp add: handles_released_def close_engine_def close_internal_def)

lemma dead_cmd:
  assumes "engine_dead s" "handles_released s" "store_cmd_run api c s = (ok, s')"
  shows "\<not> ok \<and> engine_dead s' \<and> handles_released s' \<and> ext s' = ext s"
  using assms dead_operations [OF assms(1)] close_engine_released [OF assms(2)]
  by (cases c) (auto simp: engine_dead_def handles_released_def)

lemma dead_history:
  "engine_dead s \<Longrightarrow> handles_released s \<Longrightarrow> store_history api cs s = (oks, s') \<Longrightarrow>
   \<not> list_ex id oks \<and> engine_dead s' \<and> ext s' = ext s"
proof (induction cs arbitrary: s oks s')
  case Nil
  then show ?case by simp
next
  case (Cons c cs)
  obtain ok s1 where c: "store_cmd_run api c s = (ok, s1)" by (cases "store_cmd_run api c s")
  obtain oks' s2 where cs: "store_history api cs s1 = (oks', s2)" by (cases "store_history api cs s1")
  note step = dead_cmd [OF Cons.prems(1,2) c]
  have "oks = ok # oks'" "s' = s2"
    using Cons.prems(3) c cs by auto
  then show ?case
    using Cons.IH [OF _ _ cs] step by auto
qed

section \<open>The contract of an append-only store\<close>

fun store_run :: "('d \<Rightarrow> 'e \<Rightarrow> bool \<times> 'e) \<Rightarrow> 'd list \<Rightarrow> 'e \<Rightarrow> bool list \<times> 'e" where
  \<comment> \<open>one insert after the other, with their results\<close>
  "store_run put [] s = ([], s)"
| "store_run put (d # ds) s =
     (let (ok, s) = put d s; (oks, s) = store_run put ds s in (ok # oks, s))"

locale telemetry_store =
  fixes inv :: "'e \<Rightarrow> bool"
    and rows :: "'e \<Rightarrow> 'r list"
    and row_of :: "'d \<Rightarrow> 'r"
    and put :: "'d \<Rightarrow> 'e \<Rightarrow> bool \<times> 'e"
  assumes insert_inv: "inv s \<Longrightarrow> put d s = (ok, s') \<Longrightarrow> inv s'"
    and insert_rows:
      "inv s \<Longrightarrow> put d s = (ok, s') \<Longrightarrow> rows s' = rows s @ (if ok then [row_of d] else [])"
begin

text \<open>After any sequence of inserts the store holds the rows of exactly the accepted frames, in order.\<close>

lemma run_rows:
  "inv s \<Longrightarrow> store_run put ds s = (oks, s') \<Longrightarrow>
   inv s' \<and> length oks = length ds \<and>
   rows s' = rows s @ map (row_of \<circ> fst) (filter snd (zip ds oks))"
proof (induction ds arbitrary: s oks s')
  case Nil
  then show ?case by simp
next
  case (Cons d ds)
  obtain ok s1 where i: "put d s = (ok, s1)" by (cases "put d s")
  obtain oks' s2 where r: "store_run put ds s1 = (oks', s2)" by (cases "store_run put ds s1")
  have "oks = ok # oks'" "s' = s2"
    using Cons.prems(2) i r by auto
  then show ?case
    using Cons.IH [OF insert_inv [OF Cons.prems(1) i] r] insert_rows [OF Cons.prems(1) i] by simp
qed

lemma run_prefix:
  assumes "inv s" "store_run put ds s = (oks, s')"
  shows "\<exists>new. rows s' = rows s @ new \<and> length new = length (filter id oks)"
proof -
  have len: "length ds = length oks"
    and eq: "rows s' = rows s @ map (row_of \<circ> fst) (filter snd (zip ds oks))"
    using run_rows [OF assms] by simp_all
  have "length (filter snd (zip ds oks)) = length (filter id oks)"
    using len by (induction ds oks rule: list_induct2) auto
  with eq show ?thesis by auto
qed

end

locale batch_store = telemetry_store inv rows row_of put
  for inv :: "'e \<Rightarrow> bool" and rows :: "'e \<Rightarrow> 'r list" and row_of :: "'d \<Rightarrow> 'r"
    and put :: "'d \<Rightarrow> 'e \<Rightarrow> bool \<times> 'e" +
  fixes batch :: "'d list \<Rightarrow> 'e \<Rightarrow> bool \<times> 'e"
  assumes batch_all: "inv s \<Longrightarrow> batch ds s = (True, s') \<Longrightarrow> inv s' \<and> rows s' = rows s @ map row_of ds"
    and batch_none: "inv s \<Longrightarrow> batch ds s = (False, s') \<Longrightarrow> rows s' = rows s"
begin

lemma batch_atomic:
  "inv s \<Longrightarrow> batch ds s = (ok, s') \<Longrightarrow> rows s' = rows s @ (if ok then map row_of ds else [])"
  using batch_all batch_none by (cases ok) auto

text \<open>A batch that is accepted stores what accepting its frames one by one stores.\<close>

lemma batch_as_inserts:
  assumes "inv s" "batch ds s = (True, s1)" "store_run put ds s = (oks, s2)" "list_all id oks"
  shows "rows s1 = rows s2"
proof -
  have len: "length ds = length oks"
    and eq: "rows s2 = rows s @ map (row_of \<circ> fst) (filter snd (zip ds oks))"
    using run_rows [OF assms(1,3)] by simp_all
  have "map (row_of \<circ> fst) (filter snd (zip ds oks)) = map row_of ds"
    using len assms(4) by (induction ds oks rule: list_induct2) auto
  with eq show ?thesis
    using batch_all [OF assms(1,2)] by simp
qed

end

definition store_inv ::
  "('w, 'h, 's) store_api \<Rightarrow> ('w \<Rightarrow> ('h, 's) db_view) \<Rightarrow> ('w, 'h, 's, 'm) storage_scheme \<Rightarrow> bool" where
  \<comment> \<open>SQLite keeps its laws, the engine is ready, and no transaction is left open\<close>
  "store_inv api view s \<longleftrightarrow> sqlite_laws api view \<and> engine_ready view s \<and> open_txn view s = None"

lemma store_inv_log [simp]: "store_inv api view (log_msg l f a s) = store_inv api view s"
  by (simp add: store_inv_def)

text \<open>The single inserts need no law of closing, so the contract holds of a database in memory, too.\<close>

definition live_inv ::
  "('w, 'h, 's) store_api \<Rightarrow> ('w \<Rightarrow> ('h, 's) db_view) \<Rightarrow> ('w, 'h, 's, 'm) storage_scheme \<Rightarrow> bool" where
  "live_inv api view s \<longleftrightarrow> engine_laws api view \<and> engine_ready view s \<and> open_txn view s = None"

interpretation live_store: telemetry_store "live_inv api view" "stored_rows view"
  "telemetry_row (map_order api)" "insert_telemetry api"
  for api :: "('w, 'h, 's) store_api" and view
proof unfold_locales
  fix s :: "('w, 'h, 's, 'm) storage_scheme" and d ok s'
  assume inv: "live_inv api view s" and run: "insert_telemetry api d s = (ok, s')"
  have ready: "engine_laws api view" "engine_ready view s"
    using inv by (simp_all add: live_inv_def)
  have "insert_section api d s = (ok, s')"
    using run insert_telemetry_ready [OF ready(2)] by simp
  note eff = insert_section_effect [OF ready this]
  show "live_inv api view s'"
    using inv eff by (auto simp: live_inv_def split: if_splits)
  show "stored_rows view s' = stored_rows view s @ (if ok then [telemetry_row (map_order api) d] else [])"
    using inv eff by (auto simp: live_inv_def)
qed

lemma store_inv_iff: "store_inv api view s \<longleftrightarrow> sqlite_laws api view \<and> live_inv api view s"
  by (auto simp: store_inv_def live_inv_def sqlite_laws_engine)

interpretation store: batch_store "store_inv api view" "stored_rows view"
  "telemetry_row (map_order api)" "insert_telemetry api" "insert_batch api"
  for api :: "('w, 'h, 's) store_api" and view
proof unfold_locales
  fix s :: "('w, 'h, 's, 'm) storage_scheme" and d ok s'
  assume inv: "store_inv api view s" and run: "insert_telemetry api d s = (ok, s')"
  then have live: "live_inv api view s"
    by (simp add: store_inv_iff)
  show "store_inv api view s'"
    using inv live_store.insert_inv [OF live run] by (simp add: store_inv_iff)
  show "stored_rows view s' = stored_rows view s @ (if ok then [telemetry_row (map_order api) d] else [])"
    by (rule live_store.insert_rows [OF live run])
next
  fix s :: "('w, 'h, 's, 'm) storage_scheme" and ds s'
  assume inv: "store_inv api view s" and run: "insert_batch api ds s = (True, s')"
  show "store_inv api view s' \<and> stored_rows view s' = stored_rows view s @ map (telemetry_row (map_order api)) ds"
  proof (cases "ds = []")
    case True
    then show ?thesis
      using inv run insert_batch_ready [of view s api ds] by (auto simp: store_inv_def)
  next
    case False
    then have "batch_section api ds s = (True, s')"
      using inv run insert_batch_ready [of view s api ds] by (simp add: store_inv_def)
    from batch_section_effect [OF _ _ this, of view] inv show ?thesis
      by (simp add: store_inv_def)
  qed
next
  fix s :: "('w, 'h, 's, 'm) storage_scheme" and ds s'
  assume inv: "store_inv api view s" and run: "insert_batch api ds s = (False, s')"
  then have "batch_section api ds s = (False, s')"
    using insert_batch_ready [of view s api ds] by (simp add: store_inv_def split: if_splits)
  from batch_section_effect [OF _ _ this, of view] inv
  show "stored_rows view s' = stored_rows view s"
    by (simp add: store_inv_def)
qed

text \<open>
  The same contract for an engine whose initialisation may have failed, the state in which the
  gateway uses it: it is ready, or dead with every handle released.
\<close>

definition engine_sound ::
  "('w, 'h, 's) store_api \<Rightarrow> ('w \<Rightarrow> ('h, 's) db_view) \<Rightarrow> ('w, 'h, 's, 'm) storage_scheme \<Rightarrow> bool" where
  "engine_sound api view s \<longleftrightarrow> store_inv api view s \<or> engine_dead s \<and> handles_released s"

lemma engine_sound_log [simp]: "engine_sound api view (log_msg l f a s) = engine_sound api view s"
  by (simp add: engine_sound_def handles_released_def)

lemma engine_sound_init_done: "engine_sound api view s \<Longrightarrow> init_done s"
  by (auto simp: engine_sound_def store_inv_def engine_ready_def engine_dead_def)

interpretation sound_store: telemetry_store "engine_sound api view" "stored_rows view"
  "telemetry_row (map_order api)" "insert_telemetry api"
  for api :: "('w, 'h, 's) store_api" and view
proof unfold_locales
  fix s :: "('w, 'h, 's, 'm) storage_scheme" and d ok s'
  assume sound: "engine_sound api view s" and run: "insert_telemetry api d s = (ok, s')"
  show "engine_sound api view s'"
    using sound run store.insert_inv dead_cmd [of s api "Cmd_Insert d" ok s']
    unfolding engine_sound_def by fastforce
  show "stored_rows view s' = stored_rows view s @ (if ok then [telemetry_row (map_order api) d] else [])"
    using sound run store.insert_rows dead_cmd [of s api "Cmd_Insert d" ok s']
    unfolding engine_sound_def stored_rows_def by fastforce
qed

lemma insert_telemetry_frame:
  "init_done s \<Longrightarrow> insert_telemetry api d s = (ok, s') \<Longrightarrow> only_world s s'"
  by (auto simp: insert_telemetry_def ensure_initialized_def Let_def only_world_log
      split: if_splits dest: insert_section_frame)

lemma close_engine_sound:
  assumes "engine_sound api view s"
  shows "engine_dead (close_engine api s) \<and> handles_released (close_engine api s) \<and>
         stored_rows view (close_engine api s) = stored_rows view s"
proof -
  have "stored_rows view (close_engine api s) = stored_rows view s"
    using assms close_engine_released [of s api] close_internal_rows [of api view s]
    by (auto simp: engine_sound_def store_inv_def sqlite_laws_def close_engine_def stored_rows_def)
  then show ?thesis
    using close_engine_dead [OF engine_sound_init_done [OF assms]] by (simp add: handles_released_def)
qed

end
