(* ===== verification/Payload_Text.thy ===== *)
theory Payload_Text
  imports Storage_Engine
begin

text \<open>
  The text the storage engine builds for the payload of a frame, read back. \<open>read_payload_text\<close> is a
  reader for the JSON objects the engine means to write: members whose keys need no escape, with
  decimal numbers of six fraction digits and no white space; it delivers each key with the sign and
  the magnitude in millionths.
\<close>

section \<open>A reader\<close>

definition json_plain :: "char \<Rightarrow> bool" where
  \<comment> \<open>a character that stands for itself inside a JSON string\<close>
  "json_plain c \<longleftrightarrow> c \<noteq> CHR 0x22 \<and> c \<noteq> CHR 0x5C \<and> 32 \<le> (of_char c :: nat)"

definition read_decimal :: "string \<Rightarrow> (bool \<times> nat) option" where
  "read_decimal t =
     (let neg = (t \<noteq> [] \<and> hd t = CHR ''-''); u = (if neg then tl t else t);
          ip = takeWhile is_digit u; fp = dropWhile is_digit u
      in if ip \<noteq> [] \<and> length fp = 7 \<and> hd fp = CHR ''.'' \<and> list_all is_digit (tl fp)
         then Some (neg, digits_value ip * 10 ^ 6 + digits_value (tl fp)) else None)"

definition read_member :: "string \<Rightarrow> ((string \<times> bool \<times> nat) \<times> string) option" where
  \<comment> \<open>one member, and the text after it\<close>
  "read_member s =
     (let key = takeWhile json_plain (tl s);
          s1 = dropWhile json_plain (tl s);
          num = takeWhile is_number_char (drop 2 s1);
          s2 = dropWhile is_number_char (drop 2 s1)
      in if s \<noteq> [] \<and> hd s = CHR 0x22 \<and> take 2 s1 = [CHR 0x22, CHR '':'']
         then map_option (\<lambda>x. ((key, x), s2)) (read_decimal num) else None)"

fun read_members :: "nat \<Rightarrow> string \<Rightarrow> (string \<times> bool \<times> nat) list option" where
  "read_members 0 s = None"
| "read_members (Suc n) s =
     (case read_member s of
        None \<Rightarrow> None
      | Some (m, rest) \<Rightarrow>
          if rest = ''}'' then Some [m]
          else if rest \<noteq> [] \<and> hd rest = CHR '','' then map_option ((#) m) (read_members n (tl rest))
          else None)"

definition read_payload_text :: "string \<Rightarrow> (string \<times> bool \<times> nat) list option" where
  "read_payload_text s =
     (if s = ''{}'' then Some []
      else if s \<noteq> [] \<and> hd s = CHR ''{'' then read_members (length s) (tl s) else None)"

section \<open>Reading back what the engine writes\<close>

lemma not_number_char [simp]:
  "\<not> is_number_char (CHR '','')" "\<not> is_number_char (CHR ''}'')"
  by (simp_all add: is_number_char_def is_digit_def)

lemma not_digit [simp]: "\<not> is_digit (CHR ''-'')" "\<not> is_digit (CHR ''.'')"
  by (simp_all add: is_digit_def)

lemma takeWhile_all_append:
  assumes "list_all P xs" and "ys = [] \<or> \<not> P (hd ys)"
  shows "takeWhile P (xs @ ys) = xs" and "dropWhile P (xs @ ys) = ys"
  using assms by (induction xs) (cases ys; auto)+

lemma read_decimal_unsigned:
  assumes "ip \<noteq> []" "list_all is_digit ip" "length fp = 6" "list_all is_digit fp"
  shows "read_decimal ((if neg then ''-'' else []) @ ip @ ''.'' @ fp) =
           Some (neg, digits_value ip * 10 ^ 6 + digits_value fp)"
proof -
  have parts: "takeWhile is_digit (ip @ CHR ''.'' # fp) = ip"
    "dropWhile is_digit (ip @ CHR ''.'' # fp) = CHR ''.'' # fp"
    using takeWhile_all_append [of is_digit ip "CHR ''.'' # fp"] assms(2) by simp_all
  have first: "hd (ip @ CHR ''.'' # fp) \<noteq> CHR ''-''"
    using assms(1,2) by (cases ip) auto
  show ?thesis
    using assms parts first by (cases neg) (simp_all add: read_decimal_def)
qed

lemma read_decimal_to_string:
  assumes "dbl_is_finite d"
  shows "read_decimal (double_to_string d) = Some (dbl_negative d, dbl_micros d)"
proof -
  have "read_decimal (double_to_string d) =
          Some (dbl_negative d, digits_value (nat_digits (dbl_micros d div 10 ^ 6)) * 10 ^ 6 +
                  digits_value (pad_digits 6 (dbl_micros d mod 10 ^ 6)))"
    unfolding double_to_string_def if_P [OF assms]
    by (rule read_decimal_unsigned)
      (simp_all only: nat_digits_not_Nil nat_digits_all_digits length_pad_digits
        pad_digits_all_digits not_False_eq_True)
  moreover have "digits_value (pad_digits 6 (dbl_micros d mod 10 ^ 6)) = dbl_micros d mod 10 ^ 6"
    by (rule digits_value_pad_digits) simp
  ultimately show ?thesis
    by (simp only: digits_value_nat_digits div_mult_mod_eq)
qed

lemma read_member_entry:
  assumes "list_all json_plain key" "dbl_is_finite v" "rest \<noteq> []" "\<not> is_number_char (hd rest)"
  shows "read_member ([CHR 0x22] @ key @ [CHR 0x22, CHR '':''] @ double_to_string v @ rest) =
           Some ((key, dbl_negative v, dbl_micros v), rest)"
proof -
  let ?after = "CHR 0x22 # CHR '':'' # double_to_string v @ rest"
  have key: "takeWhile json_plain (key @ ?after) = key" "dropWhile json_plain (key @ ?after) = ?after"
    using takeWhile_all_append [of json_plain key ?after] assms(1) by (simp_all add: json_plain_def)
  have num: "takeWhile is_number_char (double_to_string v @ rest) = double_to_string v"
    "dropWhile is_number_char (double_to_string v @ rest) = rest"
    using takeWhile_all_append [of is_number_char "double_to_string v" rest]
      double_to_string_chars [OF assms(2)] assms(4) by simp_all
  show ?thesis
    by (simp add: read_member_def key num read_decimal_to_string [OF assms(2)] del: append_assoc)
qed

definition payload_plain :: "(string \<times> double) list \<Rightarrow> bool" where
  "payload_plain ms \<longleftrightarrow> list_all (\<lambda>(k, v). list_all json_plain k \<and> dbl_is_finite v) ms"

lemma payload_entries_cons:
  "payload_entries False (m # ms) = '','' @ payload_entries True (m # ms)"
  by (cases m) simp

lemma read_members_entries:
  assumes "payload_plain ms" "ms \<noteq> []" "length ms \<le> n"
  shows "read_members n (payload_entries True ms @ ''}'') =
           Some (map (\<lambda>(k, v). (k, dbl_negative v, dbl_micros v)) ms)"
  using assms
proof (induction ms arbitrary: n)
  case Nil
  then show ?case by simp
next
  case (Cons m ms)
  obtain k v where m: "m = (k, v)" by (cases m)
  obtain n' where n: "n = Suc n'" "length ms \<le> n'" using Cons.prems(3) by (cases n) auto
  have plain: "list_all json_plain k" "dbl_is_finite v" "payload_plain ms"
    using Cons.prems(1) m by (simp_all add: payload_plain_def)
  show ?case
  proof (cases ms)
    case Nil
    then show ?thesis
      using read_member_entry [OF plain(1,2), of "''}''"] by (simp add: m n)
  next
    case (Cons m2 ms2)
    then have tail: "payload_entries False ms = '','' @ payload_entries True ms"
      by (simp add: payload_entries_cons)
    have "read_members n' (payload_entries True ms @ ''}'') =
            Some (map (\<lambda>(k, v). (k, dbl_negative v, dbl_micros v)) ms)"
      using Cons.IH [OF plain(3) _ n(2)] Cons by simp
    then show ?thesis
      using read_member_entry [OF plain(1,2), of "CHR '','' # payload_entries True ms @ ''}''"]
      by (simp add: m n tail)
  qed
qed

lemma length_payload_entries: "length ms \<le> length (payload_entries first ms)"
proof (induction ms arbitrary: first)
  case Nil
  then show ?case by simp
next
  case (Cons m ms)
  obtain k v where "m = (k, v)" by (cases m)
  with Cons.IH [of False] show ?case by simp
qed

lemma read_payload_entries:
  assumes "payload_plain ms"
  shows "read_payload_text (''{'' @ payload_entries True ms @ ''}'') =
           Some (map (\<lambda>(k, v). (k, dbl_negative v, dbl_micros v)) ms)"
proof (cases "ms = []")
  case True
  then show ?thesis by (simp add: read_payload_text_def)
next
  case False
  have "length ms \<le> length (''{'' @ payload_entries True ms @ ''}'')"
    using length_payload_entries [of ms True] by simp
  from read_members_entries [OF assms False this] show ?thesis
    using False by (cases ms) (auto simp: read_payload_text_def)
qed

end
