(* ===== verification/Storage_Properties.thy ===== *)
theory Storage_Properties
  imports Storage_Contract Payload_Text
begin

text \<open>
  The properties of the storage engine, and a small database that satisfies the laws of SQLite: one
  connection, one statement, a table of rows and at most one open transaction, with switches that make
  opening, committing or the rows of one robot fail.
\<close>

section \<open>A database that satisfies the laws\<close>

record demo_db =
  d_rows :: "row list"
  d_txn :: "row list option"
  d_bound :: "nat \<Rightarrow> sql_value option"
  d_open :: bool
  d_live :: bool

definition demo_view :: "demo_db \<Rightarrow> (unit, unit) db_view" where
  "demo_view w =
     \<lparr>v_conn = (\<lambda>_. d_open w), v_prog = (\<lambda>_. if d_live w then Some insert_sql else None),
      v_bound = (\<lambda>_. d_bound w), v_rows = d_rows w, v_txn = d_txn w\<rparr>"

definition demo_exec :: "bool \<Rightarrow> string \<Rightarrow> demo_db \<Rightarrow> int \<times> string option \<times> demo_db" where
  "demo_exec no_commit sql w =
     (if sql = ''BEGIN TRANSACTION;''
      then (case d_txn w of
              None \<Rightarrow> (0, None, w\<lparr>d_txn := Some []\<rparr>)
            | Some _ \<Rightarrow> (1, Some ''cannot start a transaction within a transaction'', w))
      else if sql = ''COMMIT;''
      then (case d_txn w of
              None \<Rightarrow> (1, Some ''cannot commit - no transaction is active'', w)
            | Some t \<Rightarrow>
                if no_commit then (5, Some ''database is locked'', w)
                else (0, None, w\<lparr>d_rows := d_rows w @ t, d_txn := None\<rparr>))
      else if sql = ''ROLLBACK;''
      then (case d_txn w of
              None \<Rightarrow> (1, Some ''cannot rollback - no transaction is active'', w)
            | Some t \<Rightarrow> (0, None, w\<lparr>d_txn := None\<rparr>))
      else (0, None, w))"

definition demo_step :: "string \<Rightarrow> demo_db \<Rightarrow> int \<times> demo_db" where
  \<comment> \<open>\<open>bad\<close>: the robot whose rows are refused\<close>
  "demo_step bad w =
     (let vs = map (d_bound w) [1, 2, 3, 4, 5]
      in if None \<in> set vs \<or> d_bound w 1 = Some (SText bad) then (19, w)
         else (101, case d_txn w of
                 None \<Rightarrow> w\<lparr>d_rows := d_rows w @ [map the vs]\<rparr>
               | Some t \<Rightarrow> w\<lparr>d_txn := Some (t @ [map the vs])\<rparr>))"

definition demo_store :: "bool \<Rightarrow> bool \<Rightarrow> string \<Rightarrow> (demo_db, unit, unit) store_api" where
  "demo_store no_open no_commit bad =
     \<lparr>create_directories = (\<lambda>p w. w),
      sq_open = (\<lambda>p w. if no_open then (14, None, w) else (0, Some (), w\<lparr>d_open := True\<rparr>)),
      sq_errmsg = (\<lambda>h w. ''error''),
      sq_exec = (\<lambda>h sql w. if h = None then (21, None, w) else demo_exec no_commit sql w),
      sq_prepare = (\<lambda>h sql w.
        if sql = insert_sql then (0, Some (), w\<lparr>d_live := True\<rparr>) else (1, None, w)),
      sq_reset = (\<lambda>st w. w),
      sq_clear_bindings = (\<lambda>st w. if st = None then w else w\<lparr>d_bound := (\<lambda>_. None)\<rparr>),
      sq_bind_text = (\<lambda>st i t w. if st = None then w else w\<lparr>d_bound := (d_bound w)(i \<mapsto> SText t)\<rparr>),
      sq_bind_int64 = (\<lambda>st i n w. if st = None then w else w\<lparr>d_bound := (d_bound w)(i \<mapsto> SInt n)\<rparr>),
      sq_step = (\<lambda>st w. if st = None then (21, w) else demo_step bad w),
      sq_finalize = (\<lambda>st w. w\<lparr>d_live := False\<rparr>),
      sq_close = (\<lambda>h w. w\<lparr>d_open := False, d_txn := None\<rparr>),
      map_order = (\<lambda>ms. ms)\<rparr>"

lemma map_the_Some: "None \<notin> set vs \<Longrightarrow> vs = map Some (map the vs)"
  by (induction vs) auto

lemma demo_step_law:
  assumes "demo_step bad w = (rc, w')"
  shows "if rc = SQLITE_DONE
         then \<exists>r. map (d_bound w) [1, 2, 3, 4, 5] = map Some r \<and> demo_view w' = add_row r (demo_view w)
         else demo_view w' = demo_view w"
proof (cases "rc = SQLITE_DONE")
  case False
  then show ?thesis
    using assms by (auto simp: demo_step_def SQLITE_DONE_def Let_def split: if_splits)
next
  case True
  define vs where "vs = map (d_bound w) [1, 2, 3, 4, 5]"
  have "None \<notin> set vs" and w': "w' = (case d_txn w of
                 None \<Rightarrow> w\<lparr>d_rows := d_rows w @ [map the vs]\<rparr>
               | Some t \<Rightarrow> w\<lparr>d_txn := Some (t @ [map the vs])\<rparr>)"
    using assms True unfolding demo_step_def vs_def [symmetric] Let_def
    by (auto simp: SQLITE_DONE_def split: if_splits)
  from map_the_Some [OF this(1)] w' True show ?thesis
    unfolding vs_def [symmetric]
    by (auto simp: demo_view_def add_row_def split: option.splits)
qed

lemma demo_sqlite_laws: "sqlite_laws (demo_store no_open no_commit bad) demo_view"
proof -
  have "bind_laws (demo_store no_open no_commit bad) demo_view"
    by (simp add: bind_laws_def demo_store_def demo_view_def unbind_all_def bind_param_def fun_eq_iff)
  moreover have "step_law (demo_store no_open no_commit bad) demo_view"
    unfolding step_law_def
  proof (intro allI impI)
    fix st w rc w'
    assume "sq_step (demo_store no_open no_commit bad) (Some st) w = (rc, w')"
    then have "demo_step bad w = (rc, w')"
      by (simp add: demo_store_def)
    moreover have "v_bound (demo_view w) st = d_bound w"
      by (simp add: demo_view_def)
    ultimately show "if rc = SQLITE_DONE
         then \<exists>r. map (v_bound (demo_view w) st) [1, 2, 3, 4, 5] = map Some r \<and>
                  demo_view w' = add_row r (demo_view w)
         else demo_view w' \<in> {demo_view w, drop_txn (demo_view w)}"
      using demo_step_law [of bad w rc w'] by (cases "rc = SQLITE_DONE") simp_all
  qed
  moreover have "txn_laws (demo_store no_open no_commit bad) demo_view"
    by (auto simp: txn_laws_def demo_store_def demo_exec_def demo_view_def drop_txn_def SQLITE_OK_def
        split: option.splits if_splits)
  moreover have "open_laws (demo_store no_open no_commit bad) demo_view"
    by (auto simp: open_laws_def open_laws_in_def demo_store_def demo_exec_def demo_view_def schema_sql_def SQLITE_OK_def
        split: if_splits)
  moreover have "close_laws (demo_store no_open no_commit bad) demo_view"
    by (simp add: close_laws_def demo_store_def demo_view_def SQLITE_DONE_def SQLITE_OK_def)
  ultimately show ?thesis
    by (simp add: sqlite_laws_def)
qed

definition demo_world :: "demo_db env" where
  "demo_world = \<lparr>ext = \<lparr>d_rows = [], d_txn = None, d_bound = (\<lambda>_. None), d_open = False, d_live = False\<rparr>,
     logs = []\<rparr>"

definition demo_engine :: "(demo_db, unit, unit) storage" where
  \<comment> \<open>a ready engine on the empty database\<close>
  "demo_engine =
     \<lparr>ext = \<lparr>d_rows = [], d_txn = None, d_bound = (\<lambda>_. None), d_open = True, d_live = True\<rparr>,
      logs = [], db_path = ''t.db'', db = Some (), insert_stmt = Some (), init_done = True,
      is_initialized = True, init_failed = False\<rparr>"

lemma demo_engine_inv: "store_inv (demo_store no_open no_commit bad) demo_view demo_engine"
  by (simp add: store_inv_def demo_sqlite_laws engine_ready_def open_txn_def demo_engine_def
      demo_view_def)

definition demo_frame :: "string \<Rightarrow> telemetry_data" where
  "demo_frame name =
     \<lparr>robot_id = name, sensor_type = ''battery'', timestamp_ns = 5, sequence_id = 7,
      payload_values = [(''battery'', 0x4058A00000000000)]\<rparr>"

lemma demo_store_calls [simp]:
  "sq_reset (demo_store no_open no_commit bad) st w = w"
  "sq_clear_bindings (demo_store no_open no_commit bad) (Some ()) w = w\<lparr>d_bound := (\<lambda>_. None)\<rparr>"
  "sq_bind_text (demo_store no_open no_commit bad) (Some ()) i t w =
     w\<lparr>d_bound := (d_bound w)(i \<mapsto> SText t)\<rparr>"
  "sq_bind_int64 (demo_store no_open no_commit bad) (Some ()) i n w =
     w\<lparr>d_bound := (d_bound w)(i \<mapsto> SInt n)\<rparr>"
  "sq_step (demo_store no_open no_commit bad) (Some ()) w = demo_step bad w"
  "sq_exec (demo_store no_open no_commit bad) (Some ()) sql w = demo_exec no_commit sql w"
  "sq_errmsg (demo_store no_open no_commit bad) h w = ''error''"
  "map_order (demo_store no_open no_commit bad) = (\<lambda>ms. ms)"
  by (simp_all add: demo_store_def)

lemma demo_write_row:
  "write_row (demo_store no_open no_commit bad) d (Some ()) w =
     (let w' = w\<lparr>d_bound := row_params (\<lambda>ms. ms) d\<rparr>
      in if c_str (robot_id d) = bad then (19, w')
         else (101, case d_txn w of
                 None \<Rightarrow> w'\<lparr>d_rows := d_rows w @ [telemetry_row (\<lambda>ms. ms) d]\<rparr>
               | Some t \<Rightarrow> w'\<lparr>d_txn := Some (t @ [telemetry_row (\<lambda>ms. ms) d])\<rparr>))"
  by (simp add: write_row_step bindings_before_step_def demo_step_def row_params_def telemetry_row_def
      Let_def split: option.splits)

lemmas demo_eval = insert_telemetry_def insert_batch_def ensure_initialized_def insert_section_def
  batch_section_def run_exec_def demo_write_row demo_exec_def SQLITE_DONE_def SQLITE_OK_def
  demo_engine_def

lemma demo_insert_ok:
  "insert_telemetry (demo_store False no_commit ''mallory'') (demo_frame ''amr_01'') demo_engine =
     (True, demo_engine\<lparr>ext := \<lparr>d_rows = [telemetry_row (\<lambda>ms. ms) (demo_frame ''amr_01'')], d_txn = None,
        d_bound = row_params (\<lambda>ms. ms) (demo_frame ''amr_01''), d_open = True, d_live = True\<rparr>\<rparr>)"
  by (simp add: demo_eval Let_def demo_frame_def c_str_def)

lemma demo_batch_ok:
  "fst (insert_batch (demo_store False False ''mallory'')
          [demo_frame ''amr_01'', demo_frame ''amr_02''] demo_engine)"
  by (simp add: demo_eval Let_def demo_frame_def c_str_def)

lemma demo_batch_bad_row:
  "\<not> fst (insert_batch (demo_store False False ''mallory'')
            [demo_frame ''amr_01'', demo_frame ''mallory''] demo_engine)"
  by (simp add: demo_eval Let_def demo_frame_def c_str_def)

lemma demo_batch_no_commit:
  "fst (insert_batch (demo_store False True ''mallory'') [demo_frame ''amr_01''] demo_engine) = False"
  "open_txn demo_view
     (snd (insert_batch (demo_store False True ''mallory'') [demo_frame ''amr_01''] demo_engine)) =
   Some [telemetry_row (\<lambda>ms. ms) (demo_frame ''amr_01'')]"
  by (simp_all add: demo_eval Let_def demo_frame_def c_str_def open_txn_def demo_view_def)

text \<open>Engines constructed on the example database.\<close>

lemma demo_fresh_init:
  "ensure_initialized (demo_store False no_commit bad) (storage_new ''t.db'' \<lparr>ext = w, logs = []\<rparr>) =
     \<lparr>ext = w\<lparr>d_open := True, d_live := True\<rparr>,
      logs = [(Info, ''StorageEngine: Database initialized successfully at '{}' (WAL mode active)'', [''t.db''])],
      db_path = ''t.db'', db = Some (), insert_stmt = Some (), init_done = True, is_initialized = True,
      init_failed = False\<rparr>"
  by (simp add: ensure_initialized_def init_internal_def open_database_def parent_path_def c_str_def
      enable_wal_mode_def create_schema_def prepare_insert_def run_exec_def schema_sql_def
      demo_store_def demo_exec_def SQLITE_OK_def storage_new_def storage.defs env.defs log_msg_def Let_def)

lemma ensure_done: "init_done s \<Longrightarrow> ensure_initialized api s = s"
  by (simp add: ensure_initialized_def)

lemmas demo_session_eval = insert_telemetry_def insert_batch_def insert_section_def batch_section_def
  run_exec_def demo_write_row demo_exec_def SQLITE_DONE_def SQLITE_OK_def demo_fresh_init ensure_done

lemma demo_first_session:
  "fst (store_history (demo_store False True ''mallory'')
      [Cmd_Batch [demo_frame ''amr_01''], Cmd_Insert (demo_frame ''amr_02'')] (storage_new ''t.db'' \<lparr>ext = ext demo_world, logs = []\<rparr>)) =
   [False, True]"
  by (simp add: demo_session_eval demo_world_def demo_frame_def c_str_def Let_def)
lemma demo_second_session:
  "fst (store_history (demo_store False True ''mallory'')
      [Cmd_Insert (demo_frame ''amr_03'')] (storage_new ''t.db'' \<lparr>ext = w, logs = []\<rparr>)) =
   [True]"
  by (simp add: demo_session_eval demo_frame_def c_str_def Let_def)
section \<open>Rows\<close>

text \<open>C5. A batch is stored as a whole and in order, or not at all: whatever step fails (the
  BEGIN, a row, the COMMIT, the ROLLBACK), the committed rows are the old ones followed by the rows of
  all the frames when the call returns true, and the old ones alone when it returns false.\<close>

theorem batch_all_or_nothing:
  assumes "store_inv api view s" and "insert_batch api ds s = (ok, s')"
  shows "stored_rows view s' = stored_rows view s @ (if ok then map (telemetry_row (map_order api)) ds else [])"
  using assms by (rule store.batch_atomic)

theorem batch_all_or_nothing_witness:
  "stored_rows demo_view (snd (insert_batch (demo_store False False ''mallory'')
       [demo_frame ''amr_01'', demo_frame ''amr_02''] demo_engine)) =
     map (telemetry_row (\<lambda>ms. ms)) [demo_frame ''amr_01'', demo_frame ''amr_02''] \<and>
   stored_rows demo_view (snd (insert_batch (demo_store False False ''mallory'')
       [demo_frame ''amr_01'', demo_frame ''mallory''] demo_engine)) = []"
proof -
  let ?api = "demo_store False False ''mallory''"
  have inv: "store_inv ?api demo_view demo_engine"
    by (rule demo_engine_inv)
  have fresh: "stored_rows demo_view demo_engine = []"
    by (simp add: stored_rows_def demo_view_def demo_engine_def)
  show ?thesis
    using batch_all_or_nothing [OF inv surjective_pairing, of "[demo_frame ''amr_01'', demo_frame ''amr_02'']"]
      batch_all_or_nothing [OF inv surjective_pairing, of "[demo_frame ''amr_01'', demo_frame ''mallory'']"]
    by (simp only: demo_batch_ok demo_batch_bad_row fresh if_True if_False append_Nil demo_store_calls)
qed

text \<open>C6. After any sequence of single inserts the table has grown by the rows of exactly the frames
  whose insert returned true, in the order of the calls.\<close>

theorem inserts_append_accepted:
  assumes "store_inv api view s" and "store_run (insert_telemetry api) ds s = (oks, s')"
  shows "store_inv api view s' \<and> length oks = length ds \<and>
         stored_rows view s' =
           stored_rows view s @ map (telemetry_row (map_order api) \<circ> fst) (filter snd (zip ds oks))"
  using assms by (rule store.run_rows)

theorem inserts_append_accepted_witness:
  "stored_rows demo_view (snd (store_run (insert_telemetry (demo_store False False ''mallory''))
       [demo_frame ''amr_01'', demo_frame ''mallory''] demo_engine)) =
     [telemetry_row (\<lambda>ms. ms) (demo_frame ''amr_01'')]"
proof -
  let ?api = "demo_store False False ''mallory''"
  have inv: "store_inv ?api demo_view demo_engine"
    by (rule demo_engine_inv)
  have "fst (store_run (insert_telemetry ?api) [demo_frame ''amr_01'', demo_frame ''mallory''] demo_engine) =
          [True, False]"
    by (simp add: demo_eval Let_def demo_frame_def c_str_def)
  moreover have "stored_rows demo_view demo_engine = []"
    by (simp add: stored_rows_def demo_view_def demo_engine_def)
  ultimately show ?thesis
    using inserts_append_accepted [OF inv surjective_pairing, of "[demo_frame ''amr_01'', demo_frame ''mallory'']"]
    by (simp only: zip_Cons_Cons zip_Nil filter.simps list.map append_Nil comp_apply fst_conv snd_conv
        if_True if_False demo_store_calls)
qed

text \<open>Storing a batch and storing its frames one by one, all accepted, give the same table.\<close>

theorem batch_equals_inserts:
  assumes "store_inv api view s" and "insert_batch api ds s = (True, s1)"
    and "store_run (insert_telemetry api) ds s = (oks, s2)" and "list_all id oks"
  shows "stored_rows view s1 = stored_rows view s2"
  using assms by (rule store.batch_as_inserts)

theorem batch_equals_inserts_witness:
  "stored_rows demo_view (snd (insert_batch (demo_store False False ''mallory'')
       [demo_frame ''amr_01'', demo_frame ''amr_02''] demo_engine)) =
   stored_rows demo_view (snd (store_run (insert_telemetry (demo_store False False ''mallory''))
       [demo_frame ''amr_01'', demo_frame ''amr_02''] demo_engine))"
proof -
  let ?api = "demo_store False False ''mallory''"
  let ?ds = "[demo_frame ''amr_01'', demo_frame ''amr_02'']"
  have "insert_batch ?api ?ds demo_engine = (True, snd (insert_batch ?api ?ds demo_engine))"
    using demo_batch_ok by (simp add: prod_eq_iff)
  moreover have "list_all id (fst (store_run (insert_telemetry ?api) ?ds demo_engine))"
    by (simp add: demo_eval Let_def demo_frame_def c_str_def)
  ultimately show ?thesis
    by (rule batch_equals_inserts [OF demo_engine_inv _ surjective_pairing])
qed

text \<open>C26. A COMMIT that fails and leaves its transaction open is never rolled back: the next batch is
  refused, and a single insert that reports success after it is not committed but joins the rows of
  the failed transaction.\<close>

theorem failed_commit_poisons_engine:
  assumes "store_inv api view s" and "insert_batch api ds s = (False, s1)"
    and "open_txn view s1 = Some t"
  shows "\<not> fst (insert_batch api (d # ds') s1) \<and>
         open_txn view (snd (insert_batch api (d # ds') s1)) = Some t \<and>
         stored_rows view (snd (insert_telemetry api d s1)) = stored_rows view s \<and>
         open_txn view (snd (insert_telemetry api d s1)) \<in>
           (if fst (insert_telemetry api d s1) then {Some (t @ [telemetry_row (map_order api) d])}
            else {Some t, None})"
proof -
  have laws: "sqlite_laws api view" and ready0: "engine_ready view s"
    using assms(1) by (simp_all add: store_inv_def)
  have "batch_section api ds s = (False, s1)"
    using assms(2) insert_batch_ready [OF ready0, of api ds] by (simp split: if_splits)
  note failed = batch_section_effect [OF laws ready0 this]
  then have ready: "engine_ready view s1" and rows: "stored_rows view s1 = stored_rows view s"
    by simp_all
  have txn: "open_txn view s1 \<noteq> None"
    using assms(3) by simp
  have b: "insert_batch api (d # ds') s1 = batch_section api (d # ds') s1"
    using insert_batch_ready [OF ready, of api "d # ds'"] by simp
  obtain ok s2 where run: "insert_section api d s1 = (ok, s2)"
    by (cases "insert_section api d s1")
  have i: "insert_telemetry api d s1 = (ok, s2)"
    using insert_telemetry_ready [OF ready, of api d] run by simp
  show ?thesis
    using batch_section_in_txn [OF laws ready txn surjective_pairing, of "d # ds'"]
      insert_section_effect [OF sqlite_laws_engine [OF laws] ready run] assms(3) rows
    unfolding b i by (cases ok) auto
qed

theorem failed_commit_poisons_engine_witness:
  "\<exists>s1. insert_batch (demo_store False True ''mallory'') [demo_frame ''amr_01''] demo_engine = (False, s1) \<and>
     \<not> fst (insert_batch (demo_store False True ''mallory'') [demo_frame ''amr_02''] s1) \<and>
     stored_rows demo_view (snd (insert_telemetry (demo_store False True ''mallory'') (demo_frame ''amr_02'') s1)) = []"
proof -
  let ?api = "demo_store False True ''mallory''"
  let ?s1 = "snd (insert_batch ?api [demo_frame ''amr_01''] demo_engine)"
  have b: "insert_batch ?api [demo_frame ''amr_01''] demo_engine = (False, ?s1)"
    by (rule prod_eqI) (simp_all only: demo_batch_no_commit fst_conv snd_conv)
  have fresh: "stored_rows demo_view demo_engine = []"
    by (simp add: stored_rows_def demo_view_def demo_engine_def)
  note failed = failed_commit_poisons_engine [OF demo_engine_inv b demo_batch_no_commit(2),
      of "demo_frame ''amr_02''" "[]", unfolded fresh]
  show ?thesis
    using b failed by (intro exI [of _ ?s1] conjI) (elim conjE, assumption)+
qed

section \<open>The life of an engine\<close>

text \<open>C24. Initialising a new engine never touches a committed row. When it reports success the engine
  is ready, with an open connection and the prepared insert; when it reports failure every handle it
  had opened is released, and no later operation, a second initialisation included, succeeds or has
  any effect outside the process.\<close>

theorem init_ready_or_dead:
  assumes "sqlite_laws api view" and "\<not> is_initialized s" "\<not> init_done s"
    and "init_engine api s = (ok, s1)" and "store_history api cs s1 = (oks, s2)"
  shows "stored_rows view s1 = stored_rows view s \<and>
         (if ok then engine_ready view s1 \<and> open_txn view s1 = open_txn view s
          else handles_released s1 \<and> \<not> list_ex id oks \<and> ext s2 = ext s1)"
proof -
  note eff = init_engine_effect [OF assms(1-4)]
  show ?thesis
  proof (cases ok)
    case True
    then show ?thesis using eff by simp
  next
    case False
    then have "engine_dead s1" "handles_released s1"
      using eff by (simp_all add: engine_dead_def handles_released_def)
    then show ?thesis
      using eff False dead_history [OF _ _ assms(5)] by simp
  qed
qed

lemma demo_new:
  "\<not> is_initialized (storage_new ''t.db'' demo_world :: (demo_db, unit, unit) storage)"
  "\<not> init_done (storage_new ''t.db'' demo_world :: (demo_db, unit, unit) storage)"
  by (simp_all add: storage_new_def storage.defs env.defs)

lemma demo_init_fails:
  "fst (init_engine (demo_store True no_commit bad) (storage_new ''t.db'' demo_world)) = False"
  by (simp add: init_engine_def ensure_initialized_def init_internal_def open_database_def
      init_failure_def demo_store_def SQLITE_OK_def storage_new_def storage.defs env.defs Let_def
      split: prod.splits)

theorem init_ready_or_dead_witness:
  "\<exists>s1. init_engine (demo_store True False ''mallory'') (storage_new ''t.db'' demo_world) = (False, s1) \<and>
     handles_released s1 \<and>
     \<not> list_ex id (fst (store_history (demo_store True False ''mallory'')
                          [Cmd_Init, Cmd_Insert (demo_frame ''amr_01'')] s1))"
proof -
  let ?api = "demo_store True False ''mallory''"
  let ?s1 = "snd (init_engine ?api (storage_new ''t.db'' demo_world))"
  have i: "init_engine ?api (storage_new ''t.db'' demo_world) = (False, ?s1)"
    by (rule prod_eqI) (simp_all only: demo_init_fails fst_conv snd_conv)
  note outcome = init_ready_or_dead [OF demo_sqlite_laws demo_new i surjective_pairing,
      of "[Cmd_Init, Cmd_Insert (demo_frame ''amr_01'')]", unfolded if_False]
  show ?thesis
    using i outcome by (intro exI [of _ ?s1] conjI) (elim conjE, assumption)+
qed

text \<open>C25. Closing is final for an engine whose initialisation has been attempted (its once-flag is spent,
  with or without success): once it has been closed no operation reports success again, none reaches SQLite, and the committed rows stay what they were. The once-flag is not reset,
  so \<^verbatim>\<open>init()\<close> does not reopen the database.\<close>

theorem close_is_final:
  assumes "sqlite_laws api view" and "init_done s"
    and "store_history api (Cmd_Close # cs) s = (oks, s')"
  shows "\<not> list_ex id oks \<and> ext s' = ext (close_engine api s) \<and>
         stored_rows view s' = stored_rows view s"
proof -
  have close: "close_laws api view"
    using assms(1) by (simp add: sqlite_laws_def)
  obtain oks' where h: "oks = False # oks'" "store_history api cs (close_engine api s) = (oks', s')"
    using assms(3) by (auto split: prod.splits)
  have "handles_released (close_engine api s)"
    by (simp add: handles_released_def)
  note dead = dead_history [OF close_engine_dead [OF assms(2)] this h(2)]
  moreover have "stored_rows view (close_engine api s) = stored_rows view s"
    using close_internal_rows [OF close, of s] by (simp add: close_engine_def stored_rows_def)
  ultimately show ?thesis
    using h(1) by (simp add: stored_rows_def)
qed

theorem close_is_final_witness:
  "\<not> list_ex id (fst (store_history (demo_store False False ''mallory'')
       [Cmd_Close, Cmd_Init, Cmd_Insert (demo_frame ''amr_01'')] demo_engine))"
proof -
  have "init_done demo_engine"
    by (simp add: demo_engine_def)
  from close_is_final [OF demo_sqlite_laws this surjective_pairing] show ?thesis
    by blast
qed

section \<open>What a row says\<close>

text \<open>Two frames with the same row have the same time stamp and sequence number, bit for bit
  although the columns are signed, and the same identifiers as far as these hold no NUL.\<close>

theorem row_determines_identity:
  assumes "telemetry_row order d = telemetry_row order' d'"
  shows "timestamp_ns d = timestamp_ns d' \<and> sequence_id d = sequence_id d' \<and>
         (CHR 0x00 \<notin> set (robot_id d) \<union> set (robot_id d') \<longrightarrow> robot_id d = robot_id d') \<and>
         (CHR 0x00 \<notin> set (sensor_type d) \<union> set (sensor_type d') \<longrightarrow> sensor_type d = sensor_type d')"
  using assms by (auto simp: telemetry_row_def c_str_id dest: signed_word_eqI)

theorem row_determines_identity_witness:
  "telemetry_row (\<lambda>ms. ms) (demo_frame ''amr_01'') \<noteq>
   telemetry_row (\<lambda>ms. ms) ((demo_frame ''amr_01'')\<lparr>timestamp_ns := 0x8000000000000005\<rparr>)"
proof
  assume "telemetry_row (\<lambda>ms. ms) (demo_frame ''amr_01'') =
    telemetry_row (\<lambda>ms. ms) ((demo_frame ''amr_01'')\<lparr>timestamp_ns := 0x8000000000000005\<rparr>)"
  from conjunct1 [OF row_determines_identity [OF this]] have "(5 :: 64 word) = 0x8000000000000005"
    by (simp only: demo_frame_def telemetry_data.simps)
  then show False
    by simp
qed

definition as_int64 :: "u64 \<Rightarrow> int" where
  \<comment> \<open>the value of \<open>static_cast<sqlite3_int64>\<close>\<close>
  "as_int64 n = (if uint n < 2 ^ 63 then uint n else uint n - 2 ^ 64)"

lemma sint_as_int64: "sint n = as_int64 n" for n :: u64
proof -
  have u: "uint n = sint n mod 18446744073709551616"
    using uint_sint [of n] by (simp add: take_bit_eq_mod)
  have range: "- 9223372036854775808 \<le> sint n" "sint n < 9223372036854775808"
    using sint_greater_eq [of n] sint_less [of n] by simp_all
  show ?thesis
  proof (cases "0 \<le> sint n")
    case True
    then have "uint n = sint n"
      unfolding u using range by (intro mod_pos_pos_trivial) simp_all
    with range show ?thesis
      by (simp add: as_int64_def)
  next
    case False
    have "uint n = (sint n + 18446744073709551616) mod 18446744073709551616"
      by (simp add: u)
    also have "\<dots> = sint n + 18446744073709551616"
      using False range by (intro mod_pos_pos_trivial) simp_all
    finally show ?thesis
      using range by (simp add: as_int64_def)
  qed
qed

lemma as_int64_order:
  "as_int64 m \<le> as_int64 n \<longleftrightarrow>
     (if m < 2 ^ 63 \<longleftrightarrow> n < 2 ^ 63 then m \<le> n else n < 2 ^ 63)"
proof -
  have lt: "x < 2 ^ 63 \<longleftrightarrow> uint x < 9223372036854775808" for x :: u64
    by (simp add: word_less_def)
  have bound: "uint x < 18446744073709551616 \<and> 0 \<le> uint x" for x :: u64
    using unsigned_less [of x, where ?'a = int] by simp
  have pow: "(2 :: int) ^ 63 = 9223372036854775808" "(2 :: int) ^ 64 = 18446744073709551616"
    by simp_all
  show ?thesis
    using bound [of m] bound [of n]
    unfolding as_int64_def lt word_le_def pow
    by (cases "uint m < 9223372036854775808"; cases "uint n < 9223372036854775808")
      (simp_all only: if_True if_False simp_thms, linarith+)
qed
text \<open>C22. The two integers of a row wrap at \<open>2^63\<close>: the columns are signed, so a time stamp or sequence
  number from \<open>2^63\<close> on is stored as the negative number \<open>2^64\<close> below it. The bits survive, but the order
  of the column \<^verbatim>\<open>timestamp_ns\<close>, which the index of the table serves, is the order of the time stamps only on
  one side of \<open>2^63\<close>; across it every time stamp from \<open>2^63\<close> on comes first.\<close>

theorem row_integers_wrap:
  assumes "store_inv api view s" and "insert_telemetry api d1 s = (True, s1)"
    and "insert_telemetry api d2 s1 = (True, s2)"
  shows "\<exists>r1 r2. stored_rows view s2 = stored_rows view s @ [r1, r2] \<and>
    r1 ! 2 = SInt (as_int64 (timestamp_ns d1)) \<and> r1 ! 3 = SInt (as_int64 (sequence_id d1)) \<and>
    r2 ! 2 = SInt (as_int64 (timestamp_ns d2)) \<and> r2 ! 3 = SInt (as_int64 (sequence_id d2)) \<and>
    word_of_int (as_int64 (timestamp_ns d1)) = timestamp_ns d1 \<and>
    word_of_int (as_int64 (sequence_id d1)) = sequence_id d1 \<and>
    (as_int64 (timestamp_ns d1) \<le> as_int64 (timestamp_ns d2) \<longleftrightarrow>
       (if timestamp_ns d1 < 2 ^ 63 \<longleftrightarrow> timestamp_ns d2 < 2 ^ 63
        then timestamp_ns d1 \<le> timestamp_ns d2 else timestamp_ns d2 < 2 ^ 63))"
proof -
  have "stored_rows view s1 = stored_rows view s @ [telemetry_row (map_order api) d1]"
    using store.insert_rows [OF assms(1,2)] by simp
  moreover have "stored_rows view s2 = stored_rows view s1 @ [telemetry_row (map_order api) d2]"
    using store.insert_rows [OF store.insert_inv [OF assms(1,2)] assms(3)] by simp
  moreover have "word_of_int (as_int64 n) = n" for n
    unfolding sint_as_int64 [symmetric] by simp
  ultimately show ?thesis
    using as_int64_order [of "timestamp_ns d1" "timestamp_ns d2"]
    by (intro exI [of _ "telemetry_row (map_order api) d1"] exI [of _ "telemetry_row (map_order api) d2"])
      (simp add: telemetry_row_def sint_as_int64 numeral_2_eq_2 numeral_3_eq_3)
qed

definition demo_late :: telemetry_data where
  "demo_late = (demo_frame ''amr_01'')\<lparr>timestamp_ns := 0x8000000000000005\<rparr>"

text \<open>The later of two frames is the earlier one for the database.\<close>

theorem row_integers_wrap_witness:
  "\<exists>s1 s2 r1 r2. insert_telemetry (demo_store False False ''mallory'') (demo_frame ''amr_01'') demo_engine = (True, s1) \<and>
     insert_telemetry (demo_store False False ''mallory'') demo_late s1 = (True, s2) \<and>
     stored_rows demo_view s2 = [r1, r2] \<and> r1 ! 2 = SInt 5 \<and> r2 ! 2 = SInt (- 9223372036854775803) \<and>
     timestamp_ns (demo_frame ''amr_01'') < timestamp_ns demo_late"
proof -
  let ?api = "demo_store False False ''mallory''"
  let ?s1 = "snd (insert_telemetry ?api (demo_frame ''amr_01'') demo_engine)"
  have one: "insert_telemetry ?api (demo_frame ''amr_01'') demo_engine = (True, ?s1)"
    by (simp add: demo_insert_ok)
  have "c_str (robot_id demo_late) \<noteq> ''mallory''"
    by (simp add: demo_late_def demo_frame_def c_str_def)
  then have "fst (insert_telemetry ?api demo_late ?s1)"
    unfolding demo_insert_ok by (simp add: demo_eval Let_def)
  then obtain s2 where two: "insert_telemetry ?api demo_late ?s1 = (True, s2)"
    by (cases "insert_telemetry ?api demo_late ?s1") (simp only: fst_conv)
  have stamps: "timestamp_ns (demo_frame ''amr_01'') = 5" "timestamp_ns demo_late = 0x8000000000000005"
    by (simp_all add: demo_late_def demo_frame_def)
  have ints: "as_int64 5 = 5" "as_int64 0x8000000000000005 = - 9223372036854775803"
    by (simp_all add: as_int64_def)
  have none: "stored_rows demo_view demo_engine = []"
    by (simp add: stored_rows_def demo_view_def demo_engine_def)
  from row_integers_wrap [OF demo_engine_inv one two] obtain r1 r2 where
    "stored_rows demo_view s2 = [] @ [r1, r2]" "r1 ! 2 = SInt 5" "r2 ! 2 = SInt (- 9223372036854775803)"
    unfolding stamps ints none by (elim exE conjE) (rule that)
  moreover have "timestamp_ns (demo_frame ''amr_01'') < timestamp_ns demo_late"
    unfolding stamps by simp
  ultimately show ?thesis
    using one two by (intro exI [of _ ?s1] exI [of _ s2] exI [of _ r1] exI [of _ r2] conjI)
      (simp_all only: append_Nil)
qed

lemma json_plain_not_nul: "list_all json_plain k \<Longrightarrow> CHR 0x00 \<notin> set k"
proof -
  have "\<not> json_plain (CHR 0x00)"
    by (simp add: json_plain_def)
  then show "list_all json_plain k \<Longrightarrow> CHR 0x00 \<notin> set k"
    unfolding list_all_iff by blast
qed

lemma payload_entries_not_nul:
  "payload_plain ms \<Longrightarrow> CHR 0x00 \<notin> set (payload_entries first ms)"
proof (induction ms arbitrary: first)
  case Nil
  then show ?case by simp
next
  case (Cons m ms)
  obtain k v where m: "m = (k, v)" by (cases m)
  then have "CHR 0x00 \<notin> set k" "payload_plain ms" and "dbl_is_finite v"
    using Cons.prems json_plain_not_nul by (auto simp: payload_plain_def)
  moreover have "CHR 0x00 \<notin> set (double_to_string v)"
    using double_to_string_chars [OF \<open>dbl_is_finite v\<close>]
    by (auto simp: list_all_iff is_number_char_def is_digit_def)
  ultimately show ?case
    using Cons.IH [of False] m by simp
qed

lemma dbl_98_5: "\<not> dbl_negative 0x4058A00000000000" "dbl_micros 0x4058A00000000000 = 98500000"
  unfolding dbl_micros_def dbl_mantissa_def dbl_scale_def dbl_negative_def
  by (simp_all add: dbl_exponent_def dbl_fraction_def round_half_even_def Let_def)

text \<open>C21. The payload survives storage: when the keys need no escape and the values are finite, the
  text in the row reads back as the members of the payload in the order of the map, each with its sign
  and a magnitude in millionths that is within half a millionth of the value (\<open>dbl_units\<close> counts it
  exactly, in units of \<open>2 ^ -1074\<close>).\<close>

theorem payload_roundtrip:
  assumes "payload_plain (order (payload_values d))"
  shows "\<exists>t. last (telemetry_row order d) = SText t \<and>
           read_payload_text t = Some (map (\<lambda>(k, v). (k, dbl_negative v, dbl_micros v)) (order (payload_values d))) \<and>
           (\<forall>(k, v)\<in>set (order (payload_values d)).
              2 * \<bar>int (dbl_micros v) * 2 ^ 1074 - int (dbl_units v) * 10 ^ 6\<bar> \<le> 2 ^ 1074)"
proof -
  have "c_str (payload_json order d) = payload_json order d"
    using payload_entries_not_nul [OF assms, of True] by (intro c_str_id) (simp add: payload_json_def)
  moreover have "2 * \<bar>int (dbl_micros v) * 2 ^ 1074 - int (dbl_units v) * 10 ^ 6\<bar> \<le> 2 ^ 1074" for v
    unfolding dbl_units_def by (rule dbl_micros_accurate)
  ultimately show ?thesis
    using read_payload_entries [OF assms]
    by (simp add: telemetry_row_def payload_json_def del: of_nat_mult of_nat_power of_nat_numeral)
qed

theorem payload_roundtrip_witness:
  "\<exists>t. last (telemetry_row rev (demo_frame ''amr_01'')) = SText t \<and>
     read_payload_text t = Some [(''battery'', False, 98500000)]"
proof -
  have "payload_plain (rev (payload_values (demo_frame ''amr_01'')))"
    by (simp add: payload_plain_def demo_frame_def json_plain_def dbl_is_finite_def dbl_exponent_def)
  from payload_roundtrip [of rev "demo_frame ''amr_01''", OF this]
  obtain t where t: "last (telemetry_row rev (demo_frame ''amr_01'')) = SText t"
    "read_payload_text t =
       Some (map (\<lambda>(k, v). (k, dbl_negative v, dbl_micros v)) (rev (payload_values (demo_frame ''amr_01''))))"
    by blast
  then show ?thesis
    by (intro exI [of _ t]) (simp add: demo_frame_def dbl_98_5)
qed

text \<open>C32. Without that condition the stored text does not determine the payload: keys are written
  unescaped, so one member whose key holds a quotation mark gives the text of two members. Two frames
  with different payloads then have the same row.\<close>

theorem payload_key_forges_member:
  "telemetry_row (\<lambda>ms. ms)
     (d\<lparr>payload_values := [(k1 @ [CHR 0x22, CHR '':''] @ double_to_string v1 @ [CHR '','', CHR 0x22] @ k2, v2)]\<rparr>) =
   telemetry_row (\<lambda>ms. ms) (d\<lparr>payload_values := [(k1, v1), (k2, v2)]\<rparr>)"
  by (simp add: telemetry_row_def payload_json_def)

end
