(* ===== verification/Benchmark.thy ===== *)
theory Benchmark
  imports Storage_Properties
begin

text \<open>
  The storage half of the benchmark program (test/benchmark_telemetry_pipeline.cpp): ten batches of 1000
  default frames, stamped by the system clock, stored one by one in a database in memory, and the number
  of records it reports. The readings of the clock are inputs, one list for each batch. Left out are the
  times it measures, and the half on the security engine, whose timed body is empty.
\<close>

definition benchmark_frame :: "int \<Rightarrow> telemetry_data" where
  "benchmark_frame now_ns = empty_telemetry\<lparr>timestamp_ns := word_of_int now_ns\<rparr>"

fun benchmark_inserts ::
  "('w, 'h, 's) store_api \<Rightarrow> telemetry_data list \<Rightarrow> ('w, 'h, 's) storage \<Rightarrow> ('w, 'h, 's) storage" where
  \<comment> \<open>the loop over one batch; the results are ignored\<close>
  "benchmark_inserts api [] s = s"
| "benchmark_inserts api (rec # batch) s = benchmark_inserts api batch (snd (insert_telemetry api rec s))"

fun benchmark_batches ::
  "('w, 'h, 's) store_api \<Rightarrow> int list list \<Rightarrow> ('w, 'h, 's) storage \<Rightarrow> ('w, 'h, 's) storage" where
  "benchmark_batches api [] s = s"
| "benchmark_batches api (clock # clocks) s =
     benchmark_batches api clocks (benchmark_inserts api (map benchmark_frame clock) s)"

definition total_records :: nat where "total_records = 10000"
definition batch_size :: nat where "batch_size = 1000"

definition benchmark_clocks :: "int list list \<Rightarrow> bool" where
  \<comment> \<open>as many readings as the two loops take\<close>
  "benchmark_clocks clocks \<longleftrightarrow>
     length clocks = total_records div batch_size \<and> list_all (\<lambda>clock. length clock = batch_size) clocks"

definition benchmark_storage ::
  "('w, 'h, 's) store_api \<Rightarrow> int list list \<Rightarrow> 'w env \<Rightarrow> string list \<times> ('w, 'h, 's) storage" where
  \<comment> \<open>the lines with the counts, and the engine before its destruction\<close>
  "benchmark_storage api clocks e =
     ([''  Inserted Records: '' @ nat_digits total_records, ''  Batch Size:       '' @ nat_digits batch_size],
      benchmark_batches api clocks (storage_new '':memory:'' e))"

section \<open>What it stores\<close>

lemma digits_01: "digit_char 0 = CHR ''0''" "digit_char (Suc 0) = CHR ''1''"
  by code_simp+

lemma benchmark_inserts_run: "benchmark_inserts api ds s = snd (store_run (insert_telemetry api) ds s)"
  by (induction ds arbitrary: s) (simp_all add: Let_def case_prod_beta)

lemma benchmark_inserts_append:
  "benchmark_inserts api (ds @ ds') s = benchmark_inserts api ds' (benchmark_inserts api ds s)"
  by (induction ds arbitrary: s) simp_all

lemma benchmark_batches_inserts:
  "benchmark_batches api clocks s = benchmark_inserts api (map benchmark_frame (concat clocks)) s"
  by (induction clocks arbitrary: s) (simp_all add: benchmark_inserts_append)

lemma benchmark_clocks_length:
  assumes "benchmark_clocks clocks"
  shows "length (concat clocks) = 10000"
proof -
  have lengths: "list_all (\<lambda>clock. length clock = n) xss \<Longrightarrow> length (concat xss) = length xss * n"
    for n and xss :: "int list list"
    by (induction xss) simp_all
  show ?thesis
    using assms lengths [of batch_size clocks] by (simp add: benchmark_clocks_def total_records_def batch_size_def)
qed

lemma insert_after_ensure:
  "insert_telemetry api d s = insert_telemetry api d (ensure_initialized api s)"
  by (simp add: insert_telemetry_def ensure_initialized_def)

lemma dead_inserts:
  "engine_dead s \<Longrightarrow> handles_released s \<Longrightarrow> store_run (insert_telemetry api) ds s = (oks, s') \<Longrightarrow>
   \<not> list_ex id oks"
proof (induction ds arbitrary: s oks s')
  case Nil
  then show ?case by simp
next
  case (Cons d ds)
  obtain ok s1 where one: "insert_telemetry api d s = (ok, s1)"
    by (cases "insert_telemetry api d s")
  obtain oks' where rest: "store_run (insert_telemetry api) ds s1 = (oks', s')" and oks: "oks = ok # oks'"
    using Cons.prems(3) one by (auto simp: Let_def split: prod.splits)
  have "\<not> ok \<and> engine_dead s1 \<and> handles_released s1"
    using dead_cmd [OF Cons.prems(1,2), of api "Cmd_Insert d" ok s1] one by simp
  then show ?case
    using Cons.IH [OF _ _ rest] oks by simp
qed

lemma store_run_length: "store_run put ds s = (oks, s') \<Longrightarrow> length oks = length ds"
  by (induction ds arbitrary: s oks) (auto simp: Let_def split: prod.splits)

text \<open>The benchmark reports 10000 inserted records whatever the database does. When the database could be
  opened the table has grown by the rows of the inserts that succeeded, and otherwise none did; nothing
  runs in a transaction, so the batches it names are not batches of the engine.\<close>

theorem benchmark_report_independent:
  fixes api :: "('w, 'h, 's) store_api"
  assumes "engine_laws api view" and "v_txn (view (ext e)) = None" and "no_connection (view (ext e))"
    and "benchmark_clocks clocks" and "benchmark_storage api clocks e = (report, s')"
  shows "report = [''  Inserted Records: 10000'', ''  Batch Size:       1000''] \<and>
    (\<exists>oks. length oks = 10000 \<and>
       (if fst (init_engine api (storage_new '':memory:'' e))
        then stored_rows view s' = v_rows (view (ext e)) @
               map (telemetry_row (map_order api) \<circ> fst)
                 (filter snd (zip (map benchmark_frame (concat clocks)) oks))
        else \<not> list_ex id oks))"
proof -
  let ?s0 = "storage_new '':memory:'' e :: ('w, 'h, 's) storage"
  let ?ds = "map benchmark_frame (concat clocks)"
  obtain ok s where i: "init_engine api ?s0 = (ok, s)"
    by (cases "init_engine api ?s0")
  have new: "no_connection (view (ext ?s0))" "\<not> is_initialized ?s0" "\<not> init_done ?s0"
    "stored_rows view ?s0 = v_rows (view (ext e))" "open_txn view ?s0 = None"
    using assms(2,3) by (simp_all add: storage_new_def storage.defs env.defs stored_rows_def open_txn_def)
  have len: "length ?ds = 10000"
    using benchmark_clocks_length [OF assms(4)] by simp
  obtain oks s2 where run: "store_run (insert_telemetry api) ?ds s = (oks, s2)"
    by (cases "store_run (insert_telemetry api) ?ds s")
  obtain d ds where ds: "?ds = d # ds"
    using len by (cases ?ds) auto
  have "s = ensure_initialized api ?s0"
    using i by (simp add: init_engine_def Let_def)
  then have "store_run (insert_telemetry api) ?ds ?s0 = store_run (insert_telemetry api) ?ds s"
    unfolding ds store_run.simps insert_after_ensure [of api d ?s0] by simp
  then have s': "s' = s2" "report = [''  Inserted Records: 10000'', ''  Batch Size:       1000'']"
    using assms(5) run
    by (auto simp: benchmark_storage_def benchmark_batches_inserts benchmark_inserts_run total_records_def
        batch_size_def nat_digits.simps digits_01)
  have rows: "stored_rows view s2 = v_rows (view (ext e)) @
      map (telemetry_row (map_order api) \<circ> fst) (filter snd (zip ?ds oks))" if ok
  proof -
    have "open_laws_in no_connection api view"
      using assms(1) by (simp add: engine_laws_def)
    from init_engine_success [OF this new(1-3)] i that
    have "live_inv api view s" "stored_rows view s = v_rows (view (ext e))"
      using assms(1) new(4,5) by (simp_all add: live_inv_def)
    then show ?thesis
      using live_store.run_rows [OF _ run] by simp
  qed
  have refused: "\<not> list_ex id oks" if "\<not> ok"
  proof -
    have "engine_dead s \<and> handles_released s"
      using init_engine_failed [OF new(2,3)] i that by simp
    then show ?thesis
      using dead_inserts [OF _ _ run] by blast
  qed
  have "length oks = length ?ds"
    using store_run_length [OF run] by simp
  with rows refused s' i len show ?thesis
    by (intro conjI exI [of _ oks]) simp_all
qed

end
