(* ===== verification/Storage_Threads.thy ===== *)
theory Storage_Threads
  imports Storage_Contract
begin

text \<open>
  The storage engine under concurrent calls. A call is a program counter with the three steps that
  other threads can tell apart: the passage through \<^verbatim>\<open>std::call_once\<close>, which initialises the engine in the
  first call and under the mutex, and holds back the others until it has; the test of the atomic
  \<^verbatim>\<open>is_initialized_\<close>, outside the mutex; and the section under \<^verbatim>\<open>db_mutex_\<close>. \<^verbatim>\<open>close()\<close> has the section only.
  An execution is a schedule, the list of the threads in the order of their steps.

  A section that would hand a null statement to SQLite is undefined behaviour: the thread has crashed, and
  the execution ends there.

  Every call has one point at which it takes effect. The history collects the calls at these points,
  and the simulation at the end shows that running the same calls one after the other in the order of
  the history gives the same answers and the same rows.
\<close>

section \<open>The steps of a call\<close>

datatype call_pc =
    Call_Ensure store_cmd
  | Call_Test store_cmd
  | Call_Section store_cmd
  | Call_Done bool
  | Call_Crashed

fun call_start :: "store_cmd \<Rightarrow> call_pc" where
  "call_start Cmd_Close = Call_Section Cmd_Close"
| "call_start c = Call_Ensure c"

fun flag_test ::
  "store_cmd \<Rightarrow> ('w, 'h, 's, 'm) storage_scheme \<Rightarrow> call_pc \<times> ('w, 'h, 's, 'm) storage_scheme" where
  \<comment> \<open>the test of the flag, and what follows it outside the mutex\<close>
  "flag_test Cmd_Init s = (Call_Done (is_initialized s), s)"
| "flag_test (Cmd_Insert d) s =
     (if \<not> is_initialized s
      then (Call_Done False, log_msg Error
              ''StorageEngine: Cannot insert telemetry; database connection initialization failed.'' [] s)
      else (Call_Section (Cmd_Insert d), s))"
| "flag_test (Cmd_Batch ds) s =
     (if \<not> is_initialized s
      then (Call_Done False, log_msg Error
              ''StorageEngine: Cannot insert batch; database connection initialization failed.'' [] s)
      else if ds = [] then (Call_Done True, s)
      else (Call_Section (Cmd_Batch ds), s))"
| "flag_test (Cmd_Query r n) s =
     (if \<not> is_initialized s
      then (Call_Done False, log_msg Error
              ''StorageEngine: Cannot query telemetry; database connection initialization failed.'' [] s)
      else (Call_Section (Cmd_Query r n), s))"
| "flag_test (Cmd_Purge t) s =
     (if \<not> is_initialized s
      then (Call_Done False, log_msg Error
              ''StorageEngine: Cannot purge data; database connection initialization failed.'' [] s)
      else (Call_Section (Cmd_Purge t), s))"
| "flag_test Cmd_Close s = (Call_Section Cmd_Close, s)"

fun locked_section ::
  "('w, 'h, 's) store_api \<Rightarrow> store_cmd \<Rightarrow> ('w, 'h, 's, 'm) storage_scheme \<Rightarrow>
   (bool \<times> ('w, 'h, 's, 'm) storage_scheme) option" where
  \<comment> \<open>what a call does under the mutex; \<open>init\<close> returns without taking it again. \<open>None\<close>: the section
      reaches \<open>sqlite3_clear_bindings\<close> with a null statement, a batch only after a successful BEGIN\<close>
  "locked_section api Cmd_Init s = Some (is_initialized s, s)"
| "locked_section api (Cmd_Insert d) s =
     (if insert_stmt s = None then None else Some (insert_section api d s))"
| "locked_section api (Cmd_Batch ds) s =
     (case run_exec api ''BEGIN TRANSACTION;'' s of (rc, err, s1) \<Rightarrow>
        if rc = SQLITE_OK \<and> insert_stmt s1 = None then None else Some (batch_section api ds s))"
| "locked_section api (Cmd_Query r n) s = Some (False, s)"
| "locked_section api (Cmd_Purge t) s = Some (True, s)"
| "locked_section api Cmd_Close s = Some (False, close_engine api s)"

fun call_step ::
  "('w, 'h, 's) store_api \<Rightarrow> call_pc \<times> ('w, 'h, 's, 'm) storage_scheme \<Rightarrow>
   call_pc \<times> ('w, 'h, 's, 'm) storage_scheme" where
  "call_step api (Call_Ensure c, s) = (Call_Test c, ensure_initialized api s)"
| "call_step api (Call_Test c, s) = flag_test c s"
| "call_step api (Call_Section c, s) =
     (case locked_section api c s of
        None \<Rightarrow> (Call_Crashed, s)
      | Some (ok, s) \<Rightarrow> (Call_Done ok, s))"
| "call_step api (Call_Done ok, s) = (Call_Done ok, s)"
| "call_step api (Call_Crashed, s) = (Call_Crashed, s)"

section \<open>Executions\<close>

fun reads_nothing :: "store_cmd \<Rightarrow> bool option" where
  \<comment> \<open>a call whose section does nothing, with its answer: it takes effect at its test\<close>
  "reads_nothing (Cmd_Query r n) = Some False"
| "reads_nothing (Cmd_Purge t) = Some True"
| "reads_nothing _ = None"

fun call_point :: "call_pc \<Rightarrow> call_pc \<Rightarrow> (store_cmd \<times> bool) list" where
  \<comment> \<open>the call and its answer, at the step where it takes effect\<close>
  "call_point (Call_Test c) (Call_Done ok) = [(c, ok)]"
| "call_point (Call_Test c) (Call_Section c') =
     (case reads_nothing c of Some ok \<Rightarrow> [(c, ok)] | None \<Rightarrow> [])"
| "call_point (Call_Section c) (Call_Done ok) =
     (if reads_nothing c = None then [(c, ok)] else [])"
| "call_point _ _ = []"

type_synonym call_history = "(nat \<times> store_cmd \<times> bool) list"

fun schedule_step ::
  "('w, 'h, 's) store_api \<Rightarrow> nat \<Rightarrow> call_history \<times> call_pc list \<times> ('w, 'h, 's, 'm) storage_scheme \<Rightarrow>
   call_history \<times> call_pc list \<times> ('w, 'h, 's, 'm) storage_scheme" where
  \<comment> \<open>one step of thread \<open>i\<close>; nothing runs after a crash\<close>
  "schedule_step api i (es, ts, s) =
     (if i < length ts \<and> Call_Crashed \<notin> set ts
      then let (pc, s') = call_step api (ts ! i, s)
           in (es @ map (Pair i) (call_point (ts ! i) pc), ts[i := pc], s')
      else (es, ts, s))"

definition threads_run ::
  "('w, 'h, 's) store_api \<Rightarrow> nat list \<Rightarrow> call_history \<times> call_pc list \<times> ('w, 'h, 's, 'm) storage_scheme \<Rightarrow>
   call_history \<times> call_pc list \<times> ('w, 'h, 's, 'm) storage_scheme" where
  "threads_run api schedule st = fold (schedule_step api) schedule st"

definition calls_of :: "call_history \<Rightarrow> nat \<Rightarrow> (store_cmd \<times> bool) list" where
  "calls_of es i = map snd (filter (\<lambda>e. fst e = i) es)"

lemma calls_of_append [simp]: "calls_of (es @ fs) i = calls_of es i @ calls_of fs i"
  by (simp add: calls_of_def)

lemma calls_of_nil [simp]: "calls_of [] i = []"
  by (simp add: calls_of_def)

lemma calls_of_pair [simp]: "calls_of (map (Pair j) ps) i = (if i = j then ps else [])"
  by (auto simp: calls_of_def filter_map comp_def map_idI)

section \<open>A call by itself\<close>

definition stmt_live :: "('w, 'h, 's, 'm) storage_scheme \<Rightarrow> bool" where
  \<comment> \<open>while the flag is set there is a statement\<close>
  "stmt_live s \<longleftrightarrow> (is_initialized s \<longrightarrow> insert_stmt s \<noteq> None)"

lemma stmt_live_ready: "engine_ready view s \<Longrightarrow> stmt_live s"
  by (auto simp: stmt_live_def engine_ready_def)

lemma locked_section_total:
  assumes "insert_stmt s \<noteq> None"
  shows "locked_section api c s \<noteq> None"
  using assms by (cases c) (auto dest!: run_exec_frame only_world_fields(3) split: prod.splits)

lemma call_alone_steps:
  assumes "stmt_live (ensure_initialized api s)"
  shows "call_step api (call_step api (call_step api (call_start c, s))) =
     (case store_cmd_run api c s of (ok, s') \<Rightarrow> (Call_Done ok, s'))"
proof -
  have "insert_stmt (ensure_initialized api s) \<noteq> None" if "is_initialized (ensure_initialized api s)"
    using assms that by (simp add: stmt_live_def)
  then show ?thesis
    by (cases c)
      (auto simp: init_engine_def insert_telemetry_def insert_batch_def query_telemetry_def
        purge_older_than_def Let_def dest!: run_exec_frame only_world_fields(3) split: prod.splits)
qed

section \<open>Which call a thread runs, and what it has answered\<close>

fun pc_valid :: "store_cmd \<Rightarrow> call_pc \<Rightarrow> bool" where
  \<comment> \<open>the counters a thread that runs the call can have\<close>
  "pc_valid c (Call_Ensure c') = (c' = c \<and> c \<noteq> Cmd_Close)"
| "pc_valid c (Call_Test c') = (c' = c \<and> c \<noteq> Cmd_Close)"
| "pc_valid c (Call_Section c') = (c' = c \<and> c \<noteq> Cmd_Init \<and> c \<noteq> Cmd_Batch [])"
| "pc_valid c (Call_Done ok) = True"
| "pc_valid c Call_Crashed = (reads_nothing c = None)"

fun answer_of :: "store_cmd \<Rightarrow> call_pc \<Rightarrow> (store_cmd \<times> bool) list" where
  \<comment> \<open>what the history holds of the call\<close>
  "answer_of c (Call_Done ok) = [(c, ok)]"
| "answer_of c (Call_Section c') = (case reads_nothing c of Some ok \<Rightarrow> [(c, ok)] | None \<Rightarrow> [])"
| "answer_of c _ = []"

lemma call_start_valid: "pc_valid c (call_start c) \<and> answer_of c (call_start c) = []"
  by (cases c) simp_all

lemma call_step_tracks:
  assumes "pc_valid c pc" "call_step api (pc, s) = (pc', s')"
  shows "pc_valid c pc' \<and> answer_of c pc' = answer_of c pc @ call_point pc pc'"
  using assms
  by (cases pc; cases c) (auto split: if_splits prod.splits)

definition threads_inv :: "store_cmd list \<Rightarrow> call_history \<Rightarrow> call_pc list \<Rightarrow> bool" where
  "threads_inv cs es ts \<longleftrightarrow>
     length ts = length cs \<and>
     (\<forall>i<length cs. pc_valid (cs ! i) (ts ! i) \<and> calls_of es i = answer_of (cs ! i) (ts ! i))"

lemma threads_inv_start: "threads_inv cs [] (map call_start cs)"
  by (simp add: threads_inv_def call_start_valid)

lemma schedule_step_tracks:
  assumes "threads_inv cs es ts" "schedule_step api i (es, ts, s) = (es', ts', s')"
  shows "threads_inv cs es' ts'"
proof (cases "i < length ts \<and> Call_Crashed \<notin> set ts")
  case False
  then show ?thesis using assms by auto
next
  case True
  obtain pc s1 where c: "call_step api (ts ! i, s) = (pc, s1)"
    by (cases "call_step api (ts ! i, s)")
  have "pc_valid (cs ! i) (ts ! i)"
    using assms(1) True by (simp add: threads_inv_def)
  from call_step_tracks [OF this c] show ?thesis
    using assms True c by (auto simp: threads_inv_def nth_list_update)
qed

section \<open>The simulation\<close>

text \<open>
  A concurrent engine and a sequential one: identical while the flag is set; afterwards both are dead
  with their handles released, and the tables are the same. The worlds may differ then, because a call
  that has lost the race with \<^verbatim>\<open>close()\<close> still calls SQLite, with null handles.
\<close>

definition engine_sim ::
  "('w \<Rightarrow> ('h, 's) db_view) \<Rightarrow> ('w, 'h, 's, 'm) storage_scheme \<Rightarrow> ('w, 'h, 's, 'm) storage_scheme \<Rightarrow>
   bool" where
  "engine_sim view s t \<longleftrightarrow>
     (if is_initialized s then init_done s \<and> t = s
      else engine_dead s \<and> engine_dead t \<and> handles_released s \<and> handles_released t \<and>
           stored_rows view s = stored_rows view t)"

lemma engine_sim_refl:
  "init_done s \<Longrightarrow> is_initialized s \<or> handles_released s \<Longrightarrow> engine_sim view s s"
  by (auto simp: engine_sim_def engine_dead_def)

lemma engine_sim_rows: "engine_sim view s t \<Longrightarrow> stored_rows view s = stored_rows view t"
  by (simp add: engine_sim_def split: if_splits)

lemma handles_released_log [simp]: "handles_released (log_msg l f a s) = handles_released s"
  by (simp add: handles_released_def)

lemma batch_section_released:
  assumes "close_laws api view" "handles_released s" "batch_section api ds s = (ok, s')"
  shows "\<not> ok \<and> stored_rows view s' = stored_rows view s"
proof -
  have null: "db s = None"
    using assms(2) by (simp add: handles_released_def)
  obtain rc err w where run: "sq_exec api None ''BEGIN TRANSACTION;'' (ext s) = (rc, err, w)"
    by (cases "sq_exec api None ''BEGIN TRANSACTION;'' (ext s)")
  have "rc \<noteq> SQLITE_OK" "view w = view (ext s)"
    using assms(1) run unfolding close_laws_def by metis+
  then show ?thesis
    using assms(3) run null by (auto simp: batch_section_def run_exec_def stored_rows_def)
qed

lemma only_world_dead:
  "only_world s s' \<Longrightarrow> engine_dead s' = engine_dead s \<and> handles_released s' = handles_released s"
  by (simp add: engine_dead_def handles_released_def only_world_fields)

lemma batch_begin_released:
  assumes "close_laws api view" "handles_released s" "run_exec api sql s = (rc, err, s1)"
  shows "rc \<noteq> SQLITE_OK"
proof -
  obtain w where "sq_exec api None sql (ext s) = (rc, err, w)"
    using assms(2,3) by (auto simp: run_exec_def handles_released_def split: prod.splits)
  then show ?thesis
    using assms(1) unfolding close_laws_def by metis
qed

lemma locked_section_frame:
  assumes "locked_section api c s = Some (ok, s')"
  shows "only_world s s' \<or> c = Cmd_Close \<and> s' = close_engine api s"
  using assms
  by (cases c) (auto dest: insert_section_frame batch_section_frame split: if_splits prod.splits)

lemma locked_section_released:
  assumes "close_laws api view" "handles_released s" "engine_dead s" "c \<noteq> Cmd_Init"
    and "locked_section api c s = Some (ok, s')"
  shows "engine_dead s' \<and> handles_released s' \<and> stored_rows view s' = stored_rows view s \<and>
         (reads_nothing c = None \<longrightarrow> \<not> ok)"
proof (cases c)
  case (Cmd_Insert d)
  then show ?thesis
    using assms(2,5) by (simp add: handles_released_def)
next
  case (Cmd_Batch ds)
  then have run: "batch_section api ds s = (ok, s')"
    using assms(5) by (auto split: prod.splits if_splits)
  then show ?thesis
    using assms Cmd_Batch batch_section_released [OF assms(1,2) run]
      only_world_dead [OF batch_section_frame [OF run]] by simp
next
  case Cmd_Close
  then show ?thesis
    using assms close_engine_dead [of s api] close_engine_released [OF assms(2)]
    by (auto simp: engine_dead_def handles_released_def stored_rows_def)
qed (use assms in auto)

text \<open>On a live engine a section is the whole sequential call.\<close>

lemma locked_section_live:
  assumes "init_done s" "is_initialized s" "c \<noteq> Cmd_Batch []" "locked_section api c s = Some (ok, s')"
  shows "store_cmd_run api c s = (ok, s')"
  using assms
  by (cases c)
    (auto simp: init_engine_def ensure_initialized_def insert_telemetry_def insert_batch_def
      query_telemetry_def purge_older_than_def split: if_splits prod.splits)

lemma locked_section_sim:
  assumes "init_done s" "is_initialized s" "locked_section api c s = Some (ok, s')"
  shows "engine_sim view s' s'"
proof -
  consider "only_world s s'" | "s' = close_engine api s"
    using locked_section_frame [OF assms(3)] by blast
  then show ?thesis
  proof cases
    case 1
    then show ?thesis
      using assms only_world_fields [OF 1] by (simp add: engine_sim_refl)
  next
    case 2
    then show ?thesis
      using assms by (auto intro!: engine_sim_refl simp: handles_released_def)
  qed
qed

lemma dead_cmd_sim:
  assumes "close_laws api view" "\<not> is_initialized s" "engine_sim view s t"
    and "engine_dead s'" "handles_released s'" "stored_rows view s' = stored_rows view s"
  shows "\<exists>t'. store_cmd_run api c t = (False, t') \<and> engine_sim view s' t'"
proof -
  have t: "engine_dead t" "handles_released t" "stored_rows view t = stored_rows view s"
    using assms(2,3) by (simp_all add: engine_sim_def)
  obtain ok t' where run: "store_cmd_run api c t = (ok, t')"
    by (cases "store_cmd_run api c t")
  note dead = dead_cmd [OF t(1,2) run]
  then have "engine_sim view s' t'"
    using assms(4-6) t(3) by (simp add: engine_sim_def stored_rows_def engine_dead_def)
  with run dead show ?thesis
    by auto
qed

lemma section_sim:
  assumes laws: "close_laws api view" and valid: "c \<noteq> Cmd_Init" "c \<noteq> Cmd_Batch []"
    and sim: "engine_sim view s t" and lock: "locked_section api c s = Some (ok, s')"
  shows "\<exists>t'. store_history api (map fst (call_point (Call_Section c) (Call_Done ok))) t =
                (map snd (call_point (Call_Section c) (Call_Done ok)), t') \<and>
              engine_sim view s' t'"
proof (cases "is_initialized s")
  case True
  then have t: "t = s" "init_done s"
    using sim by (simp_all add: engine_sim_def)
  show ?thesis
  proof (cases "reads_nothing c")
    case None
    then show ?thesis
      using locked_section_live [OF t(2) True valid(2) lock] locked_section_sim [OF t(2) True lock] t(1)
      by auto
  next
    case (Some b)
    then have "s' = s"
      using lock by (cases c) auto
    then show ?thesis
      using Some sim by simp
  qed
next
  case False
  then have dead: "engine_dead s" "handles_released s"
    using sim by (simp_all add: engine_sim_def)
  note rel = locked_section_released [OF laws dead(2,1) valid(1) lock]
  show ?thesis
  proof (cases "reads_nothing c")
    case None
    then show ?thesis
      using rel dead_cmd_sim [OF laws False sim, of s' c] by auto
  next
    case (Some b)
    then show ?thesis
      using rel sim False by (auto simp: engine_sim_def engine_dead_def)
  qed
qed

text \<open>One step of one thread: the sequential engine runs the call when the step is its point.\<close>

lemma call_step_sim:
  assumes laws: "close_laws api view" and valid: "pc_valid c pc" and sim: "engine_sim view s t"
    and run: "call_step api (pc, s) = (pc', s')"
  shows "\<exists>t'. store_history api (map fst (call_point pc pc')) t = (map snd (call_point pc pc'), t') \<and>
              engine_sim view s' t'"
proof (cases pc)
  case (Call_Ensure c')
  then show ?thesis
    using run sim by (auto simp: ensure_initialized_def engine_sim_def engine_dead_def split: if_splits)
next
  case (Call_Done ok)
  then show ?thesis
    using run sim by auto
next
  case (Call_Test c')
  show ?thesis
  proof (cases "is_initialized s")
    case True
    then have "t = s" "init_done s"
      using sim by (simp_all add: engine_sim_def)
    then show ?thesis
      using True Call_Test run sim
      by (cases c') (auto simp: init_engine_def insert_batch_def query_telemetry_def
          purge_older_than_def ensure_initialized_def split: if_splits)
  next
    case False
    then have dead: "engine_dead s" "handles_released s"
      using sim by (simp_all add: engine_sim_def)
    have "c' \<noteq> Cmd_Close"
      using valid Call_Test by auto
    then have "pc' = Call_Done False" "s' = s \<or> (\<exists>l f a. s' = log_msg l f a s)"
      using False Call_Test run by (cases c'; auto)+
    moreover from this have "engine_dead s'" "handles_released s'" "stored_rows view s' = stored_rows view s"
      using dead by auto
    ultimately show ?thesis
      using dead_cmd_sim [OF laws False sim, of s' c'] Call_Test by auto
  qed
next
  case Call_Crashed
  then show ?thesis
    using run sim by auto
next
  case (Call_Section c')
  have valid': "c' \<noteq> Cmd_Init" "c' \<noteq> Cmd_Batch []"
    using valid Call_Section by auto
  consider "pc' = Call_Crashed" "s' = s"
    | ok where "locked_section api c' s = Some (ok, s')" "pc' = Call_Done ok"
    using run Call_Section by (auto split: option.splits prod.splits)
  then show ?thesis
    using Call_Section sim section_sim [OF laws valid' sim] by cases auto
qed

lemma store_history_append:
  "store_history api (cs @ cs') t =
     (let (oks, t') = store_history api cs t; (oks', t'') = store_history api cs' t'
      in (oks @ oks', t''))"
  by (induction cs arbitrary: t) (auto simp: Let_def split: prod.splits)

definition history_sim ::
  "('w, 'h, 's) store_api \<Rightarrow> ('w \<Rightarrow> ('h, 's) db_view) \<Rightarrow> ('w, 'h, 's, 'm) storage_scheme \<Rightarrow>
   call_history \<Rightarrow> ('w, 'h, 's, 'm) storage_scheme \<Rightarrow> bool" where
  \<comment> \<open>running the calls of the history from \<open>s0\<close> gives their answers and a simulating engine\<close>
  "history_sim api view s0 es s \<longleftrightarrow>
     (\<exists>t. store_history api (map (fst \<circ> snd) es) s0 = (map (snd \<circ> snd) es, t) \<and> engine_sim view s t)"

lemma schedule_step_sim:
  assumes laws: "close_laws api view" and inv: "threads_inv cs es ts" "history_sim api view s0 es s"
    and run: "schedule_step api i (es, ts, s) = (es', ts', s')"
  shows "history_sim api view s0 es' s'"
proof (cases "i < length ts \<and> Call_Crashed \<notin> set ts")
  case False
  then show ?thesis using inv run by auto
next
  case True
  obtain pc where c: "call_step api (ts ! i, s) = (pc, s')" and es': "es' = es @ map (Pair i) (call_point (ts ! i) pc)"
    using run True by (auto simp: Let_def split: prod.splits)
  obtain t where t: "store_history api (map (fst \<circ> snd) es) s0 = (map (snd \<circ> snd) es, t)" "engine_sim view s t"
    using inv(2) by (auto simp: history_sim_def)
  have "pc_valid (cs ! i) (ts ! i)"
    using inv(1) True by (simp add: threads_inv_def)
  from call_step_sim [OF laws this t(2) c] obtain t' where
    "store_history api (map fst (call_point (ts ! i) pc)) t = (map snd (call_point (ts ! i) pc), t')"
    "engine_sim view s' t'" by blast
  then show ?thesis
    unfolding history_sim_def es' by (simp add: t(1) [unfolded comp_def] store_history_append comp_def)
qed

lemma threads_run_sim:
  assumes "close_laws api view"
  shows "threads_inv cs es ts \<Longrightarrow> history_sim api view s0 es s \<Longrightarrow>
    threads_run api schedule (es, ts, s) = (es', ts', s') \<Longrightarrow>
    threads_inv cs es' ts' \<and> history_sim api view s0 es' s'"
proof (induction schedule arbitrary: es ts s)
  case Nil
  then show ?case by (simp add: threads_run_def)
next
  case (Cons i schedule)
  obtain es1 ts1 s1 where step: "schedule_step api i (es, ts, s) = (es1, ts1, s1)"
    by (cases "schedule_step api i (es, ts, s)")
  have "threads_run api schedule (es1, ts1, s1) = (es', ts', s')"
    using Cons.prems(3) step by (simp add: threads_run_def)
  then show ?case
    using Cons.IH schedule_step_tracks [OF Cons.prems(1) step]
      schedule_step_sim [OF assms Cons.prems(1,2) step] by blast
qed

section \<open>When an execution crashes\<close>

definition closed_in :: "call_history \<Rightarrow> bool" where
  "closed_in es \<longleftrightarrow> Cmd_Close \<in> set (map (fst \<circ> snd) es)"

lemma closed_in_append [simp]: "closed_in (es @ fs) \<longleftrightarrow> closed_in es \<or> closed_in fs"
  by (auto simp: closed_in_def)

definition crash_inv ::
  "store_cmd list \<Rightarrow> call_history \<Rightarrow> call_pc list \<Rightarrow> ('w, 'h, 's, 'm) storage_scheme \<Rightarrow> bool" where
  \<comment> \<open>the flag is set beside a statement; a thread that waits for the mutex to insert has seen the flag
      set, so when it is not, a close has come between; only such an insert crashes\<close>
  "crash_inv cs es ts s \<longleftrightarrow>
     init_done s \<and> stmt_live s \<and> (is_initialized s \<or> handles_released s) \<and>
     (\<forall>i<length ts. (\<exists>d. ts ! i = Call_Section (Cmd_Insert d)) \<longrightarrow> is_initialized s \<or> closed_in es) \<and>
     (\<forall>i<length ts. ts ! i = Call_Crashed \<longrightarrow> (\<exists>d. cs ! i = Cmd_Insert d) \<and> closed_in es)"

lemma stmt_live_only_world: "only_world s s' \<Longrightarrow> stmt_live s' = stmt_live s"
  by (simp add: stmt_live_def only_world_fields)

lemma flag_test_frame: "flag_test c s = (pc, s') \<Longrightarrow> only_world s s'"
  by (cases c) (auto split: if_splits intro: only_world_log)

lemma flag_test_insert: "flag_test c s = (Call_Section (Cmd_Insert d), s') \<Longrightarrow> is_initialized s"
  by (cases c) (auto split: if_splits)

lemma flag_test_no_crash: "flag_test c s = (pc, s') \<Longrightarrow> pc \<noteq> Call_Crashed"
  by (cases c) (auto split: if_splits)

lemma section_crashes:
  assumes "close_laws api view" "stmt_live s" "is_initialized s \<or> handles_released s"
    and "locked_section api c s = None"
  shows "(\<exists>d. c = Cmd_Insert d) \<and> \<not> is_initialized s"
proof -
  have null: "insert_stmt s = None"
    using locked_section_total [of s api c] assms(4) by blast
  then have "\<not> is_initialized s" "handles_released s"
    using assms(2,3) by (auto simp: stmt_live_def)
  then show ?thesis
    using assms(4) batch_begin_released [OF assms(1), of s]
    by (cases c) (auto split: prod.splits if_splits)
qed

text \<open>What a step does to the flag and the handles.\<close>

lemma call_step_flag:
  assumes laws: "close_laws api view"
    and inv: "init_done s" "stmt_live s" "is_initialized s \<or> handles_released s"
    and valid: "pc_valid c pc" and run: "call_step api (pc, s) = (pc', s')"
  shows "init_done s' \<and> stmt_live s' \<and> (is_initialized s' \<or> handles_released s') \<and>
    (is_initialized s \<longrightarrow> is_initialized s' \<or> closed_in (map (Pair i) (call_point pc pc'))) \<and>
    (\<forall>d. pc' = Call_Section (Cmd_Insert d) \<longrightarrow> is_initialized s') \<and>
    (pc' = Call_Crashed \<longrightarrow> pc = Call_Crashed \<or> \<not> is_initialized s \<and> (\<exists>d. c = Cmd_Insert d \<and> pc = Call_Section c))"
proof (cases pc)
  case (Call_Ensure c')
  then show ?thesis
    using run inv by (auto simp: ensure_initialized_def)
next
  case (Call_Test c')
  then have flag: "flag_test c' s = (pc', s')"
    using run by simp
  note frame = flag_test_frame [OF flag]
  show ?thesis
    using inv Call_Test flag only_world_fields [OF frame] stmt_live_only_world [OF frame]
      flag_test_insert [of c' s _ s'] flag_test_no_crash [OF flag]
    by (auto simp: handles_released_def)
next
  case (Call_Section c')
  have c': "c' = c"
    using valid Call_Section by simp
  consider "locked_section api c s = None" "pc' = Call_Crashed" "s' = s"
    | ok where "locked_section api c s = Some (ok, s')" "pc' = Call_Done ok"
    using run Call_Section c' by (auto split: option.splits prod.splits)
  then show ?thesis
  proof cases
    case 1
    then show ?thesis
      using section_crashes [OF laws inv(2,3) 1(1)] inv Call_Section c' by auto
  next
    case (2 ok)
    from locked_section_frame [OF 2(1)] show ?thesis
    proof (elim disjE conjE)
      assume frame: "only_world s s'"
      then show ?thesis
        using inv 2 only_world_fields [OF frame] stmt_live_only_world [OF frame]
        by (auto simp: handles_released_def)
    next
      assume "c = Cmd_Close" "s' = close_engine api s"
      then show ?thesis
        using inv 2 Call_Section c' by (auto simp: stmt_live_def handles_released_def closed_in_def)
    qed
  qed
qed (use run inv in \<open>auto simp: ensure_initialized_def\<close>)

lemma schedule_step_crash:
  assumes laws: "close_laws api view" and inv: "threads_inv cs es ts" "crash_inv cs es ts s"
    and run: "schedule_step api i (es, ts, s) = (es', ts', s')"
  shows "crash_inv cs es' ts' s'"
proof (cases "i < length ts \<and> Call_Crashed \<notin> set ts")
  case False
  then show ?thesis using inv run by auto
next
  case True
  obtain pc where c: "call_step api (ts ! i, s) = (pc, s')" and es': "es' = es @ map (Pair i) (call_point (ts ! i) pc)"
    and ts': "ts' = ts[i := pc]"
    using run True by (auto simp: Let_def split: prod.splits)
  have valid: "pc_valid (cs ! i) (ts ! i)"
    using inv(1) True by (simp add: threads_inv_def)
  have s: "init_done s" "stmt_live s" "is_initialized s \<or> handles_released s"
    using inv(2) by (simp_all add: crash_inv_def)
  note step = call_step_flag [OF laws s valid c, of i]
  have old: "is_initialized s \<or> closed_in es" if "j < length ts" "\<exists>d. ts ! j = Call_Section (Cmd_Insert d)" for j
    using inv(2) that by (simp add: crash_inv_def)
  have alive: "ts ! j \<noteq> Call_Crashed" if "j < length ts" for j
    using True that nth_mem [of j ts] by metis
  show ?thesis
    unfolding crash_inv_def
  proof (intro conjI allI impI)
    show "init_done s'" "stmt_live s'" "is_initialized s' \<or> handles_released s'"
      using step by blast+
  next
    fix j
    assume "j < length ts'" "\<exists>d. ts' ! j = Call_Section (Cmd_Insert d)"
    then show "is_initialized s' \<or> closed_in es'"
      using step old unfolding es' ts' by (cases "j = i") auto
  next
    fix j
    assume j: "j < length ts'" "ts' ! j = Call_Crashed"
    then have "j = i" "pc = Call_Crashed"
      using alive unfolding ts' by (cases "j = i"; force)+
    then obtain d where "cs ! i = Cmd_Insert d" "ts ! i = Call_Section (Cmd_Insert d)" "\<not> is_initialized s"
      using step alive [of i] True by auto
    then show "\<exists>d. cs ! j = Cmd_Insert d" "closed_in es'"
      using old [of i] True \<open>j = i\<close> unfolding es' by auto
  qed
qed

lemma threads_run_crash:
  assumes "close_laws api view"
  shows "threads_inv cs es ts \<Longrightarrow> crash_inv cs es ts s \<Longrightarrow>
    threads_run api schedule (es, ts, s) = (es', ts', s') \<Longrightarrow> crash_inv cs es' ts' s'"
proof (induction schedule arbitrary: es ts s)
  case Nil
  then show ?case by (simp add: threads_run_def)
next
  case (Cons i schedule)
  obtain es1 ts1 s1 where step: "schedule_step api i (es, ts, s) = (es1, ts1, s1)"
    by (cases "schedule_step api i (es, ts, s)")
  have "threads_run api schedule (es1, ts1, s1) = (es', ts', s')"
    using Cons.prems(3) step by (simp add: threads_run_def)
  then show ?case
    using Cons.IH schedule_step_tracks [OF Cons.prems(1) step]
      schedule_step_crash [OF assms Cons.prems(1,2) step] by blast
qed

lemma crash_inv_start:
  assumes "init_done s" "stmt_live s" "is_initialized s \<or> handles_released s"
  shows "crash_inv cs [] (map call_start cs) s"
proof -
  have "call_start c \<noteq> Call_Section (Cmd_Insert d)" "call_start c \<noteq> Call_Crashed" for c d
    by (cases c; simp)+
  then show ?thesis
    using assms by (simp add: crash_inv_def)
qed

end
