(* ===== verification/Concurrency_Properties.thy ===== *)
theory Concurrency_Properties
  imports Storage_Threads Storage_Properties
begin

text \<open>
  The properties of the storage engine under concurrent calls: every execution on an initialised engine
  is one of the sequential ones until it crashes; the executions that crash, in which a \<^verbatim>\<open>close()\<close> comes
  between the test of the flag by an insert and its section; and the one that is not linearizable, in
  which the \<^verbatim>\<open>close()\<close> comes between the initialisation of the first call and its test of the flag.
\<close>

section \<open>Linearisation\<close>

text \<open>C11. The engine is linearizable until it crashes: whatever calls (init, insert, batch, query, purge,
  close) run concurrently on an initialised, or already closed, engine, and however their steps
  interleave, there is at every moment an order of the calls, in which each stands at a step of its own,
  such that the sequential operations run in this order from the same state give the same answers and
  leave the same rows, and the very same state while the engine is open. Every call that has returned
  stands in the order once, with the answer it returned. A thread can only crash in an insert, and only
  when a close stands in the order already.\<close>

theorem storage_linearizable:
  assumes "sqlite_laws api view" and "init_done s" and "stmt_live s"
    and "is_initialized s \<or> handles_released s"
    and "threads_run api schedule ([], map call_start cs, s) = (es, ts, s')"
  shows "(\<exists>t. store_history api (map (fst \<circ> snd) es) s = (map (snd \<circ> snd) es, t) \<and>
              stored_rows view s' = stored_rows view t \<and>
              is_initialized s' = is_initialized t \<and> (is_initialized s' \<longrightarrow> s' = t)) \<and>
         (\<forall>i<length cs. \<forall>ok. ts ! i = Call_Done ok \<longrightarrow> calls_of es i = [(cs ! i, ok)]) \<and>
         (\<forall>i<length cs. ts ! i = Call_Crashed \<longrightarrow>
            (\<exists>d. cs ! i = Cmd_Insert d) \<and> (\<exists>j ok. (j, Cmd_Close, ok) \<in> set es))"
proof -
  have close: "close_laws api view"
    using assms(1) by (simp add: sqlite_laws_def)
  have "history_sim api view s [] s"
    using assms(2,4) by (simp add: history_sim_def engine_sim_refl)
  from threads_run_sim [OF close threads_inv_start this assms(5)]
  have inv: "threads_inv cs es ts" and sim: "history_sim api view s es s'"
    by simp_all
  from sim obtain t where t: "store_history api (map (fst \<circ> snd) es) s = (map (snd \<circ> snd) es, t)"
    "engine_sim view s' t"
    by (auto simp: history_sim_def)
  have "crash_inv cs es ts s'"
    by (rule threads_run_crash [OF close threads_inv_start crash_inv_start [OF assms(2-4)] assms(5)])
  then have crashed: "\<forall>i<length ts. ts ! i = Call_Crashed \<longrightarrow> (\<exists>d. cs ! i = Cmd_Insert d) \<and> closed_in es"
    unfolding crash_inv_def by (elim conjE)
  have "closed_in es \<longleftrightarrow> (\<exists>j ok. (j, Cmd_Close, ok) \<in> set es)"
    unfolding closed_in_def by force
  then have "\<forall>i<length cs. ts ! i = Call_Crashed \<longrightarrow>
      (\<exists>d. cs ! i = Cmd_Insert d) \<and> (\<exists>j ok. (j, Cmd_Close, ok) \<in> set es)"
    using crashed inv unfolding threads_inv_def by metis
  moreover have "\<forall>i<length cs. \<forall>ok. ts ! i = Call_Done ok \<longrightarrow> calls_of es i = [(cs ! i, ok)]"
    using inv by (simp add: threads_inv_def)
  moreover have "stored_rows view s' = stored_rows view t \<and> is_initialized s' = is_initialized t \<and>
      (is_initialized s' \<longrightarrow> s' = t)"
  proof (cases "is_initialized s'")
    case True
    then have "t = s'"
      using t(2) by (simp add: engine_sim_def)
    then show ?thesis
      by simp
  next
    case False
    then show ?thesis
      using t(2) by (simp add: engine_sim_def engine_dead_def)
  qed
  ultimately show ?thesis
    using t(1) by blast
qed

lemma demo_ready_run:
  "\<exists>s'. threads_run (demo_store False False ''mallory'') [0, 1, 0, 2, 1, 0, 2]
     ([], map call_start [Cmd_Insert (demo_frame ''amr_01''), Cmd_Close], demo_engine) =
     ([(1, Cmd_Close, False), (0, Cmd_Insert (demo_frame ''amr_01''), False)],
      [Call_Done False, Call_Done False], s')"
  by (simp add: threads_run_def ensure_initialized_def demo_engine_def Let_def close_engine_def
      close_internal_def insert_section_def write_row_def demo_store_def SQLITE_DONE_def log_msg_def)

theorem storage_linearizable_witness:
  "\<exists>s'. threads_run (demo_store False False ''mallory'') [0, 1, 0, 2, 1, 0, 2]
     ([], map call_start [Cmd_Insert (demo_frame ''amr_01''), Cmd_Close], demo_engine) =
     ([(1, Cmd_Close, False), (0, Cmd_Insert (demo_frame ''amr_01''), False)],
      [Call_Done False, Call_Done False], s') \<and>
     stored_rows demo_view s' =
       stored_rows demo_view (snd (store_history (demo_store False False ''mallory'')
         [Cmd_Close, Cmd_Insert (demo_frame ''amr_01'')] demo_engine))"
proof -
  let ?api = "demo_store False False ''mallory''"
  obtain s' where run: "threads_run ?api [0, 1, 0, 2, 1, 0, 2]
     ([], map call_start [Cmd_Insert (demo_frame ''amr_01''), Cmd_Close], demo_engine) =
     ([(1, Cmd_Close, False), (0, Cmd_Insert (demo_frame ''amr_01''), False)],
      [Call_Done False, Call_Done False], s')"
    using demo_ready_run by blast
  have live: "init_done demo_engine" "stmt_live demo_engine"
    "is_initialized demo_engine \<or> handles_released demo_engine"
    by (simp_all add: demo_engine_def stmt_live_def)
  obtain t where t: "store_history ?api [Cmd_Close, Cmd_Insert (demo_frame ''amr_01'')] demo_engine =
      ([False, False], t)" "stored_rows demo_view s' = stored_rows demo_view t"
    using storage_linearizable [OF demo_sqlite_laws live run] by auto
  show ?thesis
    using run t by (intro exI [of _ s']) simp
qed

section \<open>The executions that crash\<close>

lemma crashed_stuck:
  "Call_Crashed \<in> set ts \<Longrightarrow> threads_run api schedule (es, ts, s) = (es, ts, s)"
  by (induction schedule) (simp_all add: threads_run_def)

lemma call_start_alive: "Call_Crashed \<notin> set (map call_start cs)"
proof -
  have "Call_Crashed \<noteq> call_start c" for c
    by (cases c) simp_all
  then show ?thesis
    by (simp add: image_iff)
qed

lemma update_alive: "Call_Crashed \<notin> set ts \<Longrightarrow> pc \<noteq> Call_Crashed \<Longrightarrow> Call_Crashed \<notin> set (ts[i := pc])"
  using set_update_subset_insert [of ts i pc] by auto

text \<open>C27. The engine is not safe against a close: on any ready engine, when another thread's close comes
  between an insert's test of the flag and its section, the section runs on the null statement that the
  close has left, which is undefined behaviour; the rows are those of before, and no thread takes
  another step. In neither order of the two calls does anything like it happen: the insert would have
  been answered before the close, or refused after it.\<close>

theorem insert_after_close_crashes:
  assumes "engine_ready view s"
    and "i < length cs" and "j < length cs" and "cs ! i = Cmd_Insert d" and "cs ! j = Cmd_Close"
  shows "\<exists>ts. ts ! i = Call_Crashed \<and>
           (\<forall>later. threads_run api ([i, i, j, i] @ later) ([], map call_start cs, s) =
              ([(j, Cmd_Close, False)], ts, close_engine api s)) \<and>
           (\<exists>ok. fst (store_history api [Cmd_Insert d, Cmd_Close] s) = [ok, False]) \<and>
           fst (store_history api [Cmd_Close, Cmd_Insert d] s) = [False, False]"
proof -
  have ready: "ensure_initialized api s = s" "is_initialized s" "init_done s"
    using assms(1) by (simp_all add: ensure_initialized_def engine_ready_def)
  have ij: "i \<noteq> j"
    using assms(4,5) by auto
  let ?ts0 = "map call_start cs"
  let ?ts1 = "?ts0[i := Call_Test (Cmd_Insert d)]"
  let ?ts2 = "?ts1[i := Call_Section (Cmd_Insert d)]"
  let ?ts3 = "?ts2[j := Call_Done False]"
  let ?ts4 = "?ts3[i := Call_Crashed]"
  have alive: "Call_Crashed \<notin> set ?ts0" "Call_Crashed \<notin> set ?ts1" "Call_Crashed \<notin> set ?ts2"
    "Call_Crashed \<notin> set ?ts3"
    by (intro update_alive call_start_alive; simp)+
  have "schedule_step api i ([], ?ts0, s) = ([], ?ts1, s)"
    using assms(2,4) alive(1) ready by simp
  moreover have "schedule_step api i ([], ?ts1, s) = ([], ?ts2, s)"
    using assms(2) alive(2) ready by simp
  moreover have "schedule_step api j ([], ?ts2, s) = ([(j, Cmd_Close, False)], ?ts3, close_engine api s)"
    using assms(3,5) alive(3) ij by simp
  moreover have "schedule_step api i ([(j, Cmd_Close, False)], ?ts3, close_engine api s) =
      ([(j, Cmd_Close, False)], ?ts4, close_engine api s)"
    using assms(2) alive(4) ij by simp
  ultimately have "threads_run api ([i, i, j, i] @ later) ([], ?ts0, s) =
      threads_run api later ([(j, Cmd_Close, False)], ?ts4, close_engine api s)" for later
    by (simp only: threads_run_def append_Cons append_Nil fold_Cons comp_apply)
  moreover have "?ts4 ! i = Call_Crashed"
    using assms(2) by simp
  moreover from this have "Call_Crashed \<in> set ?ts4"
    using assms(2) by (metis length_list_update length_map nth_mem)
  moreover have "\<exists>ok. fst (store_history api [Cmd_Insert d, Cmd_Close] s) = [ok, False]"
    by (simp add: Let_def case_prod_beta)
  moreover have "fst (store_history api [Cmd_Close, Cmd_Insert d] s) = [False, False]"
    using dead_operations(2) [OF close_engine_dead [OF ready(3)]] by (simp add: Let_def)
  ultimately show ?thesis
    by (intro exI [of _ ?ts4] conjI allI) (simp_all only: crashed_stuck)
qed

theorem insert_after_close_crashes_witness:
  "\<exists>es ts s'. threads_run (demo_store False False ''mallory'') [0, 0, 1, 0]
     ([], map call_start [Cmd_Insert (demo_frame ''amr_01''), Cmd_Close], demo_engine) = (es, ts, s') \<and>
     ts ! 0 = Call_Crashed \<and> es = [(1, Cmd_Close, False)]"
proof -
  let ?cs = "[Cmd_Insert (demo_frame ''amr_01''), Cmd_Close]"
  have "engine_ready demo_view demo_engine"
    using demo_engine_inv by (simp add: store_inv_def)
  moreover have "0 < length ?cs" "1 < length ?cs" "?cs ! 0 = Cmd_Insert (demo_frame ''amr_01'')" "?cs ! 1 = Cmd_Close"
    by simp_all
  ultimately obtain ts where "ts ! 0 = Call_Crashed"
    "\<forall>later. threads_run (demo_store False False ''mallory'') ([0, 0, 1, 0] @ later)
       ([], map call_start ?cs, demo_engine) =
     ([(1, Cmd_Close, False)], ts, close_engine (demo_store False False ''mallory'') demo_engine)"
    using insert_after_close_crashes [where i = 0 and j = 1 and api = "demo_store False False ''mallory''"]
    by blast
  from this(1) spec [OF this(2), of "[]"] show ?thesis
    unfolding append_Nil2 by blast
qed

section \<open>The execution that is not linearizable\<close>

text \<open>C28. Before the first call has returned the engine is not linearizable: when the very first call is
  an insert that SQLite would accept, and another thread's close comes between its initialisation,
  which succeeds, and its test of the flag, the insert reports that the initialisation failed and
  stores nothing. In neither order of the two calls does the insert fail.\<close>

theorem close_during_first_call:
  assumes "insert_telemetry api d (storage_new path e) = (True, s1)"
  shows "threads_run api [0, 1, 0] ([], map call_start [Cmd_Insert d, Cmd_Close], storage_new path e) =
           ([(1, Cmd_Close, False), (0, Cmd_Insert d, False)], [Call_Done False, Call_Done False],
            log_msg Error
              ''StorageEngine: Cannot insert telemetry; database connection initialization failed.'' []
              (close_engine api (snd (init_engine api (storage_new path e))))) \<and>
         fst (init_engine api (storage_new path e)) \<and>
         fst (store_history api [Cmd_Insert d, Cmd_Close] (storage_new path e)) = [True, False] \<and>
         fst (store_history api [Cmd_Close, Cmd_Insert d] (storage_new path e)) = [False, True]"
proof -
  let ?s = "storage_new path e"
  have "close_engine api ?s = ?s"
    by (simp add: close_engine_def close_internal_def storage_new_def storage.defs env.defs)
  moreover have "is_initialized (ensure_initialized api ?s)"
    using assms by (auto simp: insert_telemetry_def Let_def split: if_splits)
  ultimately show ?thesis
    using assms by (simp add: threads_run_def init_engine_def Let_def)
qed

lemma demo_first_insert:
  "fst (insert_telemetry (demo_store False False ''mallory'') (demo_frame ''amr_01'')
     (storage_new ''t.db'' demo_world))"
  by (simp add: insert_telemetry_def ensure_initialized_def init_internal_def open_database_def
      enable_wal_mode_def create_schema_def prepare_insert_def run_exec_def schema_sql_def
      insert_section_def write_row_def demo_store_def demo_exec_def demo_step_def SQLITE_OK_def
      SQLITE_DONE_def storage_new_def storage.defs env.defs Let_def demo_frame_def c_str_def demo_world_def
      parent_path_def log_msg_def)

theorem close_during_first_call_witness:
  "fst (snd (threads_run (demo_store False False ''mallory'') [0, 1, 0]
     ([], map call_start [Cmd_Insert (demo_frame ''amr_01''), Cmd_Close], storage_new ''t.db'' demo_world))) =
     [Call_Done False, Call_Done False]"
proof -
  let ?api = "demo_store False False ''mallory''"
  let ?run = "insert_telemetry ?api (demo_frame ''amr_01'') (storage_new ''t.db'' demo_world)"
  have "?run = (True, snd ?run)"
    using demo_first_insert by (simp add: prod_eq_iff)
  from close_during_first_call [OF this] show ?thesis
    by simp
qed

end
