(* ===== verification/Security_Engine.thy ===== *)
theory Security_Engine
  imports Floating_Point
begin

text \<open>
  \<^verbatim>\<open>security::SecurityEngine\<close> (security/security_engine.hpp, security_engine.cpp): AES-256-GCM through
  OpenSSL's EVP interface, the random bytes for keys and nonces, and the rate limiter.

  OpenSSL is a parameter: \<open>evp_api\<close> has one function per EVP call the source makes, on opaque contexts
  \<open>'c\<close> and the opaque world \<open>'w\<close>. A call that fills a buffer returns the bytes it writes and the value
  it leaves in \<^verbatim>\<open>*outl\<close> (it is given the value \<^verbatim>\<open>len\<close> has before the call, so a failing call can leave it
  alone). The source looks at no return value but that of \<^verbatim>\<open>EVP_DecryptFinal_ex\<close>, and neither does the
  model. The result \<open>None\<close> of an operation is undefined behaviour or a thrown \<^verbatim>\<open>std::length_error\<close>:
  a write outside the vector, or a resize to a negative length; under the documented behaviour of the
  cipher it does not occur, as the lemmas show.
\<close>

section \<open>OpenSSL, as a parameter\<close>

record ('w, 'c) evp_api =
  evp_ctx_new :: "'w \<Rightarrow> 'c option \<times> 'w"
  evp_ctx_free :: "'c \<Rightarrow> 'w \<Rightarrow> 'w"
  evp_enc_init_cipher :: "'c \<Rightarrow> 'c"
  evp_dec_init_cipher :: "'c \<Rightarrow> 'c"
  evp_set_ivlen :: "int \<Rightarrow> 'c \<Rightarrow> 'c"
  evp_enc_init_key :: "bytes \<Rightarrow> bytes \<Rightarrow> 'c \<Rightarrow> 'c"
  evp_dec_init_key :: "bytes \<Rightarrow> bytes \<Rightarrow> 'c \<Rightarrow> 'c"
  evp_enc_update :: "int \<Rightarrow> bytes \<Rightarrow> int \<Rightarrow> 'c \<Rightarrow> bytes \<times> int \<times> 'c"
  evp_dec_update :: "int \<Rightarrow> bytes \<Rightarrow> int \<Rightarrow> 'c \<Rightarrow> bytes \<times> int \<times> 'c"
  evp_enc_final :: "int \<Rightarrow> 'c \<Rightarrow> bytes \<times> int \<times> 'c"
  evp_get_tag :: "int \<Rightarrow> 'c \<Rightarrow> bytes \<times> 'c"
  evp_set_tag :: "int \<Rightarrow> bytes \<Rightarrow> 'c \<Rightarrow> 'c"
  evp_dec_final :: "int \<Rightarrow> 'c \<Rightarrow> int \<times> bytes \<times> int \<times> 'c"
  rand_bytes :: "int \<Rightarrow> 'w \<Rightarrow> int \<times> bytes \<times> 'w"

text \<open>
  What OpenSSL documents of AES-256-GCM, for a key of 32 bytes, a nonce of 12 bytes and data whose
  length fits an \<open>int\<close>. \<open>seal key iv pt\<close> stands for the ciphertext and the tag of \<open>pt\<close>, \<open>unseal\<close> for
  the decryption without the tag: the ciphertext has the length of the plaintext, the tag 16 bytes;
  the update call writes everything and the final call nothing; the final call of a decryption
  succeeds exactly when the tag that was set is the tag of the data.
\<close>

definition seal_laws ::
  "(bytes \<Rightarrow> bytes \<Rightarrow> bytes \<Rightarrow> bytes \<times> bytes) \<Rightarrow> (bytes \<Rightarrow> bytes \<Rightarrow> bytes \<Rightarrow> bytes) \<Rightarrow> bool" where
  "seal_laws seal unseal \<longleftrightarrow>
     (\<forall>key iv pt. length (fst (seal key iv pt)) = length pt \<and> length (snd (seal key iv pt)) = 16 \<and>
                  unseal key iv (fst (seal key iv pt)) = pt) \<and>
     (\<forall>key iv ct. length (unseal key iv ct) = length ct)"

definition evp_encrypt_law ::
  "('w, 'c) evp_api \<Rightarrow> (bytes \<Rightarrow> bytes \<Rightarrow> bytes \<Rightarrow> bytes \<times> bytes) \<Rightarrow> bool" where
  "evp_encrypt_law api seal \<longleftrightarrow>
     (\<forall>c key iv pt. length key = 32 \<longrightarrow> length iv = 12 \<longrightarrow> length pt < 2 ^ 31 \<longrightarrow>
        (\<exists>c1 c2 c3.
           evp_enc_update api 0 pt (int (length pt))
             (evp_enc_init_key api key iv (evp_set_ivlen api 12 (evp_enc_init_cipher api c)))
             = (fst (seal key iv pt), int (length pt), c1) \<and>
           evp_enc_final api (int (length pt)) c1 = ([], 0, c2) \<and>
           evp_get_tag api 16 c2 = (snd (seal key iv pt), c3)))"

definition evp_decrypt_law ::
  "('w, 'c) evp_api \<Rightarrow> (bytes \<Rightarrow> bytes \<Rightarrow> bytes \<Rightarrow> bytes \<times> bytes) \<Rightarrow>
   (bytes \<Rightarrow> bytes \<Rightarrow> bytes \<Rightarrow> bytes) \<Rightarrow> bool" where
  "evp_decrypt_law api seal unseal \<longleftrightarrow>
     (\<forall>c key iv ct tag.
        length key = 32 \<longrightarrow> length iv = 12 \<longrightarrow> length tag = 16 \<longrightarrow> length ct < 2 ^ 31 \<longrightarrow>
        (\<exists>c1 c2 ret.
           evp_dec_update api 0 ct (int (length ct))
             (evp_dec_init_key api key iv (evp_set_ivlen api 12 (evp_dec_init_cipher api c)))
             = (unseal key iv ct, int (length ct), c1) \<and>
           evp_dec_final api (int (length ct)) (evp_set_tag api 16 tag c1) = (ret, [], 0, c2) \<and>
           (0 < ret \<longleftrightarrow> seal key iv (unseal key iv ct) = (ct, tag))))"

definition evp_gcm_laws ::
  "('w, 'c) evp_api \<Rightarrow> (bytes \<Rightarrow> bytes \<Rightarrow> bytes \<Rightarrow> bytes \<times> bytes) \<Rightarrow>
   (bytes \<Rightarrow> bytes \<Rightarrow> bytes \<Rightarrow> bytes) \<Rightarrow> bool" where
  "evp_gcm_laws api seal unseal \<longleftrightarrow>
     seal_laws seal unseal \<and> evp_encrypt_law api seal \<and> evp_decrypt_law api seal unseal"

section \<open>SecurityEngine\<close>

definition AES_256_KEY_SIZE :: nat where
  "AES_256_KEY_SIZE = 32"

definition GCM_IV_SIZE :: nat where
  "GCM_IV_SIZE = 12"

definition GCM_TAG_SIZE :: nat where
  "GCM_TAG_SIZE = 16"

record token_bucket =
  tokens :: double
  last_update :: int

record security_engine =
  buckets :: "(string \<times> token_bucket) list"

definition check_rate_limit ::
  "string \<Rightarrow> double \<Rightarrow> double \<Rightarrow> security_engine \<Rightarrow> bool \<times> security_engine" where
  \<comment> \<open>the stub: every argument is ignored, no bucket is read or written\<close>
  "check_rate_limit client_id max_requests_per_second burst_capacity se = (True, se)"

definition check_rate_limit_default ::
  "string \<Rightarrow> security_engine \<Rightarrow> bool \<times> security_engine" where
  \<comment> \<open>with the default arguments 500.0 and 1000.0\<close>
  "check_rate_limit_default client_id se =
     check_rate_limit client_id 0x407F400000000000 0x408F400000000000 se"

definition generate_secure_random_bytes ::
  "('w, 'c) evp_api \<Rightarrow> nat \<Rightarrow> ('w, 'm) env_scheme \<Rightarrow> (bytes \<times> ('w, 'm) env_scheme) option" where
  "generate_secure_random_bytes api n e =
     (let (rc, out, w) = rand_bytes api (int_of_size n) (ext e)
      in case buf_write (replicate n 0) 0 out of
           None \<Rightarrow> None
         | Some buffer \<Rightarrow> Some (buffer, e\<lparr>ext := w\<rparr>))"

definition encrypt_aes_gcm ::
  "('w, 'c) evp_api \<Rightarrow> bytes \<Rightarrow> bytes \<Rightarrow> bytes \<Rightarrow> bytes \<Rightarrow> bytes \<Rightarrow> ('w, 'm) env_scheme \<Rightarrow>
   (bool \<times> bytes \<times> bytes \<times> ('w, 'm) env_scheme) option" where
  \<comment> \<open>\<open>ciphertext\<close> and \<open>tag\<close> are the caller's vectors, returned as they are after the call\<close>
  "encrypt_aes_gcm api plaintext key iv ciphertext tag e =
     (if length key \<noteq> 32 \<or> length iv \<noteq> 12
      then Some (False, ciphertext, tag,
                 log_msg Error ''SecurityEngine: Encryption parameter size error'' [] e)
      else case evp_ctx_new api (ext e) of
        (None, w) \<Rightarrow> Some (False, ciphertext, tag, e\<lparr>ext := w\<rparr>)
      | (Some ctx, w) \<Rightarrow>
         let ciphertext = vec_resize (length plaintext) ciphertext;
             tag = vec_resize 16 tag;
             ctx = evp_enc_init_cipher api ctx;
             ctx = evp_set_ivlen api (int_of_size (length iv)) ctx;
             ctx = evp_enc_init_key api key iv ctx;
             (out, len, ctx) =
               evp_enc_update api 0 plaintext (int_of_size (length plaintext)) ctx
         in case buf_write ciphertext 0 out of None \<Rightarrow> None | Some ciphertext \<Rightarrow>
           let ciphertext_len = len;
               (out, len', ctx) = evp_enc_final api len ctx
           in case buf_write ciphertext len out of None \<Rightarrow> None | Some ciphertext \<Rightarrow>
             let ciphertext_len = ciphertext_len + len';
                 (out, ctx) = evp_get_tag api 16 ctx
             in case buf_write tag 0 out of None \<Rightarrow> None | Some tag \<Rightarrow>
               if ciphertext_len < 0 then None
               else Some (True, vec_resize (nat ciphertext_len) ciphertext, tag,
                          e\<lparr>ext := evp_ctx_free api ctx w\<rparr>))"

definition decrypt_aes_gcm ::
  "('w, 'c) evp_api \<Rightarrow> bytes \<Rightarrow> bytes \<Rightarrow> bytes \<Rightarrow> bytes \<Rightarrow> bytes \<Rightarrow> ('w, 'm) env_scheme \<Rightarrow>
   (bool \<times> bytes \<times> ('w, 'm) env_scheme) option" where
  \<comment> \<open>the parameters in the order of the definition in security_engine.cpp: ciphertext, key, iv, tag;
      the declaration in security_engine.hpp names them ciphertext, tag, key, iv\<close>
  "decrypt_aes_gcm api ciphertext key iv tag plaintext e =
     (if length key \<noteq> 32 \<or> length iv \<noteq> 12 \<or> length tag \<noteq> 16
      then Some (False, plaintext,
                 log_msg Error ''SecurityEngine: Decryption parameter size error (Key, IV, or Tag)''
                   [] e)
      else case evp_ctx_new api (ext e) of
        (None, w) \<Rightarrow> Some (False, plaintext, e\<lparr>ext := w\<rparr>)
      | (Some ctx, w) \<Rightarrow>
         let plaintext = vec_resize (length ciphertext) plaintext;
             ctx = evp_dec_init_cipher api ctx;
             ctx = evp_set_ivlen api (int_of_size (length iv)) ctx;
             ctx = evp_dec_init_key api key iv ctx;
             (out, len, ctx) =
               evp_dec_update api 0 ciphertext (int_of_size (length ciphertext)) ctx
         in case buf_write plaintext 0 out of None \<Rightarrow> None | Some plaintext \<Rightarrow>
           let plaintext_len = len;
               ctx = evp_set_tag api 16 tag ctx;
               (ret, out, len', ctx) = evp_dec_final api len ctx
           in case buf_write plaintext len out of None \<Rightarrow> None | Some plaintext \<Rightarrow>
             let e = e\<lparr>ext := evp_ctx_free api ctx w\<rparr>
             in if 0 < ret
                then (if plaintext_len + len' < 0 then None
                      else Some (True, vec_resize (nat (plaintext_len + len')) plaintext, e))
                else Some (False, plaintext, e))"

section \<open>Size checks\<close>

lemma size_literals:
  "AES_256_KEY_SIZE = 32" "GCM_IV_SIZE = 12" "GCM_TAG_SIZE = 16"
  by (simp_all add: AES_256_KEY_SIZE_def GCM_IV_SIZE_def GCM_TAG_SIZE_def)

definition log_decrypt_size_error :: "('w, 'm) env_scheme \<Rightarrow> ('w, 'm) env_scheme" where
  "log_decrypt_size_error =
     log_msg Error ''SecurityEngine: Decryption parameter size error (Key, IV, or Tag)'' []"

lemma encrypt_bad_size:
  "length key \<noteq> 32 \<or> length iv \<noteq> 12 \<Longrightarrow>
   encrypt_aes_gcm api pt key iv ct tag e =
     Some (False, ct, tag, log_msg Error ''SecurityEngine: Encryption parameter size error'' [] e)"
  by (simp add: encrypt_aes_gcm_def)

lemma decrypt_bad_size:
  "length key \<noteq> 32 \<or> length iv \<noteq> 12 \<or> length tag \<noteq> 16 \<Longrightarrow>
   decrypt_aes_gcm api ct key iv tag pt e = Some (False, pt, log_decrypt_size_error e)"
  by (simp add: decrypt_aes_gcm_def log_decrypt_size_error_def)

lemma encrypt_no_context:
  "length key = 32 \<Longrightarrow> length iv = 12 \<Longrightarrow> evp_ctx_new api (ext e) = (None, w) \<Longrightarrow>
   encrypt_aes_gcm api pt key iv ct tag e = Some (False, ct, tag, e\<lparr>ext := w\<rparr>)"
  by (simp add: encrypt_aes_gcm_def)

lemma decrypt_no_context:
  "length key = 32 \<Longrightarrow> length iv = 12 \<Longrightarrow> length tag = 16 \<Longrightarrow>
   evp_ctx_new api (ext e) = (None, w) \<Longrightarrow>
   decrypt_aes_gcm api ct key iv tag pt e = Some (False, pt, e\<lparr>ext := w\<rparr>)"
  by (simp add: decrypt_aes_gcm_def)

section \<open>Encryption and decryption under the documented laws\<close>

lemma encrypt_under_laws:
  assumes laws: "evp_gcm_laws api seal unseal"
    and sizes: "length key = 32" "length iv = 12" "length pt < 2 ^ 31"
    and ctx: "evp_ctx_new api (ext e) = (Some c, w)"
  shows "\<exists>w'. encrypt_aes_gcm api pt key iv ct tag e =
                Some (True, fst (seal key iv pt), snd (seal key iv pt), e\<lparr>ext := w'\<rparr>)"
proof -
  have "evp_encrypt_law api seal" and lens: "length (fst (seal key iv pt)) = length pt"
      "length (snd (seal key iv pt)) = 16"
    using laws by (simp_all add: evp_gcm_laws_def seal_laws_def)
  then obtain c1 c2 c3 where steps:
    "evp_enc_update api 0 pt (int (length pt))
       (evp_enc_init_key api key iv (evp_set_ivlen api 12 (evp_enc_init_cipher api c)))
     = (fst (seal key iv pt), int (length pt), c1)"
    "evp_enc_final api (int (length pt)) c1 = ([], 0, c2)"
    "evp_get_tag api 16 c2 = (snd (seal key iv pt), c3)"
    using sizes unfolding evp_encrypt_law_def by blast
  have inl: "int_of_size (length pt) = int (length pt)" "int_of_size 12 = 12"
    using sizes(3) int_of_size_small [of 12] by (simp_all add: int_of_size_small)
  have resized: "vec_resize (length pt) (fst (seal key iv pt)) = fst (seal key iv pt)"
    using vec_resize_id [of "fst (seal key iv pt)"] lens by simp
  have "encrypt_aes_gcm api pt key iv ct tag e =
          Some (True, fst (seal key iv pt), snd (seal key iv pt), e\<lparr>ext := evp_ctx_free api c3 w\<rparr>)"
    by (simp add: encrypt_aes_gcm_def sizes ctx steps inl buf_write_all lens resized)
  then show ?thesis ..
qed

lemma decrypt_under_laws:
  assumes laws: "evp_gcm_laws api seal unseal"
    and sizes: "length key = 32" "length iv = 12" "length tag = 16" "length ct < 2 ^ 31"
    and ctx: "evp_ctx_new api (ext e) = (Some c, w)"
  shows "\<exists>w'. decrypt_aes_gcm api ct key iv tag pt e =
                Some (seal key iv (unseal key iv ct) = (ct, tag), unseal key iv ct, e\<lparr>ext := w'\<rparr>)"
proof -
  have "evp_decrypt_law api seal unseal" and lens: "length (unseal key iv ct) = length ct"
    using laws by (simp_all add: evp_gcm_laws_def seal_laws_def)
  then obtain c1 c2 ret where steps:
    "evp_dec_update api 0 ct (int (length ct))
       (evp_dec_init_key api key iv (evp_set_ivlen api 12 (evp_dec_init_cipher api c)))
     = (unseal key iv ct, int (length ct), c1)"
    "evp_dec_final api (int (length ct)) (evp_set_tag api 16 tag c1) = (ret, [], 0, c2)"
    "0 < ret \<longleftrightarrow> seal key iv (unseal key iv ct) = (ct, tag)"
    using sizes unfolding evp_decrypt_law_def by blast
  have inl: "int_of_size (length ct) = int (length ct)" "int_of_size 12 = 12"
    using sizes(4) int_of_size_small [of 12] by (simp_all add: int_of_size_small)
  have resized: "vec_resize (length ct) (unseal key iv ct) = unseal key iv ct"
    using vec_resize_id [of "unseal key iv ct"] lens by simp
  have "decrypt_aes_gcm api ct key iv tag pt e =
          Some (0 < ret, unseal key iv ct, e\<lparr>ext := evp_ctx_free api c2 w\<rparr>)"
    by (simp add: decrypt_aes_gcm_def Let_def sizes ctx steps(1,2) inl buf_write_all lens resized)
  then show ?thesis
    using steps(3) by auto
qed

section \<open>The contract the callers rely on\<close>

locale aead_service =
  fixes ready :: "'e \<Rightarrow> bool"
    and enc :: "bytes \<Rightarrow> bytes \<Rightarrow> bytes \<Rightarrow> bytes \<Rightarrow> bytes \<Rightarrow> 'e \<Rightarrow> (bool \<times> bytes \<times> bytes \<times> 'e) option"
    and dec :: "bytes \<Rightarrow> bytes \<Rightarrow> bytes \<Rightarrow> bytes \<Rightarrow> bytes \<Rightarrow> 'e \<Rightarrow> (bool \<times> bytes \<times> 'e) option"
    and refuse :: "'e \<Rightarrow> 'e"
  assumes enc_ready:
      "ready e \<Longrightarrow> length key = 32 \<Longrightarrow> length iv = 12 \<Longrightarrow> length pt < 2 ^ 31 \<Longrightarrow>
       \<exists>ct tag e'. enc pt key iv ct0 tag0 e = Some (True, ct, tag, e') \<and>
                   length ct = length pt \<and> length tag = 16"
    and dec_enc:
      "ready e \<Longrightarrow> ready e2 \<Longrightarrow> length key = 32 \<Longrightarrow> length iv = 12 \<Longrightarrow> length pt < 2 ^ 31 \<Longrightarrow>
       enc pt key iv ct0 tag0 e = Some (True, ct, tag, e') \<Longrightarrow> length tag2 = 16 \<Longrightarrow>
       \<exists>e2'. dec ct key iv tag2 pt0 e2 = Some (tag2 = tag, pt, e2')"
    and dec_size:
      "length key \<noteq> 32 \<or> length iv \<noteq> 12 \<or> length tag \<noteq> 16 \<Longrightarrow>
       dec ct key iv tag pt0 e = Some (False, pt0, refuse e)"
begin

lemma sealed_then_opened:
  assumes "ready e" "ready e2" "length key = 32" "length iv = 12" "length pt < 2 ^ 31"
  shows "\<exists>ct tag e' e2'. enc pt key iv ct0 tag0 e = Some (True, ct, tag, e') \<and>
           dec ct key iv tag pt0 e2 = Some (True, pt, e2')"
proof -
  obtain ct tag e' where sealed: "enc pt key iv ct0 tag0 e = Some (True, ct, tag, e')" "length tag = 16"
    using enc_ready [OF assms(1,3-5)] by blast
  obtain e2' where "dec ct key iv tag pt0 e2 = Some (True, pt, e2')"
    using dec_enc [OF assms sealed] by auto
  with sealed show ?thesis by blast
qed

lemma altered_tag_refused:
  assumes "ready e" "ready e2" "length key = 32" "length iv = 12" "length pt < 2 ^ 31"
    and "enc pt key iv ct0 tag0 e = Some (True, ct, tag, e')" "tag2 \<noteq> tag"
  shows "\<exists>pt' e2'. dec ct key iv tag2 pt0 e2 = Some (False, pt', e2')"
proof (cases "length tag2 = 16")
  case True
  obtain e2' where "dec ct key iv tag2 pt0 e2 = Some (tag2 = tag, pt, e2')"
    using dec_enc [OF assms(1-6) True] by blast
  with assms(7) show ?thesis by auto
next
  case False
  then show ?thesis
    using dec_size by blast
qed

text \<open>
  A caller that hands over its arguments in the order ciphertext, tag, key, iv puts the 32 bytes of
  the key where the nonce belongs, and is refused whatever the packet is.
\<close>

lemma declared_order_refused:
  "length key = 32 \<Longrightarrow> dec ct tag key iv pt0 e = Some (False, pt0, refuse e)"
  by (rule dec_size) simp

end

interpretation aes: aead_service
  "\<lambda>e. evp_gcm_laws api seal unseal \<and> fst (evp_ctx_new api (ext e)) \<noteq> None"
  "encrypt_aes_gcm api" "decrypt_aes_gcm api" log_decrypt_size_error
  for api :: "('w, 'c) evp_api" and seal unseal
proof unfold_locales
  fix e :: "('w, 'm) env_scheme" and key iv pt ct0 tag0 :: bytes
  assume ready: "evp_gcm_laws api seal unseal \<and> fst (evp_ctx_new api (ext e)) \<noteq> None"
    and sizes: "length key = 32" "length iv = 12" "length pt < 2 ^ 31"
  from ready obtain c w where "evp_ctx_new api (ext e) = (Some c, w)"
    by (cases "evp_ctx_new api (ext e)") auto
  with ready sizes show "\<exists>ct tag e'. encrypt_aes_gcm api pt key iv ct0 tag0 e = Some (True, ct, tag, e') \<and>
      length ct = length pt \<and> length tag = 16"
    using encrypt_under_laws [of api seal unseal key iv pt e c w ct0 tag0]
    by (auto simp: evp_gcm_laws_def seal_laws_def)
next
  fix e e2 :: "('w, 'm) env_scheme" and e' and key iv pt ct0 tag0 ct tag tag2 pt0 :: bytes
  assume ready: "evp_gcm_laws api seal unseal \<and> fst (evp_ctx_new api (ext e)) \<noteq> None"
      "evp_gcm_laws api seal unseal \<and> fst (evp_ctx_new api (ext e2)) \<noteq> None"
    and sizes: "length key = 32" "length iv = 12" "length pt < 2 ^ 31" "length tag2 = 16"
    and sealed: "encrypt_aes_gcm api pt key iv ct0 tag0 e = Some (True, ct, tag, e')"
  from ready obtain c w c2 w2 where ctx: "evp_ctx_new api (ext e) = (Some c, w)"
      "evp_ctx_new api (ext e2) = (Some c2, w2)"
    by (cases "evp_ctx_new api (ext e)"; cases "evp_ctx_new api (ext e2)") auto
  have ct: "ct = fst (seal key iv pt)" "tag = snd (seal key iv pt)"
    using encrypt_under_laws [OF _ sizes(1-3) ctx(1), of seal unseal ct0 tag0] ready sealed by auto
  then have "length ct = length pt" "unseal key iv ct = pt"
    using ready(1) by (auto simp: evp_gcm_laws_def seal_laws_def)
  then show "\<exists>e2'. decrypt_aes_gcm api ct key iv tag2 pt0 e2 = Some (tag2 = tag, pt, e2')"
    using decrypt_under_laws [OF _ sizes(1,2,4) _ ctx(2), of seal unseal ct pt0] ready sizes(3) ct
    by (auto simp: prod_eq_iff)
qed (simp add: decrypt_bad_size)

end
