(* ===== verification/Bounded_Queue.thy ===== *)
theory Bounded_Queue
  imports Prelude
begin

text \<open>
  \<^verbatim>\<open>containers::ConcurrentQueue\<close> (containers/concurrent_queue.hpp), the queue between the callback that
  decrypts a packet and the worker that stores it. Every member function holds \<^verbatim>\<open>mutex_\<close> from its
  first to its last line, so a concurrent history of the queue is a sequence of these operations.
  The condition variable \<^verbatim>\<open>cv_pop_\<close> is notified by \<^verbatim>\<open>push\<close> and nobody waits on it.

  The contract of a bounded first-in first-out queue is the locale \<open>bounded_fifo\<close>: an operation
  returns \<open>None\<close> where the caller would wait. It is interpreted here for the queue that never
  blocks, and in the theory of the blocking queue for the other one.
\<close>

section \<open>The contract of a bounded queue\<close>

datatype 'a queue_op = Push 'a | Pop

fun fifo_step ::
  "('a \<Rightarrow> 'q \<Rightarrow> (bool \<times> 'q) option) \<Rightarrow> ('q \<Rightarrow> ('a option \<times> 'q) option) \<Rightarrow>
   'a queue_op \<Rightarrow> 'q \<Rightarrow> 'a list \<times> 'a list \<times> 'q" where
  \<comment> \<open>one operation: the items it takes in, the items it hands out, the queue afterwards; an
      operation whose caller would wait has no effect\<close>
  "fifo_step push pop (Push x) q =
     (case push x q of None \<Rightarrow> ([], [], q) | Some (ok, q') \<Rightarrow> (if ok then [x] else [], [], q'))"
| "fifo_step push pop Pop q =
     (case pop q of
        None \<Rightarrow> ([], [], q)
      | Some (got, q') \<Rightarrow> ([], (case got of None \<Rightarrow> [] | Some x \<Rightarrow> [x]), q'))"

fun fifo_run ::
  "('a \<Rightarrow> 'q \<Rightarrow> (bool \<times> 'q) option) \<Rightarrow> ('q \<Rightarrow> ('a option \<times> 'q) option) \<Rightarrow>
   'a queue_op list \<Rightarrow> 'q \<Rightarrow> 'a list \<times> 'a list \<times> 'q" where
  \<comment> \<open>a history of operations, in the order the mutex serialises them\<close>
  "fifo_run push pop [] q = ([], [], q)"
| "fifo_run push pop (op # ops) q =
     (let (i, out, q') = fifo_step push pop op q; (ins, outs, r) = fifo_run push pop ops q'
      in (i @ ins, out @ outs, r))"

lemma fifo_run_append:
  "fifo_run push pop (ops @ ops') q =
     (let (ins, outs, r) = fifo_run push pop ops q; (ins', outs', r') = fifo_run push pop ops' r
      in (ins @ ins', outs @ outs', r'))"
  by (induction ops arbitrary: q) (simp_all add: Let_def split: prod.splits)

locale bounded_fifo =
  fixes contents :: "'q \<Rightarrow> 'a list"
    and capacity :: "'q \<Rightarrow> nat"
    and push :: "'a \<Rightarrow> 'q \<Rightarrow> (bool \<times> 'q) option"
    and pop :: "'q \<Rightarrow> ('a option \<times> 'q) option"
  assumes push_accepted:
      "push x q = Some (True, q') \<Longrightarrow>
       contents q' = contents q @ [x] \<and> length (contents q) < capacity q"
    and push_refused: "push x q = Some (False, q') \<Longrightarrow> contents q' = contents q"
    and pop_item: "pop q = Some (Some x, q') \<Longrightarrow> contents q = x # contents q'"
    and pop_nothing: "pop q = Some (None, q') \<Longrightarrow> contents q = [] \<and> contents q' = []"
    and push_capacity: "push x q = Some (ok, q') \<Longrightarrow> capacity q' = capacity q"
    and pop_capacity: "pop q = Some (got, q') \<Longrightarrow> capacity q' = capacity q"
begin

lemma step_fifo:
  "fifo_step push pop op q = (i, out, q') \<Longrightarrow> contents q @ i = out @ contents q'"
  by (cases op)
    (auto split: option.splits if_splits dest!: push_accepted push_refused pop_item pop_nothing)

lemma step_capacity: "fifo_step push pop op q = (i, out, q') \<Longrightarrow> capacity q' = capacity q"
  by (cases op) (auto split: option.splits dest!: push_capacity pop_capacity)

lemma step_bounded:
  assumes "fifo_step push pop op q = (i, out, q')" and "length (contents q) \<le> capacity q"
  shows "length (contents q') \<le> capacity q'"
proof -
  have "length (contents q') \<le> capacity q"
  proof (cases op)
    case (Push x)
    with assms show ?thesis
      by (auto split: option.splits if_splits dest!: push_accepted push_refused)
  next
    case Pop
    with assms show ?thesis
      by (auto split: option.splits dest!: pop_item pop_nothing)
  qed
  with step_capacity [OF assms(1)] show ?thesis by simp
qed

text \<open>No item is lost, duplicated or reordered, whatever the history, and the bound is kept.\<close>

lemma run_fifo:
  "fifo_run push pop ops q = (ins, outs, r) \<Longrightarrow> contents q @ ins = outs @ contents r"
proof (induction ops arbitrary: q ins outs)
  case Nil
  then show ?case by simp
next
  case (Cons op ops)
  then obtain i out q' ins' outs' where
    step: "fifo_step push pop op q = (i, out, q')" and
    run: "fifo_run push pop ops q' = (ins', outs', r)" and
    eqs: "ins = i @ ins'" "outs = out @ outs'"
    by (auto split: prod.splits)
  have "contents q @ ins = (contents q @ i) @ ins'"
    by (simp add: eqs)
  also have "\<dots> = outs @ contents r"
    using step_fifo [OF step] Cons.IH [OF run] by (simp add: eqs)
  finally show ?case .
qed

lemma run_bounded:
  "fifo_run push pop ops q = (ins, outs, r) \<Longrightarrow> length (contents q) \<le> capacity q \<Longrightarrow>
   length (contents r) \<le> capacity r \<and> capacity r = capacity q"
proof (induction ops arbitrary: q ins outs)
  case Nil
  then show ?case by simp
next
  case (Cons op ops)
  then obtain i out q' ins' outs' where
    step: "fifo_step push pop op q = (i, out, q')" and
    run: "fifo_run push pop ops q' = (ins', outs', r)"
    by (auto split: prod.splits)
  from step_bounded [OF step Cons.prems(2)] Cons.IH [OF run] step_capacity [OF step]
  show ?case by simp
qed

end

text \<open>A queue whose operations never wait, and which refuses a push only when it is full.\<close>

locale nonblocking_fifo = bounded_fifo contents capacity push pop
  for contents :: "'q \<Rightarrow> 'a list"
    and capacity :: "'q \<Rightarrow> nat"
    and push :: "'a \<Rightarrow> 'q \<Rightarrow> (bool \<times> 'q) option"
    and pop :: "'q \<Rightarrow> ('a option \<times> 'q) option" +
  assumes push_returns: "\<exists>q'. push x q = Some (length (contents q) < capacity q, q')"
    and pop_returns: "\<exists>got q'. pop q = Some (got, q')"
begin

lemma pop_returns_head:
  "\<exists>q'. pop q = Some (case contents q of [] \<Rightarrow> None | x # _ \<Rightarrow> Some x, q')"
proof -
  obtain got q' where p: "pop q = Some (got, q')"
    using pop_returns by blast
  then show ?thesis
    by (cases got) (auto dest!: pop_item pop_nothing)
qed

lemma drain:
  assumes "fifo_run push pop (replicate (length (contents q)) Pop) q = (ins, outs, r)"
  shows "ins = [] \<and> outs = contents q \<and> contents r = []"
  using assms
proof (induction "contents q" arbitrary: q ins outs)
  case Nil
  then show ?case by simp
next
  case (Cons x xs)
  obtain q' where p: "pop q = Some (Some x, q')"
    using pop_returns_head [of q] unfolding Cons.hyps(2) [symmetric] by auto
  then have "contents q' = xs"
    using pop_item [OF p] Cons.hyps(2) by simp
  with Cons.hyps(1) [of q'] Cons.prems p show ?case
    unfolding Cons.hyps(2) [symmetric] by (auto split: prod.splits)
qed

end

section \<open>containers::ConcurrentQueue\<close>

record 'a cqueue =
  queue_items :: "'a list"
  max_capacity :: nat

definition cq_new :: "nat \<Rightarrow> 'a cqueue" where
  "cq_new cap = \<lparr>queue_items = [], max_capacity = cap\<rparr>"

definition cq_push :: "'a \<Rightarrow> 'a cqueue \<Rightarrow> bool \<times> 'a cqueue" where
  "cq_push x q =
     (if max_capacity q \<le> length (queue_items q) then (False, q)
      else (True, q\<lparr>queue_items := queue_items q @ [x]\<rparr>))"

definition cq_pop_into :: "'a \<Rightarrow> 'a cqueue \<Rightarrow> bool \<times> 'a \<times> 'a cqueue" where
  \<comment> \<open>\<open>bool pop(T& item)\<close>: the second component is the caller's variable after the call\<close>
  "cq_pop_into item q =
     (case queue_items q of
        [] \<Rightarrow> (False, item, q)
      | x # xs \<Rightarrow> (True, x, q\<lparr>queue_items := xs\<rparr>))"

definition cq_pop :: "'a cqueue \<Rightarrow> 'a option \<times> 'a cqueue" where
  "cq_pop q =
     (case queue_items q of
        [] \<Rightarrow> (None, q)
      | x # xs \<Rightarrow> (Some x, q\<lparr>queue_items := xs\<rparr>))"

definition cq_size :: "'a cqueue \<Rightarrow> nat" where
  "cq_size q = length (queue_items q)"

definition cq_empty :: "'a cqueue \<Rightarrow> bool" where
  "cq_empty q \<longleftrightarrow> queue_items q = []"

interpretation cq: nonblocking_fifo queue_items max_capacity
  "\<lambda>x q. Some (cq_push x q)" "\<lambda>q. Some (cq_pop q)"
  by unfold_locales (auto simp: cq_push_def cq_pop_def split: if_splits list.splits)

lemma cq_size_empty: "cq_empty q \<longleftrightarrow> cq_size q = 0"
  by (simp add: cq_empty_def cq_size_def)

lemma cq_push_full:
  "max_capacity q \<le> length (queue_items q) \<Longrightarrow> cq_push x q = (False, q)"
  by (simp add: cq_push_def)

lemma cq_push_room:
  "length (queue_items q) < max_capacity q \<Longrightarrow>
   cq_push x q = (True, q\<lparr>queue_items := queue_items q @ [x]\<rparr>)"
  by (simp add: cq_push_def)

lemma cq_pop_into_pop:
  "cq_pop_into item q =
     (case cq_pop q of (None, q') \<Rightarrow> (False, item, q') | (Some x, q') \<Rightarrow> (True, x, q'))"
  by (simp add: cq_pop_into_def cq_pop_def split: list.splits)

end
