(* ===== verification/Ingestion.thy ===== *)
theory Ingestion
  imports Telemetry Bounded_Queue
begin

text \<open>
  \<^verbatim>\<open>ingestion::TelemetryIngestionEngine\<close> (ingestion/telemetry_ingestion_engine.hpp and .cpp): from the
  decrypted JSON text to a telemetry frame.

  The JSON library is a parameter: \<open>json_api\<close> has one function per call of the sources on an opaque
  document type \<open>'j\<close>; a call that can throw returns the exception in \<open>Inl\<close>. \<open>j_index\<close> is the
  non-constant \<^verbatim>\<open>operator[]\<close>: it returns the document after the call (a missing key is inserted) and
  the element.

  \<^verbatim>\<open>parse_and_validate\<close> writes through a reference while it goes, so an exception leaves the caller's
  frame half filled: every step of the model returns the frame beside the exception.
\<close>

section \<open>The JSON library, as a parameter\<close>

record 'j json_api =
  j_parse :: "string \<Rightarrow> exn + 'j"
  j_contains :: "'j \<Rightarrow> string \<Rightarrow> bool"
  j_index :: "'j \<Rightarrow> string \<Rightarrow> exn + 'j \<times> 'j"
  j_get_string :: "'j \<Rightarrow> exn + string"
  j_get_uint64 :: "'j \<Rightarrow> exn + u64"
  j_get_double :: "'j \<Rightarrow> exn + double"
  j_get_bytes :: "'j \<Rightarrow> exn + bytes"
  j_is_number :: "'j \<Rightarrow> bool"
  j_items :: "'j \<Rightarrow> (string \<times> 'j) list"

definition json_error_law :: "'j json_api \<Rightarrow> bool" where
  \<comment> \<open>documented: only the parser throws \<open>parse_error\<close>. It may throw another exception too, as
      \<open>out_of_range.406\<close> for a number that overflows, of which nothing is said\<close>
  "json_error_law api \<longleftrightarrow>
     (\<forall>j k x. j_index api j k = Inl x \<longrightarrow> \<not> is_parse_error x) \<and>
     (\<forall>j x. j_get_string api j = Inl x \<longrightarrow> \<not> is_parse_error x) \<and>
     (\<forall>j x. j_get_uint64 api j = Inl x \<longrightarrow> \<not> is_parse_error x) \<and>
     (\<forall>j x. j_get_double api j = Inl x \<longrightarrow> \<not> is_parse_error x)"

definition json_member_law :: "'j json_api \<Rightarrow> ('j \<Rightarrow> string \<Rightarrow> 'j) \<Rightarrow> bool" where
  \<comment> \<open>documented: indexing a key the document contains returns that member and changes nothing;
      the items of a document have distinct keys\<close>
  "json_member_law api member \<longleftrightarrow>
     (\<forall>j k. j_contains api j k \<longrightarrow> j_index api j k = Inr (j, member j k)) \<and>
     (\<forall>j. distinct (map fst (j_items api j)))"

definition json_number_law :: "'j json_api \<Rightarrow> bool" where
  \<comment> \<open>documented: every number converts to a double\<close>
  "json_number_law api \<longleftrightarrow> (\<forall>v. j_is_number api v \<longrightarrow> (\<exists>f. j_get_double api v = Inr f))"

section \<open>parse_and_validate\<close>

datatype ingestion_status =
    SUCCESS
  | INVALID_JSON_SYNTAX
  | MISSING_REQUIRED_FIELDS
  | TIMESTAMP_OUT_OF_BOUNDS
  | PAYLOAD_EXCEEDS_SIZE_LIMIT
  | QUEUE_FULL

fun ingestion_status_code :: "ingestion_status \<Rightarrow> nat" where
  "ingestion_status_code SUCCESS = 0"
| "ingestion_status_code INVALID_JSON_SYNTAX = 1"
| "ingestion_status_code MISSING_REQUIRED_FIELDS = 2"
| "ingestion_status_code TIMESTAMP_OUT_OF_BOUNDS = 3"
| "ingestion_status_code PAYLOAD_EXCEEDS_SIZE_LIMIT = 4"
| "ingestion_status_code QUEUE_FULL = 5"

type_synonym 'j ingest_step = "'j \<times> telemetry_data \<Rightarrow> (exn + unit) \<times> 'j \<times> telemetry_data"

definition and_then :: "'j ingest_step \<Rightarrow> 'j ingest_step \<Rightarrow> 'j ingest_step" where
  \<comment> \<open>statement sequencing: an exception skips the rest\<close>
  "and_then f g s = (case f s of (Inl x, s') \<Rightarrow> (Inl x, s') | (Inr _, s') \<Rightarrow> g s')"

definition assign_member ::
  "'j json_api \<Rightarrow> string \<Rightarrow> ('j \<Rightarrow> exn + 'a) \<Rightarrow> ('a \<Rightarrow> telemetry_data \<Rightarrow> telemetry_data) \<Rightarrow>
   'j ingest_step" where
  \<comment> \<open>\<open>out_data.field = parsed[key].get<T>()\<close>\<close>
  "assign_member api key conv assign s =
     (case s of (j, d) \<Rightarrow>
       case j_index api j key of
         Inl x \<Rightarrow> (Inl x, j, d)
       | Inr (j', elem) \<Rightarrow>
           (case conv elem of Inl x \<Rightarrow> (Inl x, j', d) | Inr v \<Rightarrow> (Inr (), j', assign v d)))"

definition read_robot_id :: "'j json_api \<Rightarrow> 'j ingest_step" where
  "read_robot_id api s =
     (if j_contains api (fst s) ''client_id''
      then assign_member api ''client_id'' (j_get_string api) (\<lambda>v. robot_id_update (\<lambda>_. v)) s
      else if j_contains api (fst s) ''robot_id''
      then assign_member api ''robot_id'' (j_get_string api) (\<lambda>v. robot_id_update (\<lambda>_. v)) s
      else (Inr (), fst s, (snd s)\<lparr>robot_id := ''unknown_robot''\<rparr>))"

definition read_sequence_id :: "'j json_api \<Rightarrow> 'j ingest_step" where
  "read_sequence_id api s =
     (if j_contains api (fst s) ''sequence_id''
      then assign_member api ''sequence_id'' (j_get_uint64 api) (\<lambda>v. sequence_id_update (\<lambda>_. v)) s
      else (Inr (), fst s, (snd s)\<lparr>sequence_id := 0\<rparr>))"

definition read_timestamp :: "'j json_api \<Rightarrow> int \<Rightarrow> 'j ingest_step" where
  \<comment> \<open>\<open>clock_ns\<close>: the system clock's signed count of nanoseconds\<close>
  "read_timestamp api clock_ns s =
     (if j_contains api (fst s) ''timestamp_ns''
      then assign_member api ''timestamp_ns'' (j_get_uint64 api) (\<lambda>v. timestamp_ns_update (\<lambda>_. v)) s
      else (Inr (), fst s, (snd s)\<lparr>timestamp_ns := word_of_int clock_ns\<rparr>))"

fun collect_numbers ::
  "'j json_api \<Rightarrow> (string \<times> 'j) list \<Rightarrow> telemetry_data \<Rightarrow> (exn + unit) \<times> telemetry_data" where
  "collect_numbers api [] d = (Inr (), d)"
| "collect_numbers api ((key, v) # rest) d =
     (if j_is_number api v
      then (case j_get_double api v of
              Inl x \<Rightarrow> (Inl x, d)
            | Inr f \<Rightarrow>
                collect_numbers api rest
                  (d\<lparr>payload_values := AList.update key f (payload_values d)\<rparr>))
      else collect_numbers api rest d)"

definition read_payload :: "'j json_api \<Rightarrow> 'j ingest_step" where
  "read_payload api s =
     (case s of (j, d) \<Rightarrow>
       case collect_numbers api (j_items api j) (d\<lparr>payload_values := []\<rparr>) of (r, d') \<Rightarrow> (r, j, d'))"

definition sensor_category :: "'j json_api \<Rightarrow> 'j \<Rightarrow> string" where
  "sensor_category api j =
     (if j_contains api j ''battery'' then ''battery''
      else if j_contains api j ''temperature'' then ''temperature''
      else if j_contains api j ''velocity_x'' then ''velocity''
      else ''generic'')"

definition read_sensor_type :: "'j json_api \<Rightarrow> 'j ingest_step" where
  "read_sensor_type api s =
     (Inr (), fst s, (snd s)\<lparr>sensor_type := sensor_category api (fst s)\<rparr>)"

definition read_fields :: "'j json_api \<Rightarrow> int \<Rightarrow> 'j ingest_step" where
  "read_fields api clock_ns =
     and_then (read_robot_id api)
      (and_then (read_sequence_id api)
        (and_then (read_timestamp api clock_ns)
          (and_then (read_payload api) (read_sensor_type api))))"

definition parse_and_validate ::
  "'j json_api \<Rightarrow> int \<Rightarrow> string \<Rightarrow> telemetry_data \<Rightarrow> (exn + ingestion_status) \<times> telemetry_data" where
  \<comment> \<open>\<open>Inl\<close>: the exception leaves the function; only \<open>parse_error\<close> is caught\<close>
  "parse_and_validate api clock_ns raw_json out_data =
     (let (r, out_data) =
        (case j_parse api raw_json of
           Inl x \<Rightarrow> (Inl x, out_data)
         | Inr parsed \<Rightarrow>
             (case read_fields api clock_ns (parsed, out_data) of (r, _, d) \<Rightarrow> (r, d)))
      in case r of
           Inr _ \<Rightarrow> (Inr SUCCESS, out_data)
         | Inl x \<Rightarrow>
             if is_parse_error x then (Inr INVALID_JSON_SYNTAX, out_data) else (Inl x, out_data))"

definition process_payload ::
  "'j json_api \<Rightarrow> int \<Rightarrow> string \<Rightarrow> telemetry_data cqueue \<Rightarrow>
   (exn + ingestion_status) \<times> telemetry_data cqueue" where
  "process_payload api clock_ns raw_json target_queue =
     (let (status, d) = parse_and_validate api clock_ns raw_json empty_telemetry
      in if status = Inr SUCCESS
         then (let (ok, target_queue) = cq_push d target_queue
               in if \<not> ok then (Inr QUEUE_FULL, target_queue) else (status, target_queue))
         else (status, target_queue))"

definition validate_field_bounds :: "telemetry_data \<Rightarrow> bool" where
  "validate_field_bounds d = True"

section \<open>Lemmas\<close>

lemma and_then_Inr:
  "and_then f g s = (Inr (), s') \<longleftrightarrow> (\<exists>s1. f s = (Inr (), s1) \<and> g s1 = (Inr (), s'))"
  by (auto simp: and_then_def split: prod.splits sum.splits)

lemma assign_member_Inr:
  assumes "json_member_law api member" and "j_contains api j key"
  shows "assign_member api key conv assign (j, d) = (Inr (), s') \<longleftrightarrow>
         (\<exists>v. conv (member j key) = Inr v \<and> s' = (j, assign v d))"
  using assms by (auto simp: assign_member_def json_member_law_def split: sum.splits)

lemma update_map_fst_distinct:
  "distinct (map fst al) \<Longrightarrow> distinct (map fst (AList.update k v al))"
  by (simp add: distinct_update)

definition number_of :: "'j json_api \<Rightarrow> 'j \<Rightarrow> double option" where
  \<comment> \<open>the value a payload entry takes from an element\<close>
  "number_of api v =
     (if j_is_number api v then (case j_get_double api v of Inl _ \<Rightarrow> None | Inr f \<Rightarrow> Some f) else None)"

lemma collect_numbers_frame:
  "collect_numbers api items d = (r, d') \<Longrightarrow>
   robot_id d' = robot_id d \<and> sequence_id d' = sequence_id d \<and>
   timestamp_ns d' = timestamp_ns d \<and> sensor_type d' = sensor_type d"
  by (induction api items d rule: collect_numbers.induct)
    (auto split: if_splits sum.splits)

lemma collect_numbers_map:
  assumes "collect_numbers api items d = (Inr (), d')" and "distinct (map fst items)"
  shows "map_of (payload_values d') k =
           (case map_of items k of
              None \<Rightarrow> map_of (payload_values d) k
            | Some v \<Rightarrow> if j_is_number api v then number_of api v else map_of (payload_values d) k)"
  using assms
proof (induction api items d rule: collect_numbers.induct)
  case (1 api d)
  then show ?case by simp
next
  case (2 api key v rest d)
  have fresh: "map_of rest key = None"
    using "2.prems"(2) by (simp add: map_of_eq_None_iff)
  show ?case
  proof (cases "j_is_number api v")
    case True
    then obtain f where f: "j_get_double api v = Inr f"
      using "2.prems"(1) by (cases "j_get_double api v") auto
    with True "2.prems" "2.IH"(1) [OF True f] show ?thesis
      using fresh by (auto simp: number_of_def update_conv' split: option.splits)
  next
    case False
    with "2.prems" "2.IH"(2) [OF False] show ?thesis
      using fresh by (auto split: option.splits)
  qed
qed

lemma collect_numbers_wf:
  "collect_numbers api items d = (r, d') \<Longrightarrow> payload_wf d \<Longrightarrow> payload_wf d'"
  by (induction api items d rule: collect_numbers.induct)
    (auto simp: payload_wf_def update_map_fst_distinct split: if_splits sum.splits)

lemma collect_numbers_same:
  "payload_values d1 = payload_values d2 \<Longrightarrow>
   fst (collect_numbers api items d1) = fst (collect_numbers api items d2) \<and>
   payload_values (snd (collect_numbers api items d1)) =
     payload_values (snd (collect_numbers api items d2))"
proof (induction items arbitrary: d1 d2)
  case Nil
  then show ?case by simp
next
  case (Cons item rest)
  obtain key v where item: "item = (key, v)" by (cases item)
  show ?case
  proof (cases "j_is_number api v")
    case False
    with Cons.IH [OF Cons.prems] item show ?thesis by simp
  next
    case True
    show ?thesis
    proof (cases "j_get_double api v")
      case (Inl x)
      with Cons.prems True item show ?thesis by simp
    next
      case (Inr f)
      have "payload_values (d1\<lparr>payload_values := AList.update key f (payload_values d1)\<rparr>) =
            payload_values (d2\<lparr>payload_values := AList.update key f (payload_values d2)\<rparr>)"
        using Cons.prems by simp
      from Cons.IH [OF this] True Inr item show ?thesis by simp
    qed
  qed
qed

lemma collect_numbers_total:
  assumes "json_number_law api"
  shows "\<exists>d'. collect_numbers api items d = (Inr (), d')"
proof (induction items arbitrary: d)
  case Nil
  then show ?case by simp
next
  case (Cons item rest)
  obtain k v where item: "item = (k, v)" by (cases item)
  show ?case
  proof (cases "j_is_number api v")
    case True
    then obtain f where "j_get_double api v = Inr f"
      using assms by (auto simp: json_number_law_def)
    then show ?thesis
      using True item Cons.IH by simp
  next
    case False
    then show ?thesis
      using item Cons.IH by simp
  qed
qed

section \<open>The frame a document describes\<close>

text \<open>
  The specification of a successful parse, field by field, without any order of execution: the frame
  a document describes.
\<close>

definition robot_id_of_json :: "'j json_api \<Rightarrow> ('j \<Rightarrow> string \<Rightarrow> 'j) \<Rightarrow> 'j \<Rightarrow> string \<Rightarrow> bool" where
  "robot_id_of_json api member j v \<longleftrightarrow>
     (if j_contains api j ''client_id'' then j_get_string api (member j ''client_id'') = Inr v
      else if j_contains api j ''robot_id'' then j_get_string api (member j ''robot_id'') = Inr v
      else v = ''unknown_robot'')"

definition uint64_of_json ::
  "'j json_api \<Rightarrow> ('j \<Rightarrow> string \<Rightarrow> 'j) \<Rightarrow> string \<Rightarrow> u64 \<Rightarrow> 'j \<Rightarrow> u64 \<Rightarrow> bool" where
  "uint64_of_json api member key fallback j v \<longleftrightarrow>
     (if j_contains api j key then j_get_uint64 api (member j key) = Inr v else v = fallback)"

definition frame_of_json ::
  "'j json_api \<Rightarrow> ('j \<Rightarrow> string \<Rightarrow> 'j) \<Rightarrow> int \<Rightarrow> 'j \<Rightarrow> telemetry_data \<Rightarrow> bool" where
  "frame_of_json api member clock_ns j d \<longleftrightarrow>
     robot_id_of_json api member j (robot_id d) \<and>
     uint64_of_json api member ''sequence_id'' 0 j (sequence_id d) \<and>
     uint64_of_json api member ''timestamp_ns'' (word_of_int clock_ns) j (timestamp_ns d) \<and>
     (\<forall>k. map_of (payload_values d) k = Option.bind (map_of (j_items api j) k) (number_of api)) \<and>
     payload_wf d \<and>
     sensor_type d = sensor_category api j"

lemma read_robot_id_Inr:
  assumes "json_member_law api member"
  shows "read_robot_id api (j, d) = (Inr (), s') \<longleftrightarrow>
    (\<exists>v. s' = (j, d\<lparr>robot_id := v\<rparr>) \<and> robot_id_of_json api member j v)"
  using assms
  by (auto simp: read_robot_id_def robot_id_of_json_def assign_member_Inr [OF assms])

lemma read_sequence_id_Inr:
  assumes "json_member_law api member"
  shows "read_sequence_id api (j, d) = (Inr (), s') \<longleftrightarrow>
    (\<exists>v. s' = (j, d\<lparr>sequence_id := v\<rparr>) \<and> uint64_of_json api member ''sequence_id'' 0 j v)"
  using assms
  by (auto simp: read_sequence_id_def uint64_of_json_def assign_member_Inr [OF assms])

lemma read_timestamp_Inr:
  assumes "json_member_law api member"
  shows "read_timestamp api clock_ns (j, d) = (Inr (), s') \<longleftrightarrow>
    (\<exists>v. s' = (j, d\<lparr>timestamp_ns := v\<rparr>) \<and>
         uint64_of_json api member ''timestamp_ns'' (word_of_int clock_ns) j v)"
  using assms
  by (auto simp: read_timestamp_def uint64_of_json_def assign_member_Inr [OF assms])

lemma read_payload_Inr:
  "read_payload api (j, d) = (Inr (), s') \<longleftrightarrow>
    (\<exists>d'. s' = (j, d') \<and> collect_numbers api (j_items api j) (d\<lparr>payload_values := []\<rparr>) = (Inr (), d'))"
  by (auto simp: read_payload_def split: prod.splits)

lemma read_sensor_type_Inr:
  "read_sensor_type api (j, d) = (Inr (), s') \<longleftrightarrow>
   s' = (j, d\<lparr>sensor_type := sensor_category api j\<rparr>)"
  by (auto simp: read_sensor_type_def)

lemma read_fields_Inr:
  assumes "json_member_law api member"
  shows "read_fields api clock_ns (j, d) = (Inr (), s') \<longleftrightarrow>
    (\<exists>rid seq ts d4.
       s' = (j, d4\<lparr>sensor_type := sensor_category api j\<rparr>) \<and>
       collect_numbers api (j_items api j)
         (d\<lparr>robot_id := rid, sequence_id := seq, timestamp_ns := ts, payload_values := []\<rparr>)
         = (Inr (), d4) \<and>
       robot_id_of_json api member j rid \<and>
       uint64_of_json api member ''sequence_id'' 0 j seq \<and>
       uint64_of_json api member ''timestamp_ns'' (word_of_int clock_ns) j ts)"
  unfolding read_fields_def and_then_Inr read_robot_id_Inr [OF assms]
  by (auto simp: read_sequence_id_Inr [OF assms] read_timestamp_Inr [OF assms]
      read_payload_Inr read_sensor_type_Inr)

lemma read_fields_frame_of_json:
  assumes laws: "json_member_law api member"
    and read: "read_fields api clock_ns (j, d) = (Inr (), j', d')"
  shows "frame_of_json api member clock_ns j d'"
proof -
  obtain rid seq ts d4 where d': "d' = d4\<lparr>sensor_type := sensor_category api j\<rparr>"
    and collected: "collect_numbers api (j_items api j)
       (d\<lparr>robot_id := rid, sequence_id := seq, timestamp_ns := ts, payload_values := []\<rparr>) = (Inr (), d4)"
    and fields: "robot_id_of_json api member j rid" "uint64_of_json api member ''sequence_id'' 0 j seq"
      "uint64_of_json api member ''timestamp_ns'' (word_of_int clock_ns) j ts"
    using read unfolding read_fields_Inr [OF laws] by blast
  have d4: "robot_id d4 = rid" "sequence_id d4 = seq" "timestamp_ns d4 = ts"
    using collect_numbers_frame [OF collected] by simp_all
  have "distinct (map fst (j_items api j))"
    using laws by (simp add: json_member_law_def)
  then have "map_of (payload_values d4) k = Option.bind (map_of (j_items api j) k) (number_of api)" for k
    using collect_numbers_map [OF collected, of k]
    by (simp add: number_of_def split: option.splits)
  moreover have "payload_wf d4"
    by (rule collect_numbers_wf [OF collected]) (simp add: payload_wf_def)
  ultimately show ?thesis
    using fields by (simp add: frame_of_json_def d' d4 payload_wf_def)
qed

text \<open>Every frame a document describes is read.\<close>

lemma read_fields_total:
  assumes "json_member_law api member" "json_number_law api" "frame_of_json api member clock_ns j f"
  shows "\<exists>d. read_fields api clock_ns (j, out) = (Inr (), j, d)"
proof -
  obtain d4 where "collect_numbers api (j_items api j)
      (out\<lparr>robot_id := robot_id f, sequence_id := sequence_id f, timestamp_ns := timestamp_ns f,
         payload_values := []\<rparr>) = (Inr (), d4)"
    using collect_numbers_total [OF assms(2)] by blast
  with assms(3) show ?thesis
    unfolding read_fields_Inr [OF assms(1)] frame_of_json_def by blast
qed

text \<open>The frame does not depend on what the caller's variable held before.\<close>

lemma read_fields_independent:
  assumes laws: "json_member_law api member"
    and read: "read_fields api clock_ns (j, d) = (Inr (), j', d')"
  shows "read_fields api clock_ns (j, d2) = (Inr (), j', d')"
proof -
  obtain rid seq ts d4 where d': "j' = j" "d' = d4\<lparr>sensor_type := sensor_category api j\<rparr>"
    and collected: "collect_numbers api (j_items api j)
       (d\<lparr>robot_id := rid, sequence_id := seq, timestamp_ns := ts, payload_values := []\<rparr>) = (Inr (), d4)"
    and fields: "robot_id_of_json api member j rid" "uint64_of_json api member ''sequence_id'' 0 j seq"
      "uint64_of_json api member ''timestamp_ns'' (word_of_int clock_ns) j ts"
    using read unfolding read_fields_Inr [OF laws] by blast
  let ?e = "d\<lparr>robot_id := rid, sequence_id := seq, timestamp_ns := ts, payload_values := []\<rparr>"
  let ?e2 = "d2\<lparr>robot_id := rid, sequence_id := seq, timestamp_ns := ts, payload_values := []\<rparr>"
  obtain r d5 where run: "collect_numbers api (j_items api j) ?e2 = (r, d5)"
    by (cases "collect_numbers api (j_items api j) ?e2")
  have same: "r = Inr ()" "payload_values d5 = payload_values d4"
    using collect_numbers_same [of ?e ?e2 api "j_items api j"] collected run by auto
  have "d' = d5\<lparr>sensor_type := sensor_category api j\<rparr>"
    using collect_numbers_frame [OF collected] collect_numbers_frame [OF run] same d' by simp
  then show ?thesis
    unfolding read_fields_Inr [OF laws] using fields run same d'(1) by blast
qed

section \<open>Which exceptions leave parse_and_validate\<close>

lemma assign_member_Inl:
  "assign_member api key conv assign s = (Inl x, s') \<Longrightarrow>
   j_index api (fst s) key = Inl x \<or> (\<exists>j elem. j_index api (fst s) key = Inr (j, elem) \<and> conv elem = Inl x)"
  by (auto simp: assign_member_def split: prod.splits sum.splits)

lemma collect_numbers_Inl:
  "collect_numbers api items d = (Inl x, d') \<Longrightarrow> \<exists>j. j_get_double api j = Inl x"
  by (induction api items d rule: collect_numbers.induct) (auto split: if_splits sum.splits)

lemma and_then_Inl:
  "and_then f g s = (Inl x, s') \<Longrightarrow> f s = (Inl x, s') \<or> (\<exists>s1. g s1 = (Inl x, s'))"
  by (auto simp: and_then_def split: prod.splits sum.splits)

lemma read_steps_no_parse_error:
  assumes "json_error_law api"
  shows "read_robot_id api s = (Inl x, s') \<Longrightarrow> \<not> is_parse_error x"
    and "read_sequence_id api s = (Inl x, s') \<Longrightarrow> \<not> is_parse_error x"
    and "read_timestamp api clock_ns s = (Inl x, s') \<Longrightarrow> \<not> is_parse_error x"
    and "read_payload api s = (Inl x, s') \<Longrightarrow> \<not> is_parse_error x"
  using assms
  by (auto simp: read_robot_id_def read_sequence_id_def read_timestamp_def read_payload_def
      json_error_law_def split: if_splits prod.splits dest!: assign_member_Inl collect_numbers_Inl)

lemma read_fields_no_parse_error:
  assumes "json_error_law api" and "read_fields api clock_ns s = (Inl x, s')"
  shows "\<not> is_parse_error x"
  using assms(2) unfolding read_fields_def
  by (auto dest!: and_then_Inl read_steps_no_parse_error [OF assms(1)] simp: read_sensor_type_def)

lemma parse_and_validate_syntax_error:
  "j_parse api s = Inl x \<Longrightarrow>
   parse_and_validate api clock_ns s out =
     (if is_parse_error x then Inr INVALID_JSON_SYNTAX else Inl x, out)"
  by (simp add: parse_and_validate_def)

lemma parse_and_validate_parsed:
  assumes "json_error_law api" and "j_parse api s = Inr j"
  shows "parse_and_validate api clock_ns s out =
    (case read_fields api clock_ns (j, out) of
       (Inl x, _, d) \<Rightarrow> (Inl x, d) | (Inr _, _, d) \<Rightarrow> (Inr SUCCESS, d))"
  using assms(2) read_fields_no_parse_error [OF assms(1)]
  by (auto simp: parse_and_validate_def split: prod.splits sum.splits)

lemma parse_and_validate_SUCCESS:
  assumes "json_error_law api"
  shows "parse_and_validate api clock_ns s out = (Inr SUCCESS, d) \<longleftrightarrow>
    (\<exists>j j'. j_parse api s = Inr j \<and> read_fields api clock_ns (j, out) = (Inr (), j', d))"
proof (cases "j_parse api s")
  case (Inl x)
  then show ?thesis by (simp add: parse_and_validate_syntax_error)
next
  case (Inr j)
  then show ?thesis
    by (auto simp: parse_and_validate_parsed [OF assms Inr] split: prod.splits sum.splits)
qed

lemma parse_and_validate_status:
  "parse_and_validate api clock_ns s out = (Inr st, d) \<Longrightarrow> st = SUCCESS \<or> st = INVALID_JSON_SYNTAX"
  by (auto simp: parse_and_validate_def Let_def split: prod.splits sum.splits if_splits)

end
