(* ===== verification/Gateway_Node.thy ===== *)
theory Gateway_Node
  imports Security_Engine Ingestion Storage_Engine
begin

text \<open>
  \<^verbatim>\<open>ros::GatewayNode\<close> (ros/gateway_node.hpp and .cpp): the node that decrypts and parses the packets it
  receives, queues the frames, and stores and publishes them in a worker thread.

  The state extends the state of the storage engine with the other members. The rclcpp library is a
  parameter: the values of the node parameters after their declaration, the clock, and the answers of
  \<^verbatim>\<open>rclcpp::ok()\<close>; the messages handed to the three publishers are collected in \<open>published\<close>. The
  subscription and the publishers carry no state of the program: they are the list \<open>node_endpoints\<close>.
  Left out are the members \<^verbatim>\<open>secret_key_\<close> and \<^verbatim>\<open>iv_\<close>, which no code reads or writes.

  The worker is a program counter with one step per statement that another thread can observe; the
  thread that destroys the node is a second one.
\<close>

section \<open>Messages\<close>

record battery_state =
  battery_stamp :: int
  battery_frame_id :: string
  percentage :: float32

record temperature_msg =
  temp_stamp :: int
  temp_frame_id :: string
  temperature :: double

record twist_stamped =
  twist_stamp :: int
  twist_frame_id :: string
  linear_x :: double

datatype ros_message =
    Battery_Msg battery_state
  | Temperature_Msg temperature_msg
  | Twist_Msg twist_stamped

definition ros_message_of :: "int \<Rightarrow> telemetry_data \<Rightarrow> ros_message option" where
  \<comment> \<open>the message \<open>publish_ros_messages\<close> builds at the time \<open>now\<close>, if it builds one; a field the
      payload does not give keeps the zero of the default constructor\<close>
  "ros_message_of now d =
     (if sensor_type d = ''battery''
      then Some (Battery_Msg
             \<lparr>battery_stamp = now, battery_frame_id = robot_id d,
              percentage = (case map_of (payload_values d) ''battery'' of
                              None \<Rightarrow> 0 | Some v \<Rightarrow> double_to_float v)\<rparr>)
      else if sensor_type d = ''temperature''
      then Some (Temperature_Msg
             \<lparr>temp_stamp = now, temp_frame_id = robot_id d,
              temperature = (case map_of (payload_values d) ''temperature'' of
                               None \<Rightarrow> 0 | Some v \<Rightarrow> v)\<rparr>)
      else if sensor_type d = ''velocity''
      then Some (Twist_Msg
             \<lparr>twist_stamp = now, twist_frame_id = robot_id d,
              linear_x = (case map_of (payload_values d) ''velocity_x'' of
                            None \<Rightarrow> 0 | Some v \<Rightarrow> v)\<rparr>)
      else None)"

section \<open>Topics\<close>

datatype msg_type = String_Type | Battery_Type | Temperature_Type | Twist_Type

datatype qos = Keep_Last nat | Sensor_Data

datatype endpoint =
    Subscription string msg_type qos
  | Publisher string msg_type qos

definition node_endpoints :: "endpoint list" where
  \<comment> \<open>what \<open>init_subsystems\<close> creates: the subscription of the callback and the three publishers\<close>
  "node_endpoints =
     [Subscription ''~/telemetry_raw'' String_Type (Keep_Last 10),
      Publisher ''~/telemetry/battery'' Battery_Type Sensor_Data,
      Publisher ''~/telemetry/temperature'' Temperature_Type Sensor_Data,
      Publisher ''~/telemetry/velocity'' Twist_Type Sensor_Data]"

fun publisher_of :: "ros_message \<Rightarrow> endpoint" where
  \<comment> \<open>the publisher \<open>publish_ros_messages\<close> hands the message to\<close>
  "publisher_of (Battery_Msg b) = Publisher ''~/telemetry/battery'' Battery_Type Sensor_Data"
| "publisher_of (Temperature_Msg t) = Publisher ''~/telemetry/temperature'' Temperature_Type Sensor_Data"
| "publisher_of (Twist_Msg t) = Publisher ''~/telemetry/velocity'' Twist_Type Sensor_Data"

lemma publisher_of_created: "publisher_of m \<in> set node_endpoints"
  by (cases m) (simp_all add: node_endpoints_def)

section \<open>The state of the node\<close>

record ('w, 'h, 's) gateway = "('w, 'h, 's) storage" +
  rate_limiter :: security_engine
  telemetry_queue :: "telemetry_data cqueue"
  running :: bool
  published :: "ros_message list"

datatype param_value = Param_String string | Param_Double double | Param_Bool bool

type_synonym param_api = "string \<Rightarrow> param_value \<Rightarrow> param_value"

definition declare_node_parameters :: "param_api \<Rightarrow> (string \<times> param_value) list" where
  \<comment> \<open>the parameter server: the value of each parameter after its declaration with a default
      (\<open>0x407F400000000000\<close> is 500.0, \<open>0x408F400000000000\<close> is 1000.0)\<close>
  "declare_node_parameters decl =
     map (\<lambda>(name, def). (name, decl name def))
       [(''db_path'', Param_String ''data/telemetry_history.db''),
        (''max_rate_pps'', Param_Double 0x407F400000000000),
        (''burst_capacity'', Param_Double 0x408F400000000000),
        (''enable_encryption'', Param_Bool True)]"

definition param_string :: "(string \<times> param_value) list \<Rightarrow> string \<Rightarrow> exn + string" where
  \<comment> \<open>\<open>get_parameter(name).as_string()\<close>: throws when the parameter is missing or of another type\<close>
  "param_string params name =
     (case map_of params name of
        Some (Param_String s) \<Rightarrow> Inr s
      | _ \<Rightarrow> Inl (Other_exception ''parameter''))"

definition init_subsystems ::
  "('w, 'h, 's) store_api \<Rightarrow> (string \<times> param_value) list \<Rightarrow> 'w env \<Rightarrow>
   exn + ('w, 'h, 's) storage" where
  \<comment> \<open>a failing \<open>init\<close> is logged and otherwise ignored\<close>
  "init_subsystems api params e =
     (case param_string params ''db_path'' of
        Inl x \<Rightarrow> Inl x
      | Inr path \<Rightarrow>
          (let (ok, s) = init_engine api (storage_new path e)
           in Inr (if ok then s
                   else log_msg Error
                     ''GatewayNode: Failed to initialize Storage Engine at path: {}'' [path] s)))"

definition gateway_new ::
  "('w, 'h, 's) store_api \<Rightarrow> param_api \<Rightarrow> 'w env \<Rightarrow> exn + ('w, 'h, 's) gateway" where
  "gateway_new api decl e =
     (let e = log_msg Info ''Initializing Secure Telemetry Gateway ROS 2 Node...'' [] e
      in case init_subsystems api (declare_node_parameters decl) e of
           Inl x \<Rightarrow> Inl x
         | Inr s \<Rightarrow>
             Inr (log_msg Info ''Gateway ROS 2 Node initialized and worker thread started.'' []
               (storage.extend s
                  (gateway.fields \<lparr>buckets = []\<rparr> (cq_new 1000) True []))))"

section \<open>Receiving\<close>

definition PRE_SHARED_KEY :: bytes where
  "PRE_SHARED_KEY =
     [0x60, 0x3d, 0xeb, 0x10, 0x15, 0xca, 0x71, 0xbe,
      0x2b, 0x73, 0xae, 0xf0, 0x85, 0x7d, 0x77, 0x81,
      0x1f, 0x35, 0x2c, 0x07, 0x3b, 0x61, 0x08, 0xd7,
      0x2d, 0x98, 0x10, 0xa3, 0x09, 0x14, 0xdf, 0xf4]"

definition accept_plaintext ::
  "'j json_api \<Rightarrow> int \<Rightarrow> bytes \<Rightarrow> ('w, 'h, 's, 'm) gateway_scheme \<Rightarrow>
   (exn + bool) \<times> ('w, 'h, 's, 'm) gateway_scheme" where
  \<comment> \<open>the second half of \<open>process_incoming_raw_payload\<close>, after a decryption that succeeded; the
      result of the push is ignored\<close>
  "accept_plaintext json clock_ns plaintext_bytes g =
     (let (status, telemetry_data) =
        parse_and_validate json clock_ns (string_of_bytes plaintext_bytes) empty_telemetry
      in case status of
           Inl x \<Rightarrow> (Inl x, g)
         | Inr st \<Rightarrow>
             if st \<noteq> SUCCESS
             then (Inr False, log_msg Error ''GatewayNode: Failed to parse decrypted payload. Code: {}''
                                [nat_digits (ingestion_status_code st)] g)
             else (Inr True,
                   g\<lparr>telemetry_queue := snd (cq_push telemetry_data (telemetry_queue g))\<rparr>))"

definition process_incoming_raw_payload ::
  "('w, 'c) evp_api \<Rightarrow> 'j json_api \<Rightarrow> int \<Rightarrow> string \<Rightarrow> bytes \<Rightarrow> bytes \<Rightarrow> bytes \<Rightarrow>
   ('w, 'h, 's, 'm) gateway_scheme \<Rightarrow>
   ((exn + bool) \<times> ('w, 'h, 's, 'm) gateway_scheme) option" where
  \<comment> \<open>\<open>None\<close>: undefined behaviour in the decryption. The arguments of \<open>decrypt_aes_gcm\<close> are in the
      order of the call: payload, tag, key, iv (\<open>0x4024000000000000\<close> is 10.0 and
      \<open>0x4034000000000000\<close> is 20.0)\<close>
  "process_incoming_raw_payload evp json clock_ns sender_id encrypted_payload iv tag g =
     (let (allowed, se) =
            check_rate_limit sender_id 0x4024000000000000 0x4034000000000000 (rate_limiter g);
          g = g\<lparr>rate_limiter := se\<rparr>
      in if \<not> allowed
         then Some (Inr False,
                log_msg Warn ''GatewayNode: Rate limit exceeded for '{}'. Dropping packet.''
                  [sender_id] g)
         else case decrypt_aes_gcm evp encrypted_payload tag PRE_SHARED_KEY iv [] g of
                None \<Rightarrow> None
              | Some (ok, plaintext_bytes, g) \<Rightarrow>
                  if \<not> ok
                  then Some (Inr False,
                         log_msg Error (''GatewayNode: Decryption failed for sender '{}'' @ [CHR 0x27]) [sender_id] g)
                  else Some (accept_plaintext json clock_ns plaintext_bytes g))"

definition log_raw_error ::
  "exn \<Rightarrow> ('w, 'm) env_scheme \<Rightarrow> ('w, 'm) env_scheme" where
  \<comment> \<open>the catch clause of the callback\<close>
  "log_raw_error x =
     log_msg Error ''GatewayNode: Failed to parse incoming raw telemetry JSON: {}'' [exn_what x]"

definition member_as ::
  "'j json_api \<Rightarrow> string \<Rightarrow> ('j \<Rightarrow> exn + 'a) \<Rightarrow> 'j \<Rightarrow> exn + 'j \<times> 'a" where
  \<comment> \<open>\<open>T v = j[key]\<close>: index, then convert\<close>
  "member_as json key conv j =
     (case j_index json j key of
        Inl x \<Rightarrow> Inl x
      | Inr (j', elem) \<Rightarrow> (case conv elem of Inl x \<Rightarrow> Inl x | Inr v \<Rightarrow> Inr (j', v)))"

definition read_envelope ::
  "'j json_api \<Rightarrow> string \<Rightarrow> exn + string \<times> bytes \<times> bytes \<times> bytes" where
  \<comment> \<open>the body of the try block up to the call: sender, ciphertext, iv, tag\<close>
  "read_envelope json data =
     (case j_parse json data of Inl x \<Rightarrow> Inl x | Inr j \<Rightarrow>
        case member_as json ''client_id'' (j_get_string json) j of Inl x \<Rightarrow> Inl x | Inr (j, sender_id) \<Rightarrow>
        case member_as json ''ciphertext'' (j_get_bytes json) j of Inl x \<Rightarrow> Inl x | Inr (j, payload) \<Rightarrow>
        case member_as json ''iv'' (j_get_bytes json) j of Inl x \<Rightarrow> Inl x | Inr (j, iv) \<Rightarrow>
        case member_as json ''tag'' (j_get_bytes json) j of Inl x \<Rightarrow> Inl x | Inr (j, tag) \<Rightarrow>
          Inr (sender_id, payload, iv, tag))"

definition raw_telemetry_callback ::
  "('w, 'c) evp_api \<Rightarrow> 'j json_api \<Rightarrow> int \<Rightarrow> string \<Rightarrow> ('w, 'h, 's, 'm) gateway_scheme \<Rightarrow>
   ('w, 'h, 's, 'm) gateway_scheme option" where
  "raw_telemetry_callback evp json clock_ns data g =
     (case read_envelope json data of
        Inl x \<Rightarrow> Some (log_raw_error x g)
      | Inr (sender_id, payload, iv, tag) \<Rightarrow>
          (case process_incoming_raw_payload evp json clock_ns sender_id payload iv tag g of
             None \<Rightarrow> None
           | Some (Inl x, g) \<Rightarrow> Some (log_raw_error x g)
           | Some (Inr _, g) \<Rightarrow> Some g))"

section \<open>The worker thread\<close>

definition publish_ros_messages ::
  "int \<Rightarrow> telemetry_data \<Rightarrow> ('w, 'h, 's, 'm) gateway_scheme \<Rightarrow> ('w, 'h, 's, 'm) gateway_scheme" where
  "publish_ros_messages now d g =
     (case ros_message_of now d of
        None \<Rightarrow> g
      | Some m \<Rightarrow> g\<lparr>published := published g @ [m]\<rparr>)"

datatype worker_pc =
    W_Start
  | W_Test
  | W_Pop
  | W_Insert telemetry_data
  | W_Publish telemetry_data
  | W_Sleep
  | W_Exited

fun worker_step ::
  "('w, 'h, 's) store_api \<Rightarrow> bool \<Rightarrow> int \<Rightarrow> worker_pc \<times> ('w, 'h, 's, 'm) gateway_scheme \<Rightarrow>
   worker_pc \<times> ('w, 'h, 's, 'm) gateway_scheme" where
  \<comment> \<open>one step of \<open>worker_thread_loop\<close>; the booleans of \<open>rclcpp::ok()\<close> and the clock are inputs;
      \<open>storage_engine_\<close> is set by the constructor and never reset, so its test holds\<close>
  "worker_step api ros_ok now (W_Start, g) =
     (W_Test, log_msg Info ''Gateway worker thread running...'' [] g)"
| "worker_step api ros_ok now (W_Test, g) =
     (if running g \<and> ros_ok then (W_Pop, g)
      else (W_Exited, log_msg Info ''Gateway worker thread exiting.'' [] g))"
| "worker_step api ros_ok now (W_Pop, g) =
     (case cq_pop (telemetry_queue g) of
        (Some d, q) \<Rightarrow> (W_Insert d, g\<lparr>telemetry_queue := q\<rparr>)
      | (None, q) \<Rightarrow> (W_Sleep, g\<lparr>telemetry_queue := q\<rparr>))"
| "worker_step api ros_ok now (W_Insert d, g) = (W_Publish d, snd (insert_telemetry api d g))"
| "worker_step api ros_ok now (W_Publish d, g) = (W_Test, publish_ros_messages now d g)"
| "worker_step api ros_ok now (W_Sleep, g) = (W_Test, g)"
| "worker_step api ros_ok now (W_Exited, g) = (W_Exited, g)"

section \<open>Destruction\<close>

definition stop_running :: "('w, 'h, 's, 'm) gateway_scheme \<Rightarrow> ('w, 'h, 's, 'm) gateway_scheme" where
  \<comment> \<open>the destructor up to the join\<close>
  "stop_running g = (log_msg Info ''Shutting down Gateway ROS 2 Node...'' [] g)\<lparr>running := False\<rparr>"

definition finish_shutdown ::
  "('w, 'h, 's) store_api \<Rightarrow> ('w, 'h, 's, 'm) gateway_scheme \<Rightarrow> ('w, 'h, 's, 'm) gateway_scheme" where
  \<comment> \<open>the destructor after the join\<close>
  "finish_shutdown api g =
     log_msg Info ''Gateway ROS 2 Node shutdown complete.'' [] (close_engine api g)"

end
