(* ===== verification/Gateway_Threads.thy ===== *)
theory Gateway_Threads
  imports Gateway_Node Storage_Contract
begin

text \<open>
  The gateway node as a system of threads: the executor that runs the callback, the worker, and the
  thread that destroys the node. A step relation interleaves their steps; every step is labelled with
  what it does to a frame, so that the invariants can speak about the whole history.

  The handler of the received messages is a parameter of the relation. Its contract is the locale
  \<open>packet_receiver\<close>: it appends accepted frames to the queue, within the capacity, and touches nothing
  else but the log. It is interpreted twice, on \<open>raw_telemetry_callback\<close> as it is written, and on
  \<open>callback_after_decrypt\<close>, the same callback from the point where the decryption has delivered a
  plaintext.
\<close>

section \<open>Steps\<close>

datatype owner_pc = O_Alive | O_Joining | O_Joined | O_Destroyed

datatype node_event =
    Ev_Accept telemetry_data
  | Ev_Store telemetry_data bool
  | Ev_Publish telemetry_data int

type_synonym ('w, 'h, 's) node_state = "owner_pc \<times> worker_pc \<times> ('w, 'h, 's) gateway"

definition new_frames ::
  "('w, 'h, 's) gateway \<Rightarrow> ('w, 'h, 's) gateway \<Rightarrow> telemetry_data list" where
  \<comment> \<open>what a handler has appended to the queue\<close>
  "new_frames g g' =
     drop (length (queue_items (telemetry_queue g))) (queue_items (telemetry_queue g'))"

fun worker_events ::
  "('w, 'h, 's) store_api \<Rightarrow> int \<Rightarrow> worker_pc \<Rightarrow> ('w, 'h, 's) gateway \<Rightarrow> node_event list" where
  "worker_events api now (W_Insert d) g = [Ev_Store d (fst (insert_telemetry api d g))]"
| "worker_events api now (W_Publish d) g = [Ev_Publish d now]"
| "worker_events api now _ g = []"

inductive node_step ::
  "('w, 'h, 's) store_api \<Rightarrow> ('p \<Rightarrow> ('w, 'h, 's) gateway \<Rightarrow> ('w, 'h, 's) gateway option) \<Rightarrow>
   ('w, 'h, 's) node_state \<Rightarrow> node_event list \<Rightarrow> ('w, 'h, 's) node_state \<Rightarrow> bool"
  for api recv where
  receive: "recv p g = Some g' \<Longrightarrow>
     node_step api recv (O_Alive, pc, g) (map Ev_Accept (new_frames g g')) (O_Alive, pc, g')"
| work: "pc \<noteq> W_Exited \<Longrightarrow> worker_step api ros_ok now (pc, g) = (pc', g') \<Longrightarrow>
     node_step api recv (owner, pc, g) (worker_events api now pc g) (owner, pc', g')"
| stop: "node_step api recv (O_Alive, pc, g) [] (O_Joining, pc, stop_running g)"
| join: "node_step api recv (O_Joining, W_Exited, g) [] (O_Joined, W_Exited, g)"
| destroy: "node_step api recv (O_Joined, pc, g) [] (O_Destroyed, pc, finish_shutdown api g)"

inductive node_run ::
  "('w, 'h, 's) store_api \<Rightarrow> ('p \<Rightarrow> ('w, 'h, 's) gateway \<Rightarrow> ('w, 'h, 's) gateway option) \<Rightarrow>
   ('w, 'h, 's) node_state \<Rightarrow> node_event list \<Rightarrow> ('w, 'h, 's) node_state \<Rightarrow> bool"
  for api recv s where
  none: "node_run api recv s [] s"
| more: "node_run api recv s es t \<Longrightarrow> node_step api recv t fs u \<Longrightarrow> node_run api recv s (es @ fs) u"

inductive_cases destroyed_cases: "node_step api recv (O_Destroyed, W_Exited, g) es s'"

definition node_start :: "('w, 'h, 's) gateway \<Rightarrow> ('w, 'h, 's) node_state" where
  "node_start g = (O_Alive, W_Start, g)"

section \<open>Histories\<close>

definition accepted :: "node_event list \<Rightarrow> telemetry_data list" where
  "accepted es = concat (map (\<lambda>e. case e of Ev_Accept d \<Rightarrow> [d] | _ \<Rightarrow> []) es)"

definition handled :: "node_event list \<Rightarrow> (telemetry_data \<times> bool) list" where
  \<comment> \<open>the frames given to the storage engine, with its answers\<close>
  "handled es = concat (map (\<lambda>e. case e of Ev_Store d ok \<Rightarrow> [(d, ok)] | _ \<Rightarrow> []) es)"

definition publications :: "node_event list \<Rightarrow> (telemetry_data \<times> int) list" where
  "publications es = concat (map (\<lambda>e. case e of Ev_Publish d now \<Rightarrow> [(d, now)] | _ \<Rightarrow> []) es)"

lemma accepted_append [simp]: "accepted (es @ fs) = accepted es @ accepted fs"
  by (simp add: accepted_def)

lemma handled_append [simp]: "handled (es @ fs) = handled es @ handled fs"
  by (simp add: handled_def)

lemma publications_append [simp]: "publications (es @ fs) = publications es @ publications fs"
  by (simp add: publications_def)

lemma events_nil [simp]: "accepted [] = []" "handled [] = []" "publications [] = []"
  by (simp_all add: accepted_def handled_def publications_def)

lemma events_accept [simp]:
  "accepted (map Ev_Accept ds) = ds" "handled (map Ev_Accept ds) = []"
  "publications (map Ev_Accept ds) = []"
  by (induction ds) (simp_all add: accepted_def handled_def publications_def)

lemma events_single [simp]:
  "accepted [Ev_Store d ok] = []" "handled [Ev_Store d ok] = [(d, ok)]"
  "publications [Ev_Store d ok] = []"
  "accepted [Ev_Publish d now] = []" "handled [Ev_Publish d now] = []"
  "publications [Ev_Publish d now] = [(d, now)]"
  by (simp_all add: accepted_def handled_def publications_def)

definition stored_frames :: "node_event list \<Rightarrow> telemetry_data list" where
  "stored_frames es = map fst (filter snd (handled es))"

definition messages_of :: "(telemetry_data \<times> int) list \<Rightarrow> ros_message list" where
  "messages_of ps = concat (map (\<lambda>(d, now). case ros_message_of now d of None \<Rightarrow> [] | Some m \<Rightarrow> [m]) ps)"

fun in_flight :: "worker_pc \<Rightarrow> telemetry_data list" where
  \<comment> \<open>the frame the worker has popped and not yet given to the storage engine\<close>
  "in_flight (W_Insert d) = [d]"
| "in_flight _ = []"

fun to_publish :: "worker_pc \<Rightarrow> telemetry_data list" where
  "to_publish (W_Publish d) = [d]"
| "to_publish _ = []"

section \<open>Invariants\<close>

definition pipeline_inv :: "('w, 'h, 's) node_state \<Rightarrow> node_event list \<Rightarrow> bool" where
  \<comment> \<open>the frames accepted so far are those handled, the one in flight and those queued, in this order\<close>
  "pipeline_inv s es \<longleftrightarrow>
     (case s of (owner, pc, g) \<Rightarrow>
        accepted es = map fst (handled es) @ in_flight pc @ queue_items (telemetry_queue g) \<and>
        cq_size (telemetry_queue g) \<le> max_capacity (telemetry_queue g) \<and>
        max_capacity (telemetry_queue g) = 1000)"

definition publish_inv :: "('w, 'h, 's) node_state \<Rightarrow> node_event list \<Rightarrow> bool" where
  "publish_inv s es \<longleftrightarrow>
     (case s of (owner, pc, g) \<Rightarrow>
        map fst (handled es) = map fst (publications es) @ to_publish pc \<and>
        published g = messages_of (publications es))"

definition thread_inv :: "('w, 'h, 's) node_state \<Rightarrow> bool" where
  "thread_inv s \<longleftrightarrow>
     (case s of (owner, pc, g) \<Rightarrow>
        (running g \<longleftrightarrow> owner = O_Alive) \<and> (owner \<in> {O_Joined, O_Destroyed} \<longrightarrow> pc = W_Exited))"

definition rows_inv ::
  "('w, 'h, 's) store_api \<Rightarrow> ('w \<Rightarrow> ('h, 's) db_view) \<Rightarrow> row list \<Rightarrow> ('w, 'h, 's) node_state \<Rightarrow>
   node_event list \<Rightarrow> bool" where
  "rows_inv api view rows s es \<longleftrightarrow>
     (case s of (owner, pc, g) \<Rightarrow>
        (if owner = O_Destroyed then engine_dead g \<and> handles_released g else engine_sound api view g) \<and>
        stored_rows view g = rows @ map (telemetry_row (map_order api)) (stored_frames es))"

lemmas inv_defs = pipeline_inv_def publish_inv_def thread_inv_def rows_inv_def

definition queue_frame :: "('w, 'h, 's) gateway \<Rightarrow> ('w, 'h, 's) gateway \<Rightarrow> bool" where
  \<comment> \<open>the second state differs in the log, the rate limiter and the queue only\<close>
  "queue_frame g g' \<longleftrightarrow>
     (\<exists>l se q. g' = g\<lparr>logs := l, rate_limiter := se, telemetry_queue := q\<rparr>)"

lemma queue_frame_fields:
  assumes "queue_frame g g'"
  shows "ext g' = ext g" "running g' = running g" "published g' = published g"
    "db g' = db g" "insert_stmt g' = insert_stmt g" "init_done g' = init_done g"
    "is_initialized g' = is_initialized g"
  using assms by (auto simp: queue_frame_def)

lemma queue_frame_engine:
  assumes "queue_frame g g'"
  shows "engine_sound api view g' = engine_sound api view g" "stored_rows view g' = stored_rows view g"
  by (simp_all add: queue_frame_fields [OF assms] engine_sound_def store_inv_def engine_ready_def
      engine_dead_def handles_released_def stored_rows_def open_txn_def)

lemma only_world_gateway:
  fixes g g' :: "('w, 'h, 's) gateway"
  assumes "only_world g g'"
  shows "telemetry_queue g' = telemetry_queue g" "running g' = running g" "published g' = published g"
  using assms by (auto simp: only_world_def)

lemma gateway_log [simp]:
  fixes g :: "('w, 'h, 's) gateway"
  shows "telemetry_queue (log_msg l f a g) = telemetry_queue g" "running (log_msg l f a g) = running g"
    "published (log_msg l f a g) = published g"
  by (simp_all add: log_msg_def)

lemma gateway_close [simp]:
  fixes g :: "('w, 'h, 's) gateway"
  shows "telemetry_queue (close_engine api g) = telemetry_queue g"
    "running (close_engine api g) = running g" "published (close_engine api g) = published g"
  by (auto simp: close_engine_def close_internal_def Let_def split: option.splits)

lemma messages_of_append [simp]: "messages_of (ps @ qs) = messages_of ps @ messages_of qs"
  by (simp add: messages_of_def)

section \<open>The worker keeps the invariants\<close>

lemma insert_step_fields:
  fixes g g' :: "('w, 'h, 's) gateway"
  assumes "init_done g" "insert_telemetry api d g = (ok, g')"
  shows "telemetry_queue g' = telemetry_queue g" "running g' = running g" "published g' = published g"
  using only_world_gateway [OF insert_telemetry_frame [OF assms]] by simp_all

lemma worker_pipeline:
  assumes "pipeline_inv (owner, pc, g) es" "init_done g"
    and "worker_step api ros_ok now (pc, g) = (pc', g')"
  shows "pipeline_inv (owner, pc', g') (es @ worker_events api now pc g)"
proof (cases pc)
  case W_Pop
  then show ?thesis
    using assms by (auto simp: pipeline_inv_def cq_pop_def cq_size_def split: list.splits)
next
  case (W_Insert d)
  obtain ok g1 where run: "insert_telemetry api d g = (ok, g1)"
    by (cases "insert_telemetry api d g")
  show ?thesis
    using assms W_Insert run insert_step_fields [OF assms(2) run] by (auto simp: pipeline_inv_def)
next
  case (W_Publish d)
  then show ?thesis
    using assms by (auto simp: pipeline_inv_def publish_ros_messages_def split: option.splits)
qed (use assms in \<open>auto simp: pipeline_inv_def split: if_splits\<close>)

lemma worker_publish:
  assumes "publish_inv (owner, pc, g) es" "init_done g"
    and "worker_step api ros_ok now (pc, g) = (pc', g')"
  shows "publish_inv (owner, pc', g') (es @ worker_events api now pc g)"
proof (cases pc)
  case W_Pop
  then show ?thesis
    using assms by (auto simp: publish_inv_def cq_pop_def split: list.splits)
next
  case (W_Insert d)
  obtain ok g1 where run: "insert_telemetry api d g = (ok, g1)"
    by (cases "insert_telemetry api d g")
  show ?thesis
    using assms W_Insert run insert_step_fields [OF assms(2) run] by (auto simp: publish_inv_def)
next
  case (W_Publish d)
  then show ?thesis
    using assms
    by (auto simp: publish_inv_def publish_ros_messages_def messages_of_def split: option.splits)
qed (use assms in \<open>auto simp: publish_inv_def split: if_splits\<close>)

lemma worker_running:
  fixes g g' :: "('w, 'h, 's) gateway"
  assumes "init_done g" "worker_step api ros_ok now (pc, g) = (pc', g')"
  shows "running g' = running g"
proof (cases pc)
  case (W_Insert d)
  obtain ok g1 where run: "insert_telemetry api d g = (ok, g1)"
    by (cases "insert_telemetry api d g")
  show ?thesis
    using assms W_Insert run insert_step_fields [OF assms(1) run] by auto
qed (use assms in \<open>auto simp: cq_pop_def publish_ros_messages_def
       split: if_splits list.splits option.splits\<close>)

lemma gateway_fields_engine [frame_simps]:
  "engine_sound api view (g\<lparr>telemetry_queue := q\<rparr>) = engine_sound api view g"
  "engine_sound api view (g\<lparr>published := ms\<rparr>) = engine_sound api view g"
  "engine_sound api view (g\<lparr>running := b\<rparr>) = engine_sound api view g"
  "stored_rows view (g\<lparr>running := b\<rparr>) = stored_rows view g"
  "stored_rows view (g\<lparr>telemetry_queue := q\<rparr>) = stored_rows view g"
  "stored_rows view (g\<lparr>published := ms\<rparr>) = stored_rows view g"
  by (simp_all add: engine_sound_def store_inv_def engine_ready_def engine_dead_def
      handles_released_def stored_rows_def open_txn_def)

lemma stored_frames_append [simp]:
  "stored_frames (es @ fs) = stored_frames es @ stored_frames fs"
  by (simp add: stored_frames_def)

lemma stored_frames_events [simp]:
  "stored_frames [] = []" "stored_frames [Ev_Store d ok] = (if ok then [d] else [])"
  "stored_frames [Ev_Publish d now] = []" "stored_frames (map Ev_Accept ds) = []"
  by (simp_all add: stored_frames_def)

lemma worker_rows:
  fixes g g' :: "('w, 'h, 's) gateway"
  assumes "rows_inv api view rows (owner, pc, g) es" "owner \<noteq> O_Destroyed"
    and "worker_step api ros_ok now (pc, g) = (pc', g')"
  shows "rows_inv api view rows (owner, pc', g') (es @ worker_events api now pc g)"
proof (cases pc)
  case (W_Insert d)
  obtain ok g1 where run: "insert_telemetry api d g = (ok, g1)"
    by (cases "insert_telemetry api d g")
  have sound: "engine_sound api view g"
    using assms(1,2) by (simp add: rows_inv_def)
  show ?thesis
    using assms W_Insert run sound_store.insert_inv [OF sound run] sound_store.insert_rows [OF sound run]
    by (auto simp: rows_inv_def)
qed (use assms in \<open>auto simp: rows_inv_def cq_pop_def publish_ros_messages_def frame_simps
       split: if_splits list.splits option.splits\<close>)

section \<open>The contract of a message handler\<close>

locale packet_receiver =
  fixes recv :: "'p \<Rightarrow> ('w, 'h, 's) gateway \<Rightarrow> ('w, 'h, 's) gateway option"
  assumes recv_frame: "recv p g = Some g' \<Longrightarrow> queue_frame g g'"
    and recv_appends: "recv p g = Some g' \<Longrightarrow>
      queue_items (telemetry_queue g') = queue_items (telemetry_queue g) @ new_frames g g'"
    and recv_bounded: "recv p g = Some g' \<Longrightarrow>
      cq_size (telemetry_queue g) \<le> max_capacity (telemetry_queue g) \<Longrightarrow>
      cq_size (telemetry_queue g') \<le> max_capacity (telemetry_queue g') \<and>
      max_capacity (telemetry_queue g') = max_capacity (telemetry_queue g)"
begin

lemma step_inv:
  assumes "node_step api recv s es s'"
    and "thread_inv s \<and> rows_inv api view rows s hist \<and> pipeline_inv s hist \<and> publish_inv s hist"
  shows "thread_inv s' \<and> rows_inv api view rows s' (hist @ es) \<and> pipeline_inv s' (hist @ es) \<and>
         publish_inv s' (hist @ es)"
  using assms
proof (cases rule: node_step.cases)
  case (receive p g g' pc)
  note frame = recv_frame [OF receive(4)]
  show ?thesis
    using assms(2) receive queue_frame_fields [OF frame] queue_frame_engine [OF frame]
      recv_appends [OF receive(4)] recv_bounded [OF receive(4)]
    by (auto simp: inv_defs)
next
  case (work pc ros_ok now g pc' g' owner)
  have alive: "owner \<noteq> O_Destroyed"
    using assms(2) work by (auto simp: thread_inv_def)
  then have "init_done g"
    using assms(2) work engine_sound_init_done by (auto simp: rows_inv_def)
  then show ?thesis
    using assms(2) work alive worker_pipeline worker_publish worker_running worker_rows
    unfolding thread_inv_def by fastforce
next
  case (stop pc g)
  then show ?thesis
    using assms(2) by (simp add: inv_defs stop_running_def frame_simps)
next
  case (join g)
  then show ?thesis
    using assms(2) by (simp add: inv_defs)
next
  case (destroy pc g)
  then show ?thesis
    using assms(2) close_engine_sound [of api view g]
    by (auto simp: inv_defs finish_shutdown_def handles_released_def)
qed

lemma run_inv:
  assumes "node_run api recv s es s'"
    and "thread_inv s \<and> rows_inv api view rows s [] \<and> pipeline_inv s [] \<and> publish_inv s []"
  shows "thread_inv s' \<and> rows_inv api view rows s' es \<and> pipeline_inv s' es \<and> publish_inv s' es"
  using assms by (induction rule: node_run.induct) (auto dest: step_inv)

end

section \<open>The handlers of the node\<close>

definition callback_after_decrypt ::
  "'j json_api \<Rightarrow> int \<times> bytes \<Rightarrow> ('w, 'h, 's) gateway \<Rightarrow> ('w, 'h, 's) gateway option" where
  \<comment> \<open>the callback from the point where the decryption has delivered a plaintext: the rest of
      \<open>process_incoming_raw_payload\<close>, and the catch clause around it\<close>
  "callback_after_decrypt json p g =
     (case accept_plaintext json (fst p) (snd p) g of
        (Inl x, g) \<Rightarrow> Some (log_raw_error x g)
      | (Inr _, g) \<Rightarrow> Some g)"

definition node_callback ::
  "('w, 'c) evp_api \<Rightarrow> 'j json_api \<Rightarrow> int \<times> string \<Rightarrow> ('w, 'h, 's) gateway \<Rightarrow>
   ('w, 'h, 's) gateway option" where
  "node_callback evp json p g = raw_telemetry_callback evp json (fst p) (snd p) g"

lemma queue_frame_intros [simp, intro]:
  "queue_frame g g" "queue_frame g (log_msg l f a g)" "queue_frame g (g\<lparr>rate_limiter := se\<rparr>)"
  "queue_frame g (g\<lparr>telemetry_queue := q\<rparr>)"
proof -
  have "g\<lparr>logs := logs g, rate_limiter := rate_limiter g, telemetry_queue := telemetry_queue g\<rparr> = g"
    "g\<lparr>logs := l', rate_limiter := rate_limiter g, telemetry_queue := telemetry_queue g\<rparr> = g\<lparr>logs := l'\<rparr>"
    "g\<lparr>logs := logs g, rate_limiter := se, telemetry_queue := telemetry_queue g\<rparr> = g\<lparr>rate_limiter := se\<rparr>"
    "g\<lparr>logs := logs g, rate_limiter := rate_limiter g, telemetry_queue := q\<rparr> = g\<lparr>telemetry_queue := q\<rparr>"
    for l' by simp_all
  then show "queue_frame g g" "queue_frame g (log_msg l f a g)" "queue_frame g (g\<lparr>rate_limiter := se\<rparr>)"
    "queue_frame g (g\<lparr>telemetry_queue := q\<rparr>)"
    unfolding queue_frame_def log_msg_def by metis+
qed

lemma cq_push_items:
  "queue_items (snd (cq_push d q)) = queue_items q @ (if cq_size q < max_capacity q then [d] else [])"
  "max_capacity (snd (cq_push d q)) = max_capacity q"
  by (simp_all add: cq_push_def cq_size_def)

lemma accept_plaintext_cases:
  fixes g g' :: "('w, 'h, 's) gateway"
  assumes "accept_plaintext json t pt g = (r, g')"
  shows "(g' = g \<and> (\<exists>x. r = Inl x)) \<or> (\<exists>l f a. g' = log_msg l f a g \<and> r = Inr False) \<or>
         (\<exists>d. g' = g\<lparr>telemetry_queue := snd (cq_push d (telemetry_queue g))\<rparr> \<and> r = Inr True)"
  using assms by (auto simp: accept_plaintext_def split: sum.splits if_splits prod.splits)

lemma accept_parsed:
  assumes "parse_and_validate json clock_ns (string_of_bytes plaintext) empty_telemetry = (Inr SUCCESS, d)"
  shows "accept_plaintext json clock_ns plaintext g =
           (Inr True, g\<lparr>telemetry_queue := snd (cq_push d (telemetry_queue g))\<rparr>)"
  using assms by (simp add: accept_plaintext_def)

fun accept_run ::
  "'j json_api \<Rightarrow> (int \<times> bytes) list \<Rightarrow> ('w, 'h, 's, 'm) gateway_scheme \<Rightarrow>
   (exn + bool) list \<times> ('w, 'h, 's, 'm) gateway_scheme" where
  \<comment> \<open>one decrypted packet after the other, with the results, while the worker takes no turn\<close>
  "accept_run json [] g = ([], g)"
| "accept_run json ((clock_ns, plaintext) # ps) g =
     (let (r, g) = accept_plaintext json clock_ns plaintext g;
          (rs, g) = accept_run json ps g
      in (r # rs, g))"

lemma callback_after_decrypt_cases:
  assumes "callback_after_decrypt json p g = Some g'"
  shows "(\<exists>l f a. g' = log_msg l f a g) \<or>
         (\<exists>d. g' = g\<lparr>telemetry_queue := snd (cq_push d (telemetry_queue g))\<rparr>)"
  using assms accept_plaintext_cases [of json "fst p" "snd p" g]
  by (fastforce simp: callback_after_decrypt_def log_raw_error_def split: sum.splits prod.splits)

interpretation accepting: packet_receiver "callback_after_decrypt json" for json :: "'j json_api"
proof unfold_locales
  fix p :: "int \<times> bytes" and g g' :: "('w, 'h, 's) gateway"
  assume run: "callback_after_decrypt json p g = Some g'"
  note cases = callback_after_decrypt_cases [OF run]
  show "queue_frame g g'"
    using cases by auto
  show "queue_items (telemetry_queue g') = queue_items (telemetry_queue g) @ new_frames g g'"
    using cases by (auto simp: new_frames_def cq_push_items)
  show "cq_size (telemetry_queue g) \<le> max_capacity (telemetry_queue g) \<Longrightarrow>
      cq_size (telemetry_queue g') \<le> max_capacity (telemetry_queue g') \<and>
      max_capacity (telemetry_queue g') = max_capacity (telemetry_queue g)"
    using cases by (auto simp: cq_size_def cq_push_items)
qed

lemma length_PRE_SHARED_KEY: "length PRE_SHARED_KEY = 32"
  by (simp add: PRE_SHARED_KEY_def)

lemma encrypted_then_decrypted:
  fixes g :: "('w, 'h, 's) gateway" and e :: "('w, 'm) env_scheme"
  assumes laws: "evp_gcm_laws evp seal unseal"
    and ctx: "fst (evp_ctx_new evp (ext e)) \<noteq> None" "fst (evp_ctx_new evp (ext g)) \<noteq> None"
    and sizes: "length key = 32" "length iv = 12" "length pt < 2 ^ 31"
  shows "\<exists>ct tag e' g1. encrypt_aes_gcm evp pt key iv [] [] e = Some (True, ct, tag, e') \<and>
           decrypt_aes_gcm evp ct key iv tag [] g = Some (True, pt, g1) \<and>
           telemetry_queue g1 = telemetry_queue g"
proof -
  obtain c w c2 w2 where new: "evp_ctx_new evp (ext e) = (Some c, w)" "evp_ctx_new evp (ext g) = (Some c2, w2)"
    using ctx by (cases "evp_ctx_new evp (ext e)"; cases "evp_ctx_new evp (ext g)") auto
  let ?ct = "fst (seal key iv pt)" and ?tag = "snd (seal key iv pt)"
  have law: "length ?ct = length pt" "length ?tag = 16" "unseal key iv ?ct = pt"
    using laws sizes by (simp_all add: evp_gcm_laws_def seal_laws_def)
  obtain w1 where enc: "encrypt_aes_gcm evp pt key iv [] [] e = Some (True, ?ct, ?tag, e\<lparr>ext := w1\<rparr>)"
    using encrypt_under_laws [OF laws sizes new(1)] by blast
  have "length ?ct < 2 ^ 31"
    using law(1) sizes(3) by simp
  then obtain w3 where dec: "decrypt_aes_gcm evp ?ct key iv ?tag [] g = Some (True, pt, g\<lparr>ext := w3\<rparr>)"
    using decrypt_under_laws [OF laws sizes(1,2) law(2) _ new(2), of ?ct "[]"] law(3) by auto
  have "telemetry_queue (g\<lparr>ext := w3\<rparr>) = telemetry_queue g"
    by simp
  with enc dec show ?thesis
    by blast
qed

lemma process_refuses:
  "process_incoming_raw_payload evp json t sender payload iv tag g =
     Some (Inr False,
       log_msg Error (''GatewayNode: Decryption failed for sender '{}'' @ [CHR 0x27]) [sender]
         (log_decrypt_size_error g))"
proof -
  have same: "g\<lparr>rate_limiter := rate_limiter g\<rparr> = g" by simp
  show ?thesis
    unfolding process_incoming_raw_payload_def check_rate_limit_def Let_def split same
      aes.declared_order_refused [OF length_PRE_SHARED_KEY]
    by simp
qed

lemma callback_logs_only:
  "\<exists>l. raw_telemetry_callback evp json t data g = Some (g\<lparr>logs := logs g @ l\<rparr>)"
proof (cases "read_envelope json data")
  case (Inl x)
  then show ?thesis
    by (auto simp: raw_telemetry_callback_def log_raw_error_def log_msg_def)
next
  case (Inr b)
  then show ?thesis
    by (cases b)
      (auto simp: raw_telemetry_callback_def process_refuses log_decrypt_size_error_def log_msg_def)
qed

lemma node_callback_logs:
  assumes "node_callback evp json p g = Some g'"
  shows "\<exists>l. g' = g\<lparr>logs := logs g @ l\<rparr>"
  using assms callback_logs_only [of evp json "fst p" "snd p" g] by (auto simp: node_callback_def)

interpretation callback: packet_receiver "node_callback evp json"
  for evp :: "('w, 'c) evp_api" and json :: "'j json_api"
proof unfold_locales
  fix p :: "int \<times> string" and g g' :: "('w, 'h, 's) gateway"
  assume "node_callback evp json p g = Some g'"
  then obtain l where g': "g' = g\<lparr>logs := logs g @ l\<rparr>"
    using node_callback_logs by blast
  show "queue_frame g g'"
    unfolding queue_frame_def g'
    by (intro exI [of _ "logs g @ l"] exI [of _ "rate_limiter g"] exI [of _ "telemetry_queue g"]) simp
  show "queue_items (telemetry_queue g') = queue_items (telemetry_queue g) @ new_frames g g'"
    by (simp add: g' new_frames_def)
  show "cq_size (telemetry_queue g) \<le> max_capacity (telemetry_queue g) \<Longrightarrow>
      cq_size (telemetry_queue g') \<le> max_capacity (telemetry_queue g') \<and>
      max_capacity (telemetry_queue g') = max_capacity (telemetry_queue g)"
    by (simp add: g')
qed

section \<open>What the accepted frames are\<close>

lemma callback_after_decrypt_frames:
  assumes "callback_after_decrypt json p g = Some g'" and "d \<in> set (new_frames g g')"
  shows "parse_and_validate json (fst p) (string_of_bytes (snd p)) empty_telemetry = (Inr SUCCESS, d)"
proof -
  obtain status d' where parse:
    "parse_and_validate json (fst p) (string_of_bytes (snd p)) empty_telemetry = (status, d')"
    by (cases "parse_and_validate json (fst p) (string_of_bytes (snd p)) empty_telemetry")
  show ?thesis
    using assms parse
    by (auto simp: callback_after_decrypt_def accept_plaintext_def log_raw_error_def new_frames_def
        cq_push_items split: sum.splits if_splits)
qed

definition described_frame ::
  "'j json_api \<Rightarrow> ('j \<Rightarrow> string \<Rightarrow> 'j) \<Rightarrow> telemetry_data \<Rightarrow> bool" where
  \<comment> \<open>some text parses to a document that describes the frame\<close>
  "described_frame json member d \<longleftrightarrow>
     (\<exists>text_json clock_ns j. j_parse json text_json = Inr j \<and> frame_of_json json member clock_ns j d)"

lemma step_described:
  assumes laws: "json_error_law json" "json_member_law json member"
    and "node_step api (callback_after_decrypt json) s es s'" "d \<in> set (accepted es)"
  shows "described_frame json member d"
  using assms(3)
proof (cases rule: node_step.cases)
  case (receive p g g' pc)
  then have "d \<in> set (new_frames g g')"
    using assms(4) by simp
  from callback_after_decrypt_frames [OF receive(4) this] show ?thesis
    unfolding parse_and_validate_SUCCESS [OF laws(1)] described_frame_def
    using read_fields_frame_of_json [OF laws(2)] by blast
next
  case (work pc ros_ok now g pc' g' owner)
  then show ?thesis
    using assms(4) by (cases pc) simp_all
qed (use assms(4) in simp_all)

lemma run_described:
  assumes "json_error_law json" "json_member_law json member"
  shows "node_run api (callback_after_decrypt json) s es s' \<Longrightarrow> d \<in> set (accepted es) \<Longrightarrow>
    described_frame json member d"
  by (induction rule: node_run.induct) (auto dest: step_described [OF assms])

lemma sensor_category_four:
  "sensor_category json j \<in> {''battery'', ''temperature'', ''velocity'', ''generic''}"
  by (simp add: sensor_category_def)

lemma described_frame_typed:
  assumes "described_frame json member d"
  shows "payload_wf d \<and> sensor_type d \<in> {''battery'', ''temperature'', ''velocity'', ''generic''}"
proof -
  obtain j where "payload_wf d" "sensor_type d = sensor_category json j"
    using assms unfolding described_frame_def frame_of_json_def by blast
  then show ?thesis
    using sensor_category_four [of json j] by simp
qed

lemma message_of_published:
  "m \<in> set (messages_of ps) \<Longrightarrow> \<exists>d now. (d, now) \<in> set ps \<and> ros_message_of now d = Some m"
  by (induction ps) (fastforce simp: messages_of_def split: option.splits)+

section \<open>The constructed node\<close>

lemma init_subsystems_effect:
  assumes laws: "sqlite_laws api view" and txn: "v_txn (view (ext e)) = None"
    and run: "init_subsystems api params e = Inr s"
  shows "engine_sound api view s \<and> stored_rows view s = v_rows (view (ext e))"
proof -
  obtain path where path: "param_string params ''db_path'' = Inr path"
    using run by (auto simp: init_subsystems_def split: sum.splits)
  obtain ok s1 where i: "init_engine api (storage_new path e) = (ok, s1)"
    by (cases "init_engine api (storage_new path e)")
  have new: "\<not> is_initialized (storage_new path e)" "\<not> init_done (storage_new path e)"
    "stored_rows view (storage_new path e) = v_rows (view (ext e))"
    "open_txn view (storage_new path e) = None"
    using txn by (simp_all add: storage_new_def storage.defs env.defs stored_rows_def open_txn_def)
  have s: "s = (if ok then s1 else log_msg Error
      ''GatewayNode: Failed to initialize Storage Engine at path: {}'' [path] s1)"
    using run path i by (simp add: init_subsystems_def)
  show ?thesis
    using init_engine_effect [OF laws new(1,2) i] new(3,4) laws unfolding s
    by (cases ok) (auto simp: engine_sound_def store_inv_def engine_dead_def handles_released_def)
qed

lemma gateway_new_inv:
  assumes laws: "sqlite_laws api view" and txn: "v_txn (view (ext e)) = None"
    and new: "gateway_new api decl e = Inr g"
  shows "thread_inv (node_start g) \<and> rows_inv api view (v_rows (view (ext e))) (node_start g) [] \<and>
         pipeline_inv (node_start g) [] \<and> publish_inv (node_start g) []"
proof -
  let ?e = "log_msg Info ''Initializing Secure Telemetry Gateway ROS 2 Node...'' [] e"
  obtain s where s: "init_subsystems api (declare_node_parameters decl) ?e = Inr s"
    using new by (auto simp: gateway_new_def split: sum.splits)
  let ?g = "storage.extend s (gateway.fields \<lparr>buckets = []\<rparr> (cq_new 1000) True [])"
  have g: "g = log_msg Info ''Gateway ROS 2 Node initialized and worker thread started.'' [] ?g"
    using new s by (simp add: gateway_new_def)
  note eff = init_subsystems_effect [OF laws _ s, simplified, OF txn]
  have same: "engine_sound api view ?g = engine_sound api view s"
    "stored_rows view ?g = stored_rows view s"
    by (simp_all add: storage.defs engine_sound_def store_inv_def engine_ready_def engine_dead_def
        handles_released_def stored_rows_def open_txn_def)
  have "telemetry_queue ?g = cq_new 1000" "running ?g" "published ?g = []"
    by (simp_all add: storage.defs gateway.defs)
  then show ?thesis
    using eff same unfolding node_start_def
    by (simp add: g inv_defs cq_new_def cq_size_def messages_of_def)
qed

end
