(* ===== verification/Worker_Progress.thy ===== *)
theory Worker_Progress
  imports Gateway_Threads
begin

text \<open>
  The progress of the worker thread. By itself, for any number of its steps: once \<^verbatim>\<open>running_\<close> is cleared it exits
  (measure \<open>worker_rank\<close>), and while the node runs it empties the queue (measure \<open>worker_load\<close>). The
  answers of \<^verbatim>\<open>rclcpp::ok()\<close> and the clock are the inputs of the steps. The last section lets messages
  arrive in between and counts the turns of the worker until a frame is served (\<open>node_turns\<close>).
\<close>

section \<open>The worker stops\<close>

primrec worker_run ::
  "('w, 'h, 's) store_api \<Rightarrow> (bool \<times> int) list \<Rightarrow> worker_pc \<times> ('w, 'h, 's) gateway \<Rightarrow>
   worker_pc \<times> ('w, 'h, 's) gateway" where
  \<comment> \<open>consecutive steps of the worker, each with its answer of \<open>rclcpp::ok()\<close> and its time\<close>
  "worker_run api [] st = st"
| "worker_run api (i # is) st = worker_run api is (worker_step api (fst i) (snd i) st)"

fun worker_rank :: "worker_pc \<Rightarrow> nat" where
  \<comment> \<open>how many steps the worker is from its exit once \<open>running_\<close> is false\<close>
  "worker_rank W_Exited = 0"
| "worker_rank W_Test = 1"
| "worker_rank W_Start = 2"
| "worker_rank W_Sleep = 2"
| "worker_rank (W_Publish _) = 2"
| "worker_rank (W_Insert _) = 3"
| "worker_rank W_Pop = 4"

lemma worker_init_done:
  fixes g g' :: "('w, 'h, 's) gateway"
  assumes "init_done g" "worker_step api ros_ok now (pc, g) = (pc', g')"
  shows "init_done g'"
proof (cases pc)
  case (W_Insert d)
  obtain ok g1 where run: "insert_telemetry api d g = (ok, g1)"
    by (cases "insert_telemetry api d g")
  show ?thesis
    using assms W_Insert run only_world_fields(4) [OF insert_telemetry_frame [OF assms(1) run]] by simp
qed (use assms in \<open>auto simp: cq_pop_def publish_ros_messages_def
       split: if_splits list.splits option.splits\<close>)

lemma worker_rank_decreases:
  "\<not> running g \<Longrightarrow> worker_step api ros_ok now (pc, g) = (pc', g') \<Longrightarrow>
   worker_rank pc' \<le> worker_rank pc - 1"
  by (cases pc) (auto simp: cq_pop_def split: list.splits)

lemma worker_stopping_queue:
  fixes g g' :: "('w, 'h, 's) gateway"
  assumes "\<not> running g" "init_done g" "worker_step api ros_ok now (pc, g) = (pc', g')"
  shows "queue_items (telemetry_queue g') =
           (if pc = W_Pop then tl (queue_items (telemetry_queue g)) else queue_items (telemetry_queue g)) \<and>
         pc' \<noteq> W_Pop"
proof (cases pc)
  case (W_Insert d)
  obtain ok g1 where run: "insert_telemetry api d g = (ok, g1)"
    by (cases "insert_telemetry api d g")
  show ?thesis
    using assms W_Insert run insert_step_fields [OF assms(2) run] by auto
qed (use assms in \<open>auto simp: cq_pop_def publish_ros_messages_def
       split: if_splits list.splits option.splits\<close>)

lemma worker_run_stops:
  fixes g g' :: "('w, 'h, 's) gateway"
  shows "\<not> running g \<Longrightarrow> init_done g \<Longrightarrow> worker_rank pc \<le> length is \<Longrightarrow>
    worker_run api is (pc, g) = (pc', g') \<Longrightarrow>
    pc' = W_Exited \<and> \<not> running g' \<and>
    queue_items (telemetry_queue g') =
      (if pc = W_Pop then tl (queue_items (telemetry_queue g)) else queue_items (telemetry_queue g))"
proof (induction "is" arbitrary: pc g)
  case Nil
  then show ?case by (cases pc) auto
next
  case (Cons i "is")
  obtain pc1 g1 where s: "worker_step api (fst i) (snd i) (pc, g) = (pc1, g1)"
    by (cases "worker_step api (fst i) (snd i) (pc, g)")
  have "worker_rank pc1 \<le> length is"
    using worker_rank_decreases [OF Cons.prems(1) s] Cons.prems(3) by simp
  moreover have "\<not> running g1" "init_done g1"
    using worker_running [OF Cons.prems(2) s] worker_init_done [OF Cons.prems(2) s] Cons.prems(1)
    by simp_all
  ultimately show ?case
    using Cons.IH [of g1 pc1] worker_stopping_queue [OF Cons.prems(1,2) s] Cons.prems(4) s by simp
qed

section \<open>The worker empties the queue\<close>

primrec worker_trace ::
  "('w, 'h, 's) store_api \<Rightarrow> (bool \<times> int) list \<Rightarrow> worker_pc \<times> ('w, 'h, 's) gateway \<Rightarrow> node_event list" where
  \<comment> \<open>the events of the steps of \<open>worker_run\<close>\<close>
  "worker_trace api [] st = []"
| "worker_trace api (i # is) st =
     worker_events api (snd i) (fst st) (snd st) @
     worker_trace api is (worker_step api (fst i) (snd i) st)"

definition conserves ::
  "worker_pc \<times> ('w, 'h, 's) gateway \<Rightarrow> node_event list \<Rightarrow> worker_pc \<times> ('w, 'h, 's) gateway \<Rightarrow> bool" where
  \<comment> \<open>no frame is lost, doubled or overtaken between the two states\<close>
  "conserves st es st' \<longleftrightarrow>
     in_flight (fst st) @ queue_items (telemetry_queue (snd st)) =
       map fst (handled es) @ in_flight (fst st') @ queue_items (telemetry_queue (snd st')) \<and>
     to_publish (fst st) @ map fst (handled es) = map fst (publications es) @ to_publish (fst st') \<and>
     published (snd st') = published (snd st) @ messages_of (publications es)"

lemma messages_of_Nil [simp]: "messages_of [] = []"
  by (simp add: messages_of_def)

lemma conserves_Nil: "conserves st [] st"
  by (simp add: conserves_def)

lemma conserves_trans: "conserves st es st1 \<Longrightarrow> conserves st1 fs st2 \<Longrightarrow> conserves st (es @ fs) st2"
  by (auto simp: conserves_def) (metis append.assoc)+

lemma worker_step_conserves:
  fixes g g' :: "('w, 'h, 's) gateway"
  assumes "init_done g" "worker_step api ros_ok now (pc, g) = (pc', g')"
  shows "conserves (pc, g) (worker_events api now pc g) (pc', g')"
proof (cases pc)
  case (W_Insert d)
  obtain ok g1 where run: "insert_telemetry api d g = (ok, g1)"
    by (cases "insert_telemetry api d g")
  show ?thesis
    using assms W_Insert run insert_step_fields [OF assms(1) run] by (auto simp: conserves_def)
next
  case (W_Publish d)
  then show ?thesis
    using assms by (auto simp: conserves_def publish_ros_messages_def messages_of_def split: option.splits)
qed (use assms in \<open>auto simp: conserves_def cq_pop_def split: if_splits list.splits\<close>)

lemma worker_run_conserves:
  fixes g :: "('w, 'h, 's) gateway"
  shows "init_done g \<Longrightarrow> conserves (pc, g) (worker_trace api is (pc, g)) (worker_run api is (pc, g))"
proof (induction "is" arbitrary: pc g)
  case Nil
  then show ?case by (simp add: conserves_Nil)
next
  case (Cons i "is")
  obtain pc1 g1 where s: "worker_step api (fst i) (snd i) (pc, g) = (pc1, g1)"
    by (cases "worker_step api (fst i) (snd i) (pc, g)")
  from Cons.IH [OF worker_init_done [OF Cons.prems s], of pc1] show ?case
    using conserves_trans [OF worker_step_conserves [OF Cons.prems s]] s by simp
qed

fun worker_distance :: "worker_pc \<Rightarrow> nat" where
  \<comment> \<open>how many steps the worker is from the next pop while the node runs\<close>
  "worker_distance W_Pop = 0"
| "worker_distance W_Test = 1"
| "worker_distance W_Start = 2"
| "worker_distance W_Sleep = 2"
| "worker_distance (W_Publish _) = 2"
| "worker_distance (W_Insert _) = 3"
| "worker_distance W_Exited = 0"

definition worker_load :: "worker_pc \<times> ('w, 'h, 's) gateway \<Rightarrow> nat" where
  "worker_load st = 4 * cq_size (telemetry_queue (snd st)) + worker_distance (fst st)"

definition drained :: "worker_pc \<times> ('w, 'h, 's) gateway \<Rightarrow> bool" where
  \<comment> \<open>the worker is in its loop and no frame is left to it\<close>
  "drained st \<longleftrightarrow>
     fst st \<noteq> W_Exited \<and> queue_items (telemetry_queue (snd st)) = [] \<and> in_flight (fst st) = [] \<and>
     to_publish (fst st) = []"

lemma worker_step_drains:
  fixes g g' :: "('w, 'h, 's) gateway"
  assumes "running g" "init_done g" "pc \<noteq> W_Exited"
    and "worker_step api True now (pc, g) = (pc', g')"
    and "drained (pc, g) \<or> worker_load (pc, g) \<le> Suc n"
  shows "pc' \<noteq> W_Exited \<and> (drained (pc', g') \<or> worker_load (pc', g') \<le> n)"
proof (cases pc)
  case (W_Insert d)
  obtain ok g1 where run: "insert_telemetry api d g = (ok, g1)"
    by (cases "insert_telemetry api d g")
  show ?thesis
    using assms W_Insert run insert_step_fields [OF assms(2) run]
    by (auto simp: drained_def worker_load_def)
next
  case (W_Publish d)
  then show ?thesis
    using assms by (auto simp: drained_def worker_load_def publish_ros_messages_def split: option.splits)
qed (use assms in \<open>auto simp: drained_def worker_load_def cq_pop_def cq_size_def split: list.splits\<close>)

lemma worker_run_drains:
  fixes g :: "('w, 'h, 's) gateway"
  shows "running g \<Longrightarrow> init_done g \<Longrightarrow> pc \<noteq> W_Exited \<Longrightarrow> \<forall>i\<in>set is. fst i \<Longrightarrow>
    drained (pc, g) \<or> worker_load (pc, g) \<le> length is \<Longrightarrow> drained (worker_run api is (pc, g))"
proof (induction "is" arbitrary: pc g)
  case Nil
  then show ?case by (cases pc) (auto simp: drained_def worker_load_def cq_size_def)
next
  case (Cons i "is")
  obtain pc1 g1 where s: "worker_step api True (snd i) (pc, g) = (pc1, g1)"
    by (cases "worker_step api True (snd i) (pc, g)")
  have "drained (pc, g) \<or> worker_load (pc, g) \<le> Suc (length is)"
    using Cons.prems(5) by simp
  from worker_step_drains [OF Cons.prems(1-3) s this] Cons.IH [of g1 pc1] show ?case
    using worker_running [OF Cons.prems(2) s] worker_init_done [OF Cons.prems(2) s] Cons.prems(1,4) s
    by simp
qed

lemma worker_run_rows:
  fixes g :: "('w, 'h, 's) gateway"
  shows "rows_inv api view rows (O_Alive, pc, g) es \<Longrightarrow>
    (case worker_run api is (pc, g) of
       (pc', g') \<Rightarrow> rows_inv api view rows (O_Alive, pc', g') (es @ worker_trace api is (pc, g)))"
proof (induction "is" arbitrary: pc g es)
  case Nil
  then show ?case by simp
next
  case (Cons i "is")
  obtain pc1 g1 where s: "worker_step api (fst i) (snd i) (pc, g) = (pc1, g1)"
    by (cases "worker_step api (fst i) (snd i) (pc, g)")
  from Cons.IH [OF worker_rows [OF Cons.prems _ s]] show ?case
    using s by simp
qed

section \<open>No frame waits for ever\<close>

text \<open>
  Runs of the living node that count the turns of its worker (those in which \<^verbatim>\<open>rclcpp::ok()\<close> holds);
  messages arrive at any point between them.
\<close>

inductive node_turns ::
  "('w, 'h, 's) store_api \<Rightarrow> ('p \<Rightarrow> ('w, 'h, 's) gateway \<Rightarrow> ('w, 'h, 's) gateway option) \<Rightarrow>
   worker_pc \<times> ('w, 'h, 's) gateway \<Rightarrow> node_event list \<Rightarrow> nat \<Rightarrow> worker_pc \<times> ('w, 'h, 's) gateway \<Rightarrow> bool"
  for api recv st where
  start: "node_turns api recv st [] 0 st"
| arrival: "node_turns api recv st es n (pc, g) \<Longrightarrow> recv p g = Some g' \<Longrightarrow>
     node_turns api recv st (es @ map Ev_Accept (new_frames g g')) n (pc, g')"
| turn: "node_turns api recv st es n (pc, g) \<Longrightarrow> worker_step api True now (pc, g) = (pc', g') \<Longrightarrow>
     node_turns api recv st (es @ worker_events api now pc g) (Suc n) (pc', g')"

fun turn_distance :: "worker_pc \<Rightarrow> nat" where
  "turn_distance (W_Insert _) = 0"
| "turn_distance W_Pop = 1"
| "turn_distance W_Test = 2"
| "turn_distance _ = 3"

text \<open>While \<open>r\<close> of the frames in hand and in the queue are awaited, a turn brings the next of them nearer.\<close>

lemma turn_progress:
  fixes g g' :: "('w, 'h, 's) gateway"
  assumes "running g" "init_done g" "pc \<noteq> W_Exited"
    and "worker_step api True now (pc, g) = (pc', g')"
    and "0 < r" "r \<le> length (in_flight pc @ queue_items (telemetry_queue g))"
  shows "pc' \<noteq> W_Exited \<and>
    Suc (4 * (r - length (handled (worker_events api now pc g))) + turn_distance pc') \<le> 4 * r + turn_distance pc"
proof (cases pc)
  case (W_Insert d)
  then show ?thesis
    using assms by auto
next
  case W_Pop
  then obtain d ds where "queue_items (telemetry_queue g) = d # ds"
    using assms(5,6) by (cases "queue_items (telemetry_queue g)") simp_all
  then show ?thesis
    using assms W_Pop by (auto simp: cq_pop_def)
qed (use assms in auto)

definition node_inv ::
  "('w, 'h, 's) store_api \<Rightarrow> ('w \<Rightarrow> ('h, 's) db_view) \<Rightarrow> row list \<Rightarrow>
   worker_pc \<times> ('w, 'h, 's) gateway \<Rightarrow> node_event list \<Rightarrow> bool" where
  \<comment> \<open>the invariants of a node that lives\<close>
  "node_inv api view rows st es \<longleftrightarrow>
     (let s = (O_Alive, fst st, snd st)
      in thread_inv s \<and> rows_inv api view rows s es \<and> pipeline_inv s es \<and> publish_inv s es)"

context packet_receiver
begin

lemma node_inv_step:
  assumes "node_step api recv (O_Alive, pc, g) es (O_Alive, pc', g')" "node_inv api view rows (pc, g) hist"
  shows "node_inv api view rows (pc', g') (hist @ es)"
  using step_inv [OF assms(1), of view rows hist] assms(2) by (simp add: node_inv_def Let_def)

lemma turns_serve:
  assumes turns: "node_turns api recv st es n st'"
    and inv: "node_inv api view rows st hist" "fst st \<noteq> W_Exited" and k: "k \<le> length (accepted hist)"
  shows "node_inv api view rows st' (hist @ es) \<and> fst st' \<noteq> W_Exited \<and>
    (k \<le> length (handled (hist @ es)) \<or>
     4 * (k - length (handled (hist @ es))) + turn_distance (fst st') + n \<le>
       4 * (k - length (handled hist)) + 3)"
  using turns
proof (induction rule: node_turns.induct)
  case start
  have "turn_distance (fst st) \<le> 3"
    by (cases "fst st") simp_all
  with inv show ?case by simp
next
  case (arrival es n pc g p g')
  have "node_step api recv (O_Alive, pc, g) (map Ev_Accept (new_frames g g')) (O_Alive, pc, g')"
    by (rule node_step.receive [where recv = recv, OF arrival(2)])
  from node_inv_step [OF this, of view rows "hist @ es"] arrival.IH show ?case
    by simp
next
  case (turn es n pc g now pc' g')
  have pc: "pc \<noteq> W_Exited" and old: "node_inv api view rows (pc, g) (hist @ es)"
    using turn.IH by simp_all
  have "node_step api recv (O_Alive, pc, g) (worker_events api now pc g) (O_Alive, pc', g')"
    by (rule node_step.work [OF pc turn(2)])
  from node_inv_step [OF this old] have new: "node_inv api view rows (pc', g') (hist @ es @ worker_events api now pc g)"
    by simp
  have g: "running g" "init_done g"
    using old engine_sound_init_done by (auto simp: node_inv_def thread_inv_def rows_inv_def Let_def)
  define r where "r = k - length (handled (hist @ es))"
  have "accepted (hist @ es) = map fst (handled (hist @ es)) @ in_flight pc @ queue_items (telemetry_queue g)"
    using old by (simp add: node_inv_def pipeline_inv_def Let_def)
  from arg_cong [OF this, of length] have r: "r \<le> length (in_flight pc @ queue_items (telemetry_queue g))"
    using k by (simp add: r_def)
  have alive: "pc' \<noteq> W_Exited"
    using turn(2) pc g(1) by (cases pc) (auto split: prod.splits option.splits)
  show ?case
  proof (cases "0 < r")
    case True
    note progress = turn_progress [OF g pc turn(2) True r]
    have before: "4 * r + turn_distance pc + n \<le> 4 * (k - length (handled hist)) + 3"
      using turn.IH True by (auto simp: r_def)
    have "k - length (handled ((hist @ es) @ worker_events api now pc g)) =
        r - length (handled (worker_events api now pc g))"
      by (simp add: r_def)
    then have "4 * (k - length (handled ((hist @ es) @ worker_events api now pc g))) + turn_distance pc' + Suc n
        \<le> 4 * (k - length (handled hist)) + 3"
      using before progress by linarith
    then show ?thesis
      using new alive unfolding append_assoc fst_conv by blast
  next
    case False
    then show ?thesis
      using new alive by (simp add: r_def)
  qed
qed

lemma turns_run:
  "node_turns api recv (pc0, g0) es n st \<Longrightarrow> pc0 \<noteq> W_Exited \<Longrightarrow> node_inv api view rows (pc0, g0) hist \<Longrightarrow>
   node_run api recv (O_Alive, pc0, g0) es (O_Alive, fst st, snd st)"
proof (induction rule: node_turns.induct)
  case start
  then show ?case by (simp add: node_run.none)
next
  case (arrival es n pc g p g')
  then show ?case
    using node_run.more [OF _ node_step.receive [where recv = recv, OF arrival(2)]] by simp
next
  case (turn es n pc g now pc' g')
  have "pc \<noteq> W_Exited"
    using turns_serve [OF turn(1), of view rows hist 0] turn.prems by simp
  then show ?case
    using node_run.more [OF _ node_step.work [OF _ turn(2)]] turn by simp
qed

end

lemma turns_exist: "\<exists>es st'. node_turns api recv st es n st'"
proof (induction n)
  case 0
  show ?case using node_turns.start by blast
next
  case (Suc n)
  then obtain es pc g where "node_turns api recv st es n (pc, g)" by auto
  moreover obtain pc' g' where "worker_step api True 0 (pc, g) = (pc', g')"
    by (cases "worker_step api True 0 (pc, g)")
  ultimately show ?case using node_turns.turn by blast
qed

end
