(* ===== verification/Ingestion_Properties.thy ===== *)
theory Ingestion_Properties
  imports Ingestion
begin

text \<open>
  The properties of the ingestion engine, and a small JSON library that satisfies the documented
  laws: its documents are a datatype and its parser a table of texts, which is all the witnesses need.
\<close>

section \<open>A JSON library that satisfies the laws\<close>

datatype demo_json =
    JNull
  | JString string
  | JNumber double u64
  | JBytes bytes
  | JObject "(string \<times> demo_json) list"

definition demo_type_error :: "exn + 'a" where
  "demo_type_error = Inl (Json_type_error ''[json.exception.type_error]'')"

fun demo_contains :: "demo_json \<Rightarrow> string \<Rightarrow> bool" where
  "demo_contains (JObject ms) k = (map_of ms k \<noteq> None)"
| "demo_contains _ k = False"

fun demo_member :: "demo_json \<Rightarrow> string \<Rightarrow> demo_json" where
  "demo_member (JObject ms) k = (case map_of ms k of None \<Rightarrow> JNull | Some v \<Rightarrow> v)"
| "demo_member _ k = JNull"

fun demo_index :: "demo_json \<Rightarrow> string \<Rightarrow> exn + demo_json \<times> demo_json" where
  "demo_index (JObject ms) k =
     (case map_of ms k of
        Some v \<Rightarrow> Inr (JObject ms, v)
      | None \<Rightarrow> Inr (JObject (ms @ [(k, JNull)]), JNull))"
| "demo_index JNull k = Inr (JObject [(k, JNull)], JNull)"
| "demo_index _ k = demo_type_error"

fun demo_items :: "demo_json \<Rightarrow> (string \<times> demo_json) list" where
  "demo_items (JObject ms) = AList.clearjunk ms"
| "demo_items JNull = []"
| "demo_items j = [([], j)]"

definition demo_json_api :: "(string \<times> demo_json) list \<Rightarrow> demo_json json_api" where
  "demo_json_api texts =
     \<lparr>j_parse = (\<lambda>s. if s = ''1e1000'' then Inl (Json_out_of_range ''[json.exception.out_of_range.406]'')
                 else case map_of texts s of
                        None \<Rightarrow> Inl (Json_parse_error ''[json.exception.parse_error]'')
                      | Some j \<Rightarrow> Inr j),
      j_contains = demo_contains,
      j_index = demo_index,
      j_get_string = (\<lambda>j. case j of JString s \<Rightarrow> Inr s | _ \<Rightarrow> demo_type_error),
      j_get_uint64 = (\<lambda>j. case j of JNumber d n \<Rightarrow> Inr n | _ \<Rightarrow> demo_type_error),
      j_get_double = (\<lambda>j. case j of JNumber d n \<Rightarrow> Inr d | _ \<Rightarrow> demo_type_error),
      j_get_bytes = (\<lambda>j. case j of JBytes bs \<Rightarrow> Inr bs | _ \<Rightarrow> demo_type_error),
      j_is_number = (\<lambda>j. case j of JNumber d n \<Rightarrow> True | _ \<Rightarrow> False),
      j_items = demo_items\<rparr>"

lemma demo_json_error_law: "json_error_law (demo_json_api texts)"
proof -
  have "demo_index j k = Inl x \<Longrightarrow> \<not> is_parse_error x" for j k x
    by (cases j) (auto simp: demo_type_error_def split: option.splits)
  then show ?thesis
    by (auto simp: json_error_law_def demo_json_api_def demo_type_error_def
        split: option.splits demo_json.splits)
qed

lemma demo_json_member_law: "json_member_law (demo_json_api texts) demo_member"
proof -
  have "demo_contains j k \<Longrightarrow> demo_index j k = Inr (j, demo_member j k)" for j k
    by (cases j) (auto split: option.splits)
  moreover have "distinct (map fst (demo_items j))" for j
    by (cases j) (auto simp: distinct_clearjunk)
  ultimately show ?thesis
    by (simp add: json_member_law_def demo_json_api_def)
qed

definition demo_battery :: demo_json where
  \<comment> \<open>\<open>{"client_id": "amr_01", "sequence_id": 7, "battery": 98.5}\<close>\<close>
  "demo_battery = JObject
     [(''client_id'', JString ''amr_01''),
      (''sequence_id'', JNumber 0x401C000000000000 7),
      (''battery'', JNumber 0x4058A00000000000 98)]"

definition demo_bad_id :: demo_json where
  \<comment> \<open>\<open>{"client_id": 7, "battery": 98.5}\<close>\<close>
  "demo_bad_id = JObject
     [(''client_id'', JNumber 0x401C000000000000 7), (''battery'', JNumber 0x4058A00000000000 98)]"

definition demo_texts :: "(string \<times> demo_json) list" where
  "demo_texts = [(''battery-json'', demo_battery), (''bad-id-json'', demo_bad_id)]"

abbreviation demo_api :: "demo_json json_api" where
  "demo_api \<equiv> demo_json_api demo_texts"

definition demo_battery_frame :: telemetry_data where
  "demo_battery_frame =
     \<lparr>robot_id = ''amr_01'', sensor_type = ''battery'', timestamp_ns = 5, sequence_id = 7,
      payload_values = [(''sequence_id'', 0x401C000000000000), (''battery'', 0x4058A00000000000)]\<rparr>"

lemma demo_parse_battery:
  "parse_and_validate demo_api 5 ''battery-json'' out = (Inr SUCCESS, demo_battery_frame)"
  by (simp add: parse_and_validate_def read_fields_def and_then_def read_robot_id_def
      read_sequence_id_def read_timestamp_def read_payload_def read_sensor_type_def
      sensor_category_def assign_member_def demo_json_api_def demo_texts_def demo_battery_def
      demo_battery_frame_def)

lemma demo_parse_bad_id:
  "fst (parse_and_validate demo_api 5 ''bad-id-json'' out) =
     Inl (Json_type_error ''[json.exception.type_error]'')"
  by (simp add: parse_and_validate_def read_fields_def and_then_def read_robot_id_def
      assign_member_def demo_json_api_def demo_texts_def demo_bad_id_def demo_type_error_def)

section \<open>Properties\<close>

text \<open>
  C20. A parse that succeeds delivers the frame the document describes: the identifier from
  \<open>client_id\<close>, else from \<open>robot_id\<close>, else \<open>unknown_robot\<close>; sequence number and timestamp from their
  keys, else 0 and the clock; as payload exactly the numeric members of the document with their
  values, each key once; and the sensor category by the priority battery, temperature, velocity.
\<close>

theorem parse_success_frame:
  assumes "json_error_law api" "json_member_law api member"
    and "j_parse api s = Inr j"
    and "parse_and_validate api clock_ns s out = (Inr SUCCESS, d)"
  shows "frame_of_json api member clock_ns j d"
  using assms(3,4) read_fields_frame_of_json [OF assms(2)]
  by (auto simp: parse_and_validate_SUCCESS [OF assms(1)])

theorem parse_success_frame_witness:
  "frame_of_json demo_api demo_member 5 demo_battery demo_battery_frame"
  by (rule parse_success_frame [OF demo_json_error_law demo_json_member_law _ demo_parse_battery])
    (simp add: demo_json_api_def demo_texts_def)

text \<open>
  A successful parse depends on the text and the clock alone: parsing the same text into another
  variable succeeds with the same frame, so nothing of an earlier frame survives in the result.
\<close>

theorem parse_success_independent:
  assumes "json_error_law api" "json_member_law api member"
    and "parse_and_validate api clock_ns s out = (Inr SUCCESS, d)"
  shows "parse_and_validate api clock_ns s out2 = (Inr SUCCESS, d)"
  using assms(3) unfolding parse_and_validate_SUCCESS [OF assms(1)]
  by (blast intro: read_fields_independent [OF assms(2)])

theorem parse_success_independent_witness:
  "parse_and_validate demo_api 5 ''battery-json'' demo_battery_frame = (Inr SUCCESS, demo_battery_frame)"
  by (rule parse_success_independent
      [OF demo_json_error_law demo_json_member_law demo_parse_battery [of empty_telemetry]])

text \<open>
  C29. The outcomes: SUCCESS is returned exactly for the texts that are a document describing a frame,
  INVALID_JSON_SYNTAX exactly for those the parser rejects with a syntax error, and no other status.
  Everything else leaves the function as an exception that is no syntax error: whatever the parser
  throws besides it, with the caller's frame untouched as after a syntax error, and whatever the
  conversion of a member throws.
\<close>

theorem parse_outcomes:
  assumes "json_error_law api" "json_member_law api member" "json_number_law api"
    and "parse_and_validate api clock_ns s out = (r, d)"
  shows "(r = Inr SUCCESS \<longleftrightarrow> (\<exists>j f. j_parse api s = Inr j \<and> frame_of_json api member clock_ns j f)) \<and>
         (r = Inr INVALID_JSON_SYNTAX \<longleftrightarrow> (\<exists>x. j_parse api s = Inl x \<and> is_parse_error x)) \<and>
         (\<forall>x. j_parse api s = Inl x \<longrightarrow> d = out \<and> (is_parse_error x \<or> r = Inl x)) \<and>
         r \<in> {Inr SUCCESS, Inr INVALID_JSON_SYNTAX} \<union> Inl ` {x. \<not> is_parse_error x}"
proof (cases "j_parse api s")
  case (Inl x)
  with assms(4) show ?thesis
    by (auto simp: parse_and_validate_syntax_error split: if_splits)
next
  case (Inr j)
  obtain r' j' d' where read: "read_fields api clock_ns (j, out) = (r', j', d')"
    by (cases "read_fields api clock_ns (j, out)")
  note parsed = parse_and_validate_parsed [OF assms(1) Inr]
  have described: "(\<exists>u. r' = Inr u) \<longleftrightarrow> (\<exists>f. frame_of_json api member clock_ns j f)"
    using read_fields_frame_of_json [OF assms(2)] read_fields_total [OF assms(2,3)] read
    by (metis (full_types) old.unit.exhaust prod.inject)
  show ?thesis
  proof (cases r')
    case (Inl x)
    then have "\<not> is_parse_error x"
      using read_fields_no_parse_error [OF assms(1)] read by simp
    then show ?thesis
      using assms(4) Inl \<open>j_parse api s = Inr j\<close> read described by (auto simp: parsed)
  next
    case (Inr u)
    then show ?thesis
      using assms(4) \<open>j_parse api s = Inr j\<close> read described by (auto simp: parsed)
  qed
qed

lemma demo_number_law: "json_number_law (demo_json_api texts)"
  by (auto simp: json_number_law_def demo_json_api_def split: demo_json.splits)

theorem parse_outcomes_witness:
  "\<exists>r d r' d'. parse_and_validate demo_api 5 ''no-json'' empty_telemetry = (r, d) \<and>
     r = Inr INVALID_JSON_SYNTAX \<and> d = empty_telemetry \<and>
     parse_and_validate demo_api 5 ''1e1000'' empty_telemetry = (r', d') \<and>
     r' = Inl (Json_out_of_range ''[json.exception.out_of_range.406]'') \<and> d' = empty_telemetry"
proof -
  obtain r d r' d' where
    run: "parse_and_validate demo_api 5 ''no-json'' empty_telemetry = (r, d)"
      "parse_and_validate demo_api 5 ''1e1000'' empty_telemetry = (r', d')"
    using prod.exhaust by metis
  have texts: "j_parse demo_api ''no-json'' = Inl (Json_parse_error ''[json.exception.parse_error]'')"
    "j_parse demo_api ''1e1000'' = Inl (Json_out_of_range ''[json.exception.out_of_range.406]'')"
    by (simp_all add: demo_json_api_def demo_texts_def)
  note laws = demo_json_error_law demo_json_member_law demo_number_law
  have "r = Inr INVALID_JSON_SYNTAX \<and> d = empty_telemetry"
    using parse_outcomes [OF laws run(1)] texts(1) by simp
  moreover have "r' = Inl (Json_out_of_range ''[json.exception.out_of_range.406]'') \<and> d' = empty_telemetry"
    using parse_outcomes [OF laws run(2)] texts(2) by simp
  ultimately show ?thesis
    using run by blast
qed

text \<open>
  An identifier of the wrong type is no status: the type error of the JSON library leaves
  \<open>parse_and_validate\<close> and \<open>process_payload\<close> as an exception, and nothing reaches the queue.
\<close>

theorem bad_identifier_escapes:
  assumes "json_error_law api" "json_member_law api member"
    and "j_parse api s = Inr j" "j_contains api j ''client_id''"
    and "j_get_string api (member j ''client_id'') = Inl x"
  shows "parse_and_validate api clock_ns s out = (Inl x, out) \<and>
         process_payload api clock_ns s q = (Inl x, q)"
proof -
  have "read_fields api clock_ns (j, d) = (Inl x, j, d)" for d
    using assms(2,4,5)
    by (simp add: read_fields_def and_then_def read_robot_id_def assign_member_def
        json_member_law_def)
  then show ?thesis
    by (simp add: process_payload_def parse_and_validate_parsed [OF assms(1,3)])
qed

theorem bad_identifier_escapes_witness:
  "parse_and_validate demo_api 5 ''bad-id-json'' empty_telemetry
     = (Inl (Json_type_error ''[json.exception.type_error]''), empty_telemetry) \<and>
   process_payload demo_api 5 ''bad-id-json'' (cq_new 1)
     = (Inl (Json_type_error ''[json.exception.type_error]''), cq_new 1)"
  by (rule bad_identifier_escapes
      [OF demo_json_error_law demo_json_member_law, where j = demo_bad_id])
    (simp_all add: demo_json_api_def demo_texts_def demo_bad_id_def demo_type_error_def)

text \<open>
  \<open>process_payload\<close> puts a frame into the queue exactly when it answers SUCCESS, the new frame last; a
  frame parsed while the queue is full is answered with QUEUE_FULL; whatever it answers or throws, no
  frame already in the queue is touched and the bound is kept.
\<close>

lemma process_payload_queue:
  assumes "parse_and_validate api clock_ns s empty_telemetry = (r, d)"
    and "process_payload api clock_ns s q = (status, q')"
  shows "status = (if r = Inr SUCCESS \<and> max_capacity q \<le> cq_size q then Inr QUEUE_FULL else r) \<and>
         queue_items q' = queue_items q @ (if status = Inr SUCCESS then [d] else []) \<and>
         max_capacity q' = max_capacity q"
  using assms
  by (auto simp: process_payload_def cq_push_def cq_size_def split: if_splits)

section \<open>Histories of the engine and its queue\<close>

datatype ingest_op = Ingest int string | Take

fun ingest_step ::
  "'j json_api \<Rightarrow> ingest_op \<Rightarrow> telemetry_data cqueue \<Rightarrow>
   (int \<times> string \<times> (exn + ingestion_status)) list \<times> telemetry_data list \<times> telemetry_data cqueue" where
  \<comment> \<open>a call of \<open>process_payload\<close> at the given time, with its answer, or a pop\<close>
  "ingest_step api (Ingest t s) q =
     (let (answer, q) = process_payload api t s q in ([(t, s, answer)], [], q))"
| "ingest_step api Take q =
     (let (got, q) = cq_pop q in ([], case got of None \<Rightarrow> [] | Some d \<Rightarrow> [d], q))"

fun ingest_run ::
  "'j json_api \<Rightarrow> ingest_op list \<Rightarrow> telemetry_data cqueue \<Rightarrow>
   (int \<times> string \<times> (exn + ingestion_status)) list \<times> telemetry_data list \<times> telemetry_data cqueue" where
  "ingest_run api [] q = ([], [], q)"
| "ingest_run api (op # ops) q =
     (let (answers, taken, q) = ingest_step api op q; (answers', taken', q) = ingest_run api ops q
      in (answers @ answers', taken @ taken', q))"

definition accepted_frames ::
  "'j json_api \<Rightarrow> (int \<times> string \<times> (exn + ingestion_status)) list \<Rightarrow> telemetry_data list" where
  \<comment> \<open>the frames of the texts answered with SUCCESS\<close>
  "accepted_frames api answers =
     map (\<lambda>(t, s, answer). snd (parse_and_validate api t s empty_telemetry))
       (filter (\<lambda>(t, s, answer). answer = Inr SUCCESS) answers)"

fun queue_ops :: "'j json_api \<Rightarrow> ingest_op \<Rightarrow> telemetry_data queue_op list" where
  \<comment> \<open>what a step does to the queue\<close>
  "queue_ops api (Ingest t s) =
     (case parse_and_validate api t s empty_telemetry of (r, d) \<Rightarrow> if r = Inr SUCCESS then [Push d] else [])"
| "queue_ops api Take = [Pop]"

abbreviation cq_run :: "'a queue_op list \<Rightarrow> 'a cqueue \<Rightarrow> 'a list \<times> 'a list \<times> 'a cqueue" where
  "cq_run \<equiv> fifo_run (\<lambda>x q. Some (cq_push x q)) (\<lambda>q. Some (cq_pop q))"

lemma accepted_frames_append [simp]:
  "accepted_frames api (as @ bs) = accepted_frames api as @ accepted_frames api bs"
  by (simp add: accepted_frames_def)

lemma ingest_step_refines:
  "ingest_step api op q = (answers, taken, q') \<Longrightarrow>
   cq_run (queue_ops api op) q = (accepted_frames api answers, taken, q')"
proof (cases op)
  case (Ingest t s)
  obtain r d where parse: "parse_and_validate api t s empty_telemetry = (r, d)"
    by (cases "parse_and_validate api t s empty_telemetry")
  show "ingest_step api op q = (answers, taken, q') \<Longrightarrow> ?thesis"
    using Ingest parse
    by (auto simp: process_payload_def accepted_frames_def cq_push_def split: if_splits prod.splits)
next
  case Take
  show "ingest_step api op q = (answers, taken, q') \<Longrightarrow> ?thesis"
    using Take by (auto simp: accepted_frames_def split: prod.splits)
qed

lemma ingest_run_refines:
  "ingest_run api ops q = (answers, taken, q') \<Longrightarrow>
   cq_run (concat (map (queue_ops api) ops)) q = (accepted_frames api answers, taken, q')"
proof (induction ops arbitrary: q answers taken)
  case Nil
  then show ?case by (simp add: accepted_frames_def)
next
  case (Cons op ops)
  obtain as out q1 where s: "ingest_step api op q = (as, out, q1)"
    using prod_cases3 by blast
  obtain as' out' where r: "ingest_run api ops q1 = (as', out', q')" "answers = as @ as'" "taken = out @ out'"
    using Cons.prems s by (auto split: prod.splits)
  show ?case
    using ingest_step_refines [OF s] Cons.IH [OF r(1)] r(2,3) by (simp add: fifo_run_append)
qed

lemma parse_never_full: "parse_and_validate api t s out = (r, d) \<Longrightarrow> r \<noteq> Inr QUEUE_FULL"
  using parse_and_validate_status [of api t s out QUEUE_FULL] by auto

lemma parse_success_described:
  assumes "json_error_law api" "json_member_law api member"
    and "parse_and_validate api t s out = (Inr SUCCESS, d)"
  shows "\<exists>j. j_parse api s = Inr j \<and> frame_of_json api member t j d"
  using assms(3) read_fields_frame_of_json [OF assms(2)]
  by (auto simp: parse_and_validate_SUCCESS [OF assms(1)])

definition answer_sound ::
  "'j json_api \<Rightarrow> ('j \<Rightarrow> string \<Rightarrow> 'j) \<Rightarrow> int \<times> string \<times> (exn + ingestion_status) \<Rightarrow> bool" where
  \<comment> \<open>SUCCESS and QUEUE_FULL: the text is a document that describes the frame; any other answer or
      exception is that of the parser\<close>
  "answer_sound api member a \<longleftrightarrow>
     (case a of (t, s, answer) \<Rightarrow>
        if answer = Inr SUCCESS \<or> answer = Inr QUEUE_FULL
        then \<exists>j. j_parse api s = Inr j \<and>
                 frame_of_json api member t j (snd (parse_and_validate api t s empty_telemetry))
        else fst (parse_and_validate api t s empty_telemetry) = answer)"

lemma ingest_step_answers:
  assumes laws: "json_error_law api" "json_member_law api member"
    and run: "ingest_step api op q = (answers, taken, q')"
  shows "list_all (answer_sound api member) answers \<and>
         map (\<lambda>(t, s, answer). Ingest t s) answers = filter (\<lambda>op. op \<noteq> Take) [op]"
proof (cases op)
  case (Ingest t s)
  obtain r d where parse: "parse_and_validate api t s empty_telemetry = (r, d)"
    by (cases "parse_and_validate api t s empty_telemetry")
  obtain status where a: "answers = [(t, s, status)]" "process_payload api t s q = (status, q')"
    using run Ingest by (auto split: prod.splits)
  have status: "status = (if r = Inr SUCCESS \<and> max_capacity q \<le> cq_size q then Inr QUEUE_FULL else r)"
    using process_payload_queue [OF parse a(2)] by simp
  note never = parse_never_full [OF parse]
  have "answer_sound api member (t, s, status)"
    using parse_success_described [OF laws, of t s empty_telemetry d] parse status never
    by (auto simp: answer_sound_def split: if_splits)
  then show ?thesis
    using a(1) Ingest by simp
next
  case Take
  then show ?thesis
    using run by (auto split: prod.splits)
qed

lemma ingest_run_answers:
  assumes laws: "json_error_law api" "json_member_law api member"
  shows "ingest_run api ops q = (answers, taken, q') \<Longrightarrow>
    list_all (answer_sound api member) answers \<and>
    map (\<lambda>(t, s, answer). Ingest t s) answers = filter (\<lambda>op. op \<noteq> Take) ops"
proof (induction ops arbitrary: q answers taken)
  case Nil
  then show ?case by simp
next
  case (Cons op ops)
  obtain as out q1 where s: "ingest_step api op q = (as, out, q1)"
    using prod_cases3 by blast
  obtain as' out' where r: "ingest_run api ops q1 = (as', out', q')" "answers = as @ as'"
    using Cons.prems s by (auto split: prod.splits)
  show ?case
    using ingest_step_answers [OF laws s] Cons.IH [OF r(1)] r(2) by (auto split: if_splits)
qed

text \<open>
  C13. The engine and its queue over any history of payloads and pops, in any order: every payload gets
  one answer; the frames that were popped, followed by those still queued, are the frames of the payloads
  answered with SUCCESS, in order, and never more than the capacity are queued. SUCCESS and QUEUE_FULL
  are answered only for a text that is a document describing the frame; every other answer, and every
  exception, is that of the parser, and leaves no trace in the queue.
\<close>

theorem ingestion_history:
  assumes "json_error_law api" and "json_member_law api member"
    and "ingest_run api ops (cq_new cap) = (answers, taken, q)"
  shows "taken @ queue_items q = accepted_frames api answers \<and> cq_size q \<le> cap \<and>
         map (\<lambda>(t, s, answer). Ingest t s) answers = filter (\<lambda>op. op \<noteq> Take) ops \<and>
         list_all (answer_sound api member) answers"
  using cq.run_fifo [OF ingest_run_refines [OF assms(3)]] cq.run_bounded [OF ingest_run_refines [OF assms(3)]]
    ingest_run_answers [OF assms] by (simp add: cq_new_def cq_size_def)

theorem ingestion_history_witness:
  "\<exists>answers taken q. ingest_run demo_api
       [Ingest 5 ''battery-json'', Ingest 6 ''no-json'', Ingest 7 ''1e1000'', Ingest 5 ''battery-json'', Take] (cq_new 1) =
       (answers, taken, q) \<and>
     map (snd \<circ> snd) answers = [Inr SUCCESS, Inr INVALID_JSON_SYNTAX,
       Inl (Json_out_of_range ''[json.exception.out_of_range.406]''), Inr QUEUE_FULL] \<and>
     taken @ queue_items q = [demo_battery_frame]"
proof -
  let ?ops = "[Ingest 5 ''battery-json'', Ingest 6 ''no-json'', Ingest 7 ''1e1000'', Ingest 5 ''battery-json'', Take]"
  obtain answers taken q where run: "ingest_run demo_api ?ops (cq_new 1) = (answers, taken, q)"
    using prod_cases3 by blast
  have bad: "parse_and_validate demo_api 6 ''no-json'' empty_telemetry = (Inr INVALID_JSON_SYNTAX, empty_telemetry)"
    "parse_and_validate demo_api 7 ''1e1000'' empty_telemetry =
       (Inl (Json_out_of_range ''[json.exception.out_of_range.406]''), empty_telemetry)"
    by (simp_all add: parse_and_validate_def demo_json_api_def demo_texts_def)
  have answers: "answers = [(5, ''battery-json'', Inr SUCCESS), (6, ''no-json'', Inr INVALID_JSON_SYNTAX),
      (7, ''1e1000'', Inl (Json_out_of_range ''[json.exception.out_of_range.406]'')), (5, ''battery-json'', Inr QUEUE_FULL)]"
    using run by (auto simp: process_payload_def demo_parse_battery bad cq_push_def cq_new_def cq_pop_def)
  have "taken @ queue_items q = accepted_frames demo_api answers"
    using ingestion_history [OF demo_json_error_law demo_json_member_law run] by simp
  then show ?thesis
    using run answers by (auto simp: accepted_frames_def demo_parse_battery)
qed

end
