(* ===== verification/Gateway_Properties.thy ===== *)
theory Gateway_Properties
  imports Worker_Progress Storage_Properties Ingestion_Properties
begin

text \<open>
  The properties of the gateway node, over whole histories of its threads. Two kinds of runs: those of
  the node as it is written (\<open>node_callback\<close>), and those of a node whose decryption delivers a
  plaintext for each message (\<open>callback_after_decrypt\<close>), which show what the rest of the node is worth.
\<close>

section \<open>Runs to evaluate\<close>

definition demo_gateway :: "(demo_db, unit, unit) gateway" where
  "demo_gateway =
     (case gateway_new (demo_store False False ''mallory'') (\<lambda>name def. def) demo_world of
        Inr g \<Rightarrow> g
      | Inl x \<Rightarrow> storage.extend demo_engine (gateway.fields \<lparr>buckets = []\<rparr> (cq_new 0) False []))"

abbreviation demo_sqlite :: "(demo_db, unit, unit) store_api" where
  "demo_sqlite \<equiv> demo_store False False ''mallory''"

lemma demo_gateway_new:
  "gateway_new demo_sqlite (\<lambda>name def. def) demo_world = Inr demo_gateway"
proof -
  have "\<exists>g. gateway_new demo_sqlite (\<lambda>name def. def) demo_world = Inr (g :: (demo_db, unit, unit) gateway)"
    by (simp add: gateway_new_def init_subsystems_def param_string_def declare_node_parameters_def
        split: prod.splits)
  then show ?thesis
    unfolding demo_gateway_def by auto
qed

lemma demo_txn: "v_txn (demo_view (ext demo_world)) = None"
  by (simp add: demo_view_def demo_world_def)

lemma demo_world_rows: "v_rows (demo_view (ext demo_world)) = []"
  by (simp add: demo_view_def demo_world_def)

lemmas demo_start_inv = gateway_new_inv [OF demo_sqlite_laws demo_txn demo_gateway_new]

lemma demo_queue: "queue_items (telemetry_queue demo_gateway) = []"
    "max_capacity (telemetry_queue demo_gateway) = 1000" "running demo_gateway"
  using demo_start_inv by (simp_all add: node_start_def pipeline_inv_def thread_inv_def)

definition demo_loaded :: "(demo_db, unit, unit) gateway" where
  \<comment> \<open>the node after one packet\<close>
  "demo_loaded =
     demo_gateway\<lparr>telemetry_queue := (telemetry_queue demo_gateway)\<lparr>queue_items := [demo_battery_frame]\<rparr>\<rparr>"

lemma demo_receive:
  "callback_after_decrypt demo_api (5, bytes_of_string ''battery-json'') demo_gateway = Some demo_loaded"
  by (simp add: callback_after_decrypt_def accept_plaintext_def demo_parse_battery cq_push_def demo_queue
      demo_loaded_def)

lemma node_run_work:
  assumes "node_run api recv s es (owner, pc, g)" "pc \<noteq> W_Exited"
    and "worker_step api ros_ok now (pc, g) = (pc', g')"
  shows "node_run api recv s (es @ worker_events api now pc g) (owner, pc', g')"
  by (rule node_run.more [OF assms(1) node_step.work [OF assms(2,3)]])

lemma demo_run_received:
  "node_run demo_sqlite (callback_after_decrypt demo_api) (node_start demo_gateway)
     [Ev_Accept demo_battery_frame] (O_Alive, W_Start, demo_loaded)"
proof -
  have "new_frames demo_gateway demo_loaded = [demo_battery_frame]"
    by (simp add: new_frames_def demo_loaded_def demo_queue)
  then show ?thesis
    using node_run.more [OF node_run.none node_step.receive [of "callback_after_decrypt demo_api",
        OF demo_receive, of demo_sqlite W_Start]] by (simp add: node_start_def)
qed

text \<open>The worker handles the packet.\<close>

lemma demo_run_handled:
  "\<exists>ok g. node_run demo_sqlite (callback_after_decrypt demo_api) (node_start demo_gateway)
     [Ev_Accept demo_battery_frame, Ev_Store demo_battery_frame ok, Ev_Publish demo_battery_frame 9]
     (O_Alive, W_Test, g)"
proof -
  let ?run = "node_run demo_sqlite (callback_after_decrypt demo_api) (node_start demo_gateway)"
  let ?g1 = "log_msg Info ''Gateway worker thread running...'' [] demo_loaded"
  let ?g2 = "?g1\<lparr>telemetry_queue := (telemetry_queue demo_gateway)\<lparr>queue_items := []\<rparr>\<rparr>"
  obtain ok g3 where ins: "insert_telemetry demo_sqlite demo_battery_frame ?g2 = (ok, g3)"
    by (cases "insert_telemetry demo_sqlite demo_battery_frame ?g2")
  have queue: "telemetry_queue demo_loaded = (telemetry_queue demo_gateway)\<lparr>queue_items := [demo_battery_frame]\<rparr>"
    "running demo_loaded"
    by (simp_all add: demo_loaded_def demo_queue)
  have "?run [Ev_Accept demo_battery_frame] (O_Alive, W_Test, ?g1)"
    using node_run_work [OF demo_run_received, where ros_ok = True and now = 9] by simp
  then have "?run [Ev_Accept demo_battery_frame] (O_Alive, W_Pop, ?g1)"
    using node_run_work [where ros_ok = True and now = 9] queue by fastforce
  then have "?run [Ev_Accept demo_battery_frame] (O_Alive, W_Insert demo_battery_frame, ?g2)"
    using node_run_work [where ros_ok = True and now = 9, of demo_sqlite _ _ _ _ W_Pop ?g1] queue
    by (fastforce simp: cq_pop_def)
  then have "?run [Ev_Accept demo_battery_frame, Ev_Store demo_battery_frame ok]
      (O_Alive, W_Publish demo_battery_frame, g3)"
    using node_run_work [where ros_ok = True and now = 9, of demo_sqlite _ _ _ _
        "W_Insert demo_battery_frame" ?g2] ins by fastforce
  from node_run_work [OF this, where ros_ok = True and now = 9] show ?thesis
    by auto
qed

text \<open>The node is destroyed while the packet waits in the queue.\<close>

lemma demo_run_destroyed:
  "\<exists>g. node_run demo_sqlite (callback_after_decrypt demo_api) (node_start demo_gateway)
     [Ev_Accept demo_battery_frame] (O_Destroyed, W_Exited, g)"
proof -
  let ?run = "node_run demo_sqlite (callback_after_decrypt demo_api) (node_start demo_gateway)"
  let ?g1 = "stop_running demo_loaded"
  let ?g2 = "log_msg Info ''Gateway worker thread running...'' [] ?g1"
  let ?g3 = "log_msg Info ''Gateway worker thread exiting.'' [] ?g2"
  have "?run [Ev_Accept demo_battery_frame] (O_Joining, W_Start, ?g1)"
    using node_run.more [OF demo_run_received node_step.stop] by simp
  from node_run_work [OF this, where ros_ok = True and now = 9]
  have "?run [Ev_Accept demo_battery_frame] (O_Joining, W_Test, ?g2)" by simp
  from node_run_work [OF this, where ros_ok = True and now = 9]
  have "?run [Ev_Accept demo_battery_frame] (O_Joining, W_Exited, ?g3)" by (simp add: stop_running_def)
  from node_run.more [OF this node_step.join]
  have "?run [Ev_Accept demo_battery_frame] (O_Joined, W_Exited, ?g3)" by simp
  from node_run.more [OF this node_step.destroy] show ?thesis
    by auto
qed

section \<open>The node as it is written\<close>

text \<open>C3. \<^verbatim>\<open>process_incoming_raw_payload\<close> refuses every packet, genuine ones included: its call of
  \<^verbatim>\<open>decrypt_aes_gcm\<close> passes the tag, the key and the nonce in the order of the header, the function takes
  them in another one, and the 32-byte key fails the size check of the nonce. The state is unchanged
  but for two lines in the log.\<close>

theorem gateway_refuses_every_packet:
  "process_incoming_raw_payload evp json clock_ns sender payload iv tag g =
     Some (Inr False,
       log_msg Error (''GatewayNode: Decryption failed for sender '{}'' @ [CHR 0x27]) [sender]
         (log_msg Error ''SecurityEngine: Decryption parameter size error (Key, IV, or Tag)'' [] g))"
  using process_refuses [of evp json clock_ns sender payload iv tag g]
  by (simp add: log_decrypt_size_error_def)

text \<open>The callback is total: for every message text, well formed or not, it returns (every
  exception of the JSON library is caught), without undefined behaviour, and the only thing it changes
  is the log.\<close>

theorem callback_only_logs:
  "\<exists>lines. raw_telemetry_callback evp json clock_ns data g = Some (g\<lparr>logs := logs g @ lines\<rparr>)"
  by (rule callback_logs_only)

lemma callback_accepts_nothing:
  "node_run api (node_callback evp json) s es s' \<Longrightarrow> accepted es = []"
proof (induction rule: node_run.induct)
  case none
  then show ?case by simp
next
  case (more es t fs u)
  from more.hyps(2) have "accepted fs = []"
  proof (cases rule: node_step.cases)
    case (receive p g g' pc)
    then show ?thesis
      using node_callback_logs [OF receive(4)] by (auto simp: new_frames_def)
  next
    case (work pc ros_ok now g pc' g' owner)
    then show ?thesis by (cases pc) simp_all
  qed simp_all
  with more show ?case by simp
qed

text \<open>C2. End to end: whatever messages the node receives, and however its threads interleave, it never
  stores a row and never publishes a message, and its queue stays empty.\<close>

theorem gateway_stores_nothing:
  assumes "sqlite_laws api view" and "v_txn (view (ext e)) = None"
    and "gateway_new api decl e = Inr g"
    and "node_run api (node_callback evp json) (node_start g) es (owner, pc, g')"
  shows "stored_rows view g' = v_rows (view (ext e)) \<and> published g' = [] \<and>
         queue_items (telemetry_queue g') = []"
proof -
  have start: "thread_inv (node_start g) \<and> rows_inv api view (v_rows (view (ext e))) (node_start g) [] \<and>
         pipeline_inv (node_start g) [] \<and> publish_inv (node_start g) []"
    by (rule gateway_new_inv [OF assms(1-3)])
  note inv = callback.run_inv [OF assms(4) start]
  have "accepted es = []"
    by (rule callback_accepts_nothing [OF assms(4)])
  then have none: "handled es = []" "queue_items (telemetry_queue g') = []"
    using inv by (simp_all add: pipeline_inv_def)
  then have "publications es = []"
    using inv by (simp add: publish_inv_def)
  then show ?thesis
    using inv none by (simp add: rows_inv_def publish_inv_def stored_frames_def messages_of_def)
qed

definition no_evp :: "(demo_db, unit) evp_api" where
  "no_evp =
     \<lparr>evp_ctx_new = (\<lambda>w. (None, w)), evp_ctx_free = (\<lambda>c w. w), evp_enc_init_cipher = id,
      evp_dec_init_cipher = id, evp_set_ivlen = (\<lambda>n. id), evp_enc_init_key = (\<lambda>k iv. id),
      evp_dec_init_key = (\<lambda>k iv. id), evp_enc_update = (\<lambda>l xs n c. ([], 0, c)),
      evp_dec_update = (\<lambda>l xs n c. ([], 0, c)), evp_enc_final = (\<lambda>l c. ([], 0, c)),
      evp_get_tag = (\<lambda>n c. ([], c)), evp_set_tag = (\<lambda>n t c. c),
      evp_dec_final = (\<lambda>l c. (0, [], 0, c)), rand_bytes = (\<lambda>n w. (0, [], w))\<rparr>"

theorem gateway_stores_nothing_witness:
  "\<exists>g'. node_callback no_evp demo_api (5, ''battery-json'') demo_gateway = Some g' \<and>
        node_run demo_sqlite (node_callback no_evp demo_api) (node_start demo_gateway) []
          (O_Alive, W_Start, g') \<and>
        stored_rows demo_view g' = [] \<and> published g' = []"
proof -
  obtain l where cb: "node_callback no_evp demo_api (5, ''battery-json'') demo_gateway =
      Some (demo_gateway\<lparr>logs := logs demo_gateway @ l\<rparr>)"
    using callback_logs_only [of no_evp demo_api 5 "''battery-json''" demo_gateway]
    by (auto simp: node_callback_def)
  let ?g = "demo_gateway\<lparr>logs := logs demo_gateway @ l\<rparr>"
  have run: "node_run demo_sqlite (node_callback no_evp demo_api) (node_start demo_gateway) []
      (O_Alive, W_Start, ?g)"
    using node_run.more [OF node_run.none node_step.receive [of "node_callback no_evp demo_api",
        OF cb, of demo_sqlite W_Start]] by (simp add: node_start_def new_frames_def demo_queue)
  show ?thesis
    using cb run gateway_stores_nothing [OF demo_sqlite_laws demo_txn demo_gateway_new run]
    unfolding demo_world_rows by (intro exI [of _ ?g]) simp
qed

section \<open>The node behind a decryption that works\<close>

text \<open>C1. Nothing is lost, duplicated or reordered between the callback and the storage engine: at any
  moment the frames the callback has enqueued are the frames given to the engine so far, the one the
  worker has popped, and the ones in the queue, in this order; the queue never exceeds 1000.\<close>

theorem gateway_pipeline_fifo:
  assumes "sqlite_laws api view" and "v_txn (view (ext e)) = None"
    and "gateway_new api decl e = Inr g"
    and "node_run api (callback_after_decrypt json) (node_start g) es (owner, pc, g')"
  shows "accepted es = map fst (handled es) @ in_flight pc @ queue_items (telemetry_queue g') \<and>
         cq_size (telemetry_queue g') \<le> 1000"
  using accepting.run_inv [OF assms(4) gateway_new_inv [OF assms(1-3)]]
  by (auto simp: pipeline_inv_def)

theorem gateway_pipeline_fifo_witness:
  "\<exists>g'. node_run demo_sqlite (callback_after_decrypt demo_api) (node_start demo_gateway)
          [Ev_Accept demo_battery_frame] (O_Alive, W_Start, g') \<and>
        queue_items (telemetry_queue g') = [demo_battery_frame]"
  using demo_run_received
    gateway_pipeline_fifo [OF demo_sqlite_laws demo_txn demo_gateway_new demo_run_received]
  by (auto simp: accepted_def handled_def)

text \<open>The table holds the old rows followed by the rows of exactly the frames whose insert
  succeeded, in the order of their arrival, at any moment of any history; whether or not the database
  could be opened when the node was built.\<close>

theorem gateway_rows:
  assumes "sqlite_laws api view" and "v_txn (view (ext e)) = None"
    and "gateway_new api decl e = Inr g"
    and "node_run api (callback_after_decrypt json) (node_start g) es (owner, pc, g')"
  shows "stored_rows view g' =
           v_rows (view (ext e)) @
           map (\<lambda>(d, ok). telemetry_row (map_order api) d) (filter snd (handled es))"
  using accepting.run_inv [OF assms(4) gateway_new_inv [OF assms(1-3)]]
  by (auto simp: rows_inv_def stored_frames_def)

theorem gateway_rows_witness:
  "\<exists>ok g'. node_run demo_sqlite (callback_after_decrypt demo_api) (node_start demo_gateway)
     [Ev_Accept demo_battery_frame, Ev_Store demo_battery_frame ok, Ev_Publish demo_battery_frame 9]
     (O_Alive, W_Test, g') \<and>
     stored_rows demo_view g' = (if ok then [telemetry_row (\<lambda>ms. ms) demo_battery_frame] else [])"
proof -
  obtain ok g' where run: "node_run demo_sqlite (callback_after_decrypt demo_api) (node_start demo_gateway)
     [Ev_Accept demo_battery_frame, Ev_Store demo_battery_frame ok, Ev_Publish demo_battery_frame 9]
     (O_Alive, W_Test, g')"
    using demo_run_handled by blast
  show ?thesis
    using run gateway_rows [OF demo_sqlite_laws demo_txn demo_gateway_new run]
    unfolding demo_world_rows by (intro exI [of _ ok] exI [of _ g']) (simp add: handled_def)
qed

text \<open>Every frame the worker has handled is published once, in order, whatever the storage engine
  answered: the messages handed to the publishers are those of the handled frames, a frame of another
  sensor type giving none.\<close>

theorem gateway_publishes_handled:
  assumes "sqlite_laws api view" and "v_txn (view (ext e)) = None"
    and "gateway_new api decl e = Inr g"
    and "node_run api (callback_after_decrypt json) (node_start g) es (owner, pc, g')"
  shows "map fst (handled es) = map fst (publications es) @ to_publish pc \<and>
         published g' = messages_of (publications es)"
  using accepting.run_inv [OF assms(4) gateway_new_inv [OF assms(1-3)]]
  by (auto simp: publish_inv_def)

theorem gateway_publishes_handled_witness:
  "\<exists>ok g'. node_run demo_sqlite (callback_after_decrypt demo_api) (node_start demo_gateway)
     [Ev_Accept demo_battery_frame, Ev_Store demo_battery_frame ok, Ev_Publish demo_battery_frame 9]
     (O_Alive, W_Test, g') \<and>
     published g' = [Battery_Msg \<lparr>battery_stamp = 9, battery_frame_id = ''amr_01'',
        percentage = double_to_float 0x4058A00000000000\<rparr>]"
proof -
  obtain ok g' where run: "node_run demo_sqlite (callback_after_decrypt demo_api) (node_start demo_gateway)
     [Ev_Accept demo_battery_frame, Ev_Store demo_battery_frame ok, Ev_Publish demo_battery_frame 9]
     (O_Alive, W_Test, g')"
    using demo_run_handled by blast
  show ?thesis
    using run gateway_publishes_handled [OF demo_sqlite_laws demo_txn demo_gateway_new run]
    by (intro exI [of _ ok] exI [of _ g'])
      (simp add: publications_def messages_of_def ros_message_of_def demo_battery_frame_def)
qed

text \<open>C18. Every frame the callback accepts is well typed: its payload has each key once, its sensor type is
  one of the four categories, and it is the frame that some received JSON document describes; every
  published message is the message of such a frame, handed to a publisher the node
  has created, so nothing is published that no document described.\<close>

theorem gateway_frames_typed:
  assumes "sqlite_laws api view" and "v_txn (view (ext e)) = None"
    and "gateway_new api decl e = Inr g"
    and "json_error_law json" "json_member_law json member"
    and "node_run api (callback_after_decrypt json) (node_start g) es (owner, pc, g')"
  shows "(\<forall>d\<in>set (accepted es).
            payload_wf d \<and> sensor_type d \<in> {''battery'', ''temperature'', ''velocity'', ''generic''} \<and>
            (\<exists>text_json clock_ns j.
               j_parse json text_json = Inr j \<and> frame_of_json json member clock_ns j d)) \<and>
         (\<forall>m\<in>set (published g'). \<exists>d\<in>set (accepted es). (\<exists>now. ros_message_of now d = Some m) \<and>
            publisher_of m \<in> set node_endpoints)"
proof -
  have inv: "pipeline_inv (owner, pc, g') es \<and> publish_inv (owner, pc, g') es"
    using accepting.run_inv [OF assms(6) gateway_new_inv [OF assms(1-3)]] by blast
  then have order: "accepted es = map fst (publications es) @ to_publish pc @ in_flight pc @
      queue_items (telemetry_queue g')" and pub: "published g' = messages_of (publications es)"
    by (simp_all add: pipeline_inv_def publish_inv_def)
  have messages: "\<exists>d\<in>set (accepted es). (\<exists>now. ros_message_of now d = Some m) \<and>
      publisher_of m \<in> set node_endpoints" if m: "m \<in> set (published g')" for m
  proof -
    obtain d now where d: "(d, now) \<in> set (publications es)" "ros_message_of now d = Some m"
      using message_of_published [OF m [unfolded pub]] by blast
    then have "d \<in> set (accepted es)"
      unfolding order by force
    then show ?thesis
      using d(2) publisher_of_created by blast
  qed
  have frames: "payload_wf d \<and> sensor_type d \<in> {''battery'', ''temperature'', ''velocity'', ''generic''} \<and>
      (\<exists>text_json clock_ns j. j_parse json text_json = Inr j \<and> frame_of_json json member clock_ns j d)"
    if "d \<in> set (accepted es)" for d
  proof -
    have "described_frame json member d"
      by (rule run_described [OF assms(4-6) that])
    then show ?thesis
      using described_frame_typed [of json member d] unfolding described_frame_def by simp
  qed
  show ?thesis
    by (intro conjI ballI frames messages)
qed

theorem gateway_frames_typed_witness:
  "payload_wf demo_battery_frame \<and>
   (\<exists>text_json clock_ns j. j_parse demo_api text_json = Inr j \<and>
      frame_of_json demo_api demo_member clock_ns j demo_battery_frame)"
  using gateway_frames_typed [OF demo_sqlite_laws demo_txn demo_gateway_new demo_json_error_law
      demo_json_member_law demo_run_received]
  by (simp add: accepted_def)

text \<open>C19. Destruction: when the destructor has returned the worker has exited, the database handles
  are released, no thread of the node can take another step, and the frames that were still queued have
  been neither stored nor published: they are lost.\<close>

theorem gateway_destroyed:
  assumes "sqlite_laws api view" and "v_txn (view (ext e)) = None"
    and "gateway_new api decl e = Inr g"
    and "node_run api (callback_after_decrypt json) (node_start g) es (O_Destroyed, pc, g')"
  shows "pc = W_Exited \<and> handles_released g' \<and>
         \<not> node_step api (callback_after_decrypt json) (O_Destroyed, pc, g') fs s \<and>
         accepted es = map fst (publications es) @ queue_items (telemetry_queue g')"
proof -
  have inv: "thread_inv (O_Destroyed, pc, g') \<and>
      rows_inv api view (v_rows (view (ext e))) (O_Destroyed, pc, g') es \<and>
      pipeline_inv (O_Destroyed, pc, g') es \<and> publish_inv (O_Destroyed, pc, g') es"
    by (rule accepting.run_inv [OF assms(4) gateway_new_inv [OF assms(1-3)]])
  then have pc: "pc = W_Exited"
    by (simp add: thread_inv_def)
  moreover have "\<not> node_step api (callback_after_decrypt json) (O_Destroyed, W_Exited, g') fs s"
    by (auto elim: destroyed_cases)
  ultimately show ?thesis
    using inv by (simp add: rows_inv_def pipeline_inv_def publish_inv_def)
qed

theorem gateway_destroyed_witness:
  "\<exists>g'. node_run demo_sqlite (callback_after_decrypt demo_api) (node_start demo_gateway)
          [Ev_Accept demo_battery_frame] (O_Destroyed, W_Exited, g') \<and>
        queue_items (telemetry_queue g') = [demo_battery_frame]"
proof -
  obtain g' where run: "node_run demo_sqlite (callback_after_decrypt demo_api) (node_start demo_gateway)
      [Ev_Accept demo_battery_frame] (O_Destroyed, W_Exited, g')"
    using demo_run_destroyed by blast
  show ?thesis
    using run gateway_destroyed [OF demo_sqlite_laws demo_txn demo_gateway_new run]
    by (intro exI [of _ g']) (simp add: accepted_def publications_def)
qed

text \<open>C30. Once the destructor has cleared \<^verbatim>\<open>running_\<close> the worker exits within four of its own steps,
  wherever it is and whatever the clock and \<^verbatim>\<open>rclcpp::ok()\<close> say, so the join returns; on the way it takes
  at most one more frame from the queue.\<close>

theorem worker_exits_after_stop:
  assumes "init_done g" and "4 \<le> length is"
    and "worker_run api is (pc, stop_running g) = (pc', g')"
  shows "pc' = W_Exited \<and>
         queue_items (telemetry_queue g') =
           (if pc = W_Pop then tl (queue_items (telemetry_queue g)) else queue_items (telemetry_queue g))"
proof -
  have "worker_rank pc \<le> 4"
    by (cases pc) simp_all
  then show ?thesis
    using worker_run_stops [of "stop_running g" pc "is" api pc' g'] assms by (simp add: stop_running_def)
qed

theorem worker_exits_after_stop_witness:
  "\<exists>g'. worker_run demo_sqlite [(True, 1), (True, 2), (False, 3), (True, 4)] (W_Pop, stop_running demo_loaded) =
          (W_Exited, g') \<and>
        queue_items (telemetry_queue g') = []"
proof -
  let ?is = "[(True, 1), (True, 2), (False, 3), (True, 4)]"
  obtain pc' g' where run: "worker_run demo_sqlite ?is (W_Pop, stop_running demo_loaded) = (pc', g')"
    by (cases "worker_run demo_sqlite ?is (W_Pop, stop_running demo_loaded)")
  have "init_done demo_loaded"
    using demo_start_inv by (auto simp: node_start_def rows_inv_def demo_loaded_def
        dest: engine_sound_init_done)
  from worker_exits_after_stop [OF this _ run] show ?thesis
    using run by (simp add: demo_loaded_def)
qed

text \<open>While the node runs, the worker empties its queue: whatever it was doing, after three steps and
  four more for each queued frame nothing is left in the queue or in its hands (if no new frame arrives).
  The frame in flight and the queued ones have each been given to the storage engine once, in order; the
  table has grown by the rows of those whose insert succeeded; and each of them, and the frame that was
  still to be published, has been published once, in order.\<close>

theorem worker_drains:
  assumes "engine_sound api view g" "running g" "pc \<noteq> W_Exited"
    and "\<forall>i\<in>set is. fst i" and "4 * cq_size (telemetry_queue g) + 3 \<le> length is"
    and "worker_run api is (pc, g) = (pc', g')"
  shows "pc' \<noteq> W_Exited \<and> queue_items (telemetry_queue g') = [] \<and> in_flight pc' = [] \<and> to_publish pc' = [] \<and>
    (let es = worker_trace api is (pc, g); todo = in_flight pc @ queue_items (telemetry_queue g)
     in map fst (handled es) = todo \<and>
        stored_rows view g' = stored_rows view g @ map (telemetry_row (map_order api)) (stored_frames es) \<and>
        map fst (publications es) = to_publish pc @ todo \<and>
        published g' = published g @ messages_of (publications es))"
proof -
  have idone: "init_done g"
    by (rule engine_sound_init_done [OF assms(1)])
  have "worker_distance pc \<le> 3"
    by (cases pc) simp_all
  then have load: "worker_load (pc, g) \<le> length is"
    using assms(5) by (simp add: worker_load_def)
  have end_state: "drained (pc', g')"
    using worker_run_drains [OF assms(2) idone assms(3,4) disjI2 [OF load], of api] assms(6) by simp
  have "rows_inv api view (stored_rows view g) (O_Alive, pc, g) []"
    using assms(1) by (simp add: rows_inv_def)
  from worker_run_rows [OF this, of "is"] have "stored_rows view g' =
      stored_rows view g @ map (telemetry_row (map_order api)) (stored_frames (worker_trace api is (pc, g)))"
    using assms(6) by (simp add: rows_inv_def)
  then show ?thesis
    using end_state worker_run_conserves [OF idone, of pc api "is"] assms(6)
    by (simp add: drained_def conserves_def Let_def)
qed

theorem worker_drains_witness:
  "\<exists>pc' g'. worker_run demo_sqlite (replicate 7 (True, 9)) (W_Start, demo_loaded) = (pc', g') \<and>
     queue_items (telemetry_queue demo_loaded) = [demo_battery_frame] \<and>
     queue_items (telemetry_queue g') = [] \<and>
     map fst (publications (worker_trace demo_sqlite (replicate 7 (True, 9)) (W_Start, demo_loaded))) =
       [demo_battery_frame]"
proof -
  let ?is = "replicate 7 (True, 9)"
  obtain pc' g' where run: "worker_run demo_sqlite ?is (W_Start, demo_loaded) = (pc', g')"
    by (cases "worker_run demo_sqlite ?is (W_Start, demo_loaded)")
  have "engine_sound demo_sqlite demo_view demo_loaded" "running demo_loaded"
    using demo_start_inv
    by (simp_all add: node_start_def rows_inv_def demo_loaded_def frame_simps demo_queue)
  from worker_drains [OF this _ _ _ run] show ?thesis
    using run by (simp add: demo_loaded_def cq_size_def Let_def)
qed

text \<open>C12. No accepted frame waits for ever, behind a decryption that delivers a plaintext: in a node that lives, at any moment of any run, every frame
  accepted so far has been handed to the storage engine, in order, and published but for the one in hand,
  once the worker has had 4007 more turns (1000 queued frames and one in flight, four turns each, and
  three to come round), however many messages arrive in between. The table has grown by the rows of
  exactly those whose insert succeeded; a frame that was refused is published all the same.\<close>

theorem accepted_frames_served:
  assumes "sqlite_laws api view" and "v_txn (view (ext e)) = None" and "gateway_new api decl e = Inr g0"
    and "node_run api (callback_after_decrypt json) (node_start g0) es (O_Alive, pc, g)" and "pc \<noteq> W_Exited"
    and "node_turns api (callback_after_decrypt json) (pc, g) es2 n (pc2, g2)" and "4007 \<le> n"
  shows "(\<exists>later. map fst (handled (es @ es2)) = accepted es @ later) \<and>
         map fst (handled (es @ es2)) = map fst (publications (es @ es2)) @ to_publish pc2 \<and>
         stored_rows view g2 = v_rows (view (ext e)) @
           map (telemetry_row (map_order api)) (map fst (filter snd (handled (es @ es2))))"
proof -
  have inv: "node_inv api view (v_rows (view (ext e))) (pc, g) es"
    using accepting.run_inv [OF assms(4) gateway_new_inv [OF assms(1-3)]] by (simp add: node_inv_def)
  have alive: "fst (pc, g) \<noteq> W_Exited"
    using assms(5) by simp
  note served = accepting.turns_serve [OF assms(6) inv alive order_refl]
  have pipeline: "accepted es = map fst (handled es) @ in_flight pc @ queue_items (telemetry_queue g)"
    "length (queue_items (telemetry_queue g)) \<le> 1000"
    using inv by (simp_all add: node_inv_def pipeline_inv_def cq_size_def Let_def)
  have "length (in_flight pc) \<le> 1"
    by (cases pc) simp_all
  with arg_cong [OF pipeline(1), of length] pipeline(2)
  have "length (accepted es) - length (handled es) \<le> 1001"
    by simp
  with served assms(7) have len: "length (accepted es) \<le> length (handled (es @ es2))"
    by fastforce
  have "accepted es @ accepted es2 =
      map fst (handled (es @ es2)) @ in_flight pc2 @ queue_items (telemetry_queue g2)"
    "map fst (handled (es @ es2)) = map fst (publications (es @ es2)) @ to_publish pc2"
    using served by (simp_all add: node_inv_def pipeline_inv_def publish_inv_def Let_def)
  moreover from this(1) have "take (length (accepted es)) (map fst (handled (es @ es2))) = accepted es"
    using len by (metis append_eq_append_conv_if length_map take_append take_all append_Nil2 diff_is_0_eq take_0)
  moreover have "stored_rows view g2 = v_rows (view (ext e)) @
      map (telemetry_row (map_order api)) (map fst (filter snd (handled (es @ es2))))"
    using served by (simp add: node_inv_def rows_inv_def stored_frames_def Let_def)
  ultimately show ?thesis
    by (metis append_take_drop_id)
qed

theorem accepted_frames_served_witness:
  "\<exists>es2 pc2 g2. node_turns demo_sqlite (callback_after_decrypt demo_api) (W_Start, demo_loaded) es2 4007 (pc2, g2) \<and>
     (\<exists>later. map fst (handled es2) = demo_battery_frame # later)"
proof -
  obtain es2 pc2 g2 where
    turns: "node_turns demo_sqlite (callback_after_decrypt demo_api) (W_Start, demo_loaded) es2 4007 (pc2, g2)"
    using turns_exist [of demo_sqlite "callback_after_decrypt demo_api" "(W_Start, demo_loaded)" 4007] by auto
  have "W_Start \<noteq> W_Exited" "(4007 :: nat) \<le> 4007" by simp_all
  from accepted_frames_served [OF demo_sqlite_laws demo_txn demo_gateway_new demo_run_received this(1) turns this(2)]
  obtain later where "map fst (handled ([Ev_Accept demo_battery_frame] @ es2)) =
      accepted [Ev_Accept demo_battery_frame] @ later"
    by blast
  then have "map fst (handled es2) = demo_battery_frame # later"
    by (simp add: handled_def accepted_def)
  with turns show ?thesis
    by (intro exI [of _ es2] exI [of _ pc2] exI [of _ g2] conjI exI [of _ later])
qed

text \<open>C31. Overload: while the worker takes no turn, any number of decrypted packets that parse are all
  reported as processed, and the queue keeps the oldest frames up to its capacity. The rest is dropped
  without a line in the log, because the result of the push is ignored.\<close>

theorem overload_drops_newest:
  assumes "list_all2 (\<lambda>(clock_ns, plaintext) d.
             parse_and_validate json clock_ns (string_of_bytes plaintext) empty_telemetry = (Inr SUCCESS, d)) ps ds"
    and "cq_size (telemetry_queue g) \<le> max_capacity (telemetry_queue g)"
  shows "accept_run json ps g =
    (replicate (length ps) (Inr True),
     g\<lparr>telemetry_queue := (telemetry_queue g)\<lparr>queue_items :=
         take (max_capacity (telemetry_queue g)) (queue_items (telemetry_queue g) @ ds)\<rparr>\<rparr>)"
  using assms
proof (induction ps ds arbitrary: g rule: list_all2_induct)
  case Nil
  have "g\<lparr>telemetry_queue := (telemetry_queue g)\<lparr>queue_items := queue_items (telemetry_queue g)\<rparr>\<rparr> = g"
    by simp
  with Nil show ?case
    by (simp add: cq_size_def)
next
  case (Cons p ps d ds)
  note step = accept_parsed [of json "fst p" "snd p" d g]
  let ?q = "snd (cq_push d (telemetry_queue g))"
  have queue: "cq_size ?q \<le> max_capacity ?q" "max_capacity ?q = max_capacity (telemetry_queue g)"
    "take (max_capacity ?q) (queue_items ?q @ ds) =
       take (max_capacity (telemetry_queue g)) (queue_items (telemetry_queue g) @ d # ds)"
    "?q\<lparr>queue_items := xs\<rparr> = (telemetry_queue g)\<lparr>queue_items := xs\<rparr>" for xs
    using Cons.prems by (auto simp: cq_push_def cq_size_def take_Cons'
        simp flip: diff_Suc_eq_diff_pred)
  from Cons.IH [of "g\<lparr>telemetry_queue := ?q\<rparr>"] show ?case
    using Cons.hyps(1) step queue by (cases p) (simp add: case_prod_beta Let_def)
qed

theorem overload_drops_newest_witness:
  "accept_run demo_api (replicate 3 (5, bytes_of_string ''battery-json''))
     (demo_gateway\<lparr>telemetry_queue := cq_new 2\<rparr>) =
   (replicate 3 (Inr True),
    demo_gateway\<lparr>telemetry_queue := (cq_new 2)\<lparr>queue_items := [demo_battery_frame, demo_battery_frame]\<rparr>\<rparr>)"
  by (subst overload_drops_newest [where ds = "replicate 3 demo_battery_frame"])
    (simp_all add: demo_parse_battery cq_new_def cq_size_def numeral_eq_Suc)

end
