(* ===== verification/Gateway_Spec.thy ===== *)
theory Gateway_Spec
  imports Gateway_Properties
begin

text \<open>
  What the gateway node promises, as an abstract machine, and the proof that the threads of the node
  implement it. The machine has no threads, no queue with a lock and no database: it keeps the frames it
  owes an answer to, the frame whose message is due, the rows and the messages. Each event of the node is
  one move of the machine, and a move the machine does not allow is \<open>None\<close>.

  The refinement is a functional simulation: along every run of the node the machine accepts the events
  that happen, and its state is the abstraction \<open>spec_of\<close> of the state of the node. It is proved once, for
  every handler of messages that keeps the contract \<open>packet_receiver\<close>, and so holds for the node as it is
  written and for the node behind a decryption that works.
\<close>

section \<open>The abstract machine\<close>

record pipeline_spec =
  owed :: "telemetry_data list"
  due :: "telemetry_data option"
  spec_rows :: "row list"
  spec_messages :: "ros_message list"

definition spec_start :: "row list \<Rightarrow> pipeline_spec" where
  "spec_start rows = \<lparr>owed = [], due = None, spec_rows = rows, spec_messages = []\<rparr>"

fun spec_step :: "(telemetry_data \<Rightarrow> row) \<Rightarrow> node_event \<Rightarrow> pipeline_spec \<Rightarrow> pipeline_spec option" where
  \<comment> \<open>a frame is accepted while at most 1001 are owed: 1000 queued and one in the hands of the worker;
      the oldest frame is stored when no message is due, and its message is due from then on\<close>
  "spec_step row_of (Ev_Accept d) a =
     (if length (owed a) \<le> 1000 then Some (a\<lparr>owed := owed a @ [d]\<rparr>) else None)"
| "spec_step row_of (Ev_Store d ok) a =
     (if owed a \<noteq> [] \<and> hd (owed a) = d \<and> due a = None
      then Some (a\<lparr>owed := tl (owed a), due := Some d,
                   spec_rows := spec_rows a @ (if ok then [row_of d] else [])\<rparr>)
      else None)"
| "spec_step row_of (Ev_Publish d now) a =
     (if due a = Some d
      then Some (a\<lparr>due := None,
                   spec_messages := spec_messages a @
                     (case ros_message_of now d of None \<Rightarrow> [] | Some m \<Rightarrow> [m])\<rparr>)
      else None)"

fun spec_run :: "(telemetry_data \<Rightarrow> row) \<Rightarrow> node_event list \<Rightarrow> pipeline_spec \<Rightarrow> pipeline_spec option" where
  "spec_run row_of [] a = Some a"
| "spec_run row_of (e # es) a = Option.bind (spec_step row_of e a) (spec_run row_of es)"

lemma spec_run_append:
  "spec_run row_of (es @ fs) a = Option.bind (spec_run row_of es a) (spec_run row_of fs)"
  by (induction es arbitrary: a) (auto split: bind_split)

lemma spec_run_accepts:
  "length (owed a) + length ds \<le> 1001 \<Longrightarrow>
   spec_run row_of (map Ev_Accept ds) a = Some (a\<lparr>owed := owed a @ ds\<rparr>)"
  by (induction ds arbitrary: a) simp_all

text \<open>What the machine guarantees by itself: first in, first out, every frame answered and published once.\<close>

lemma spec_history:
  "spec_run row_of es a = Some b \<Longrightarrow>
   owed a @ accepted es = map fst (handled es) @ owed b \<and>
   (case due a of None \<Rightarrow> [] | Some d \<Rightarrow> [d]) @ map fst (handled es) =
     map fst (publications es) @ (case due b of None \<Rightarrow> [] | Some d \<Rightarrow> [d]) \<and>
   spec_rows b = spec_rows a @ map row_of (stored_frames es) \<and>
   spec_messages b = spec_messages a @ messages_of (publications es)"
proof (induction es arbitrary: a)
  case Nil
  then show ?case by (simp add: messages_of_def)
next
  case (Cons e es)
  from Cons.prems obtain c where c: "spec_step row_of e a = Some c" "spec_run row_of es c = Some b"
    by (cases "spec_step row_of e a") simp_all
  note ih = Cons.IH [OF c(2)]
  have cons: "accepted (e # es) = accepted [e] @ accepted es" "handled (e # es) = handled [e] @ handled es"
    "publications (e # es) = publications [e] @ publications es"
    "stored_frames (e # es) = stored_frames [e] @ stored_frames es"
    by (simp_all flip: accepted_append handled_append publications_append stored_frames_append)
  show ?case
  proof (cases e)
    case (Ev_Accept d)
    then show ?thesis
      using c(1) ih events_accept [of "[d]"] stored_frames_events(4) [of "[d]"]
      unfolding cons by (auto split: if_splits)
  next
    case (Ev_Store d ok)
    then show ?thesis
      using c(1) ih unfolding cons by (cases "owed a") (auto split: if_splits)
  next
    case (Ev_Publish d now)
    then show ?thesis
      using c(1) ih unfolding cons by (auto simp: messages_of_def split: if_splits)
  qed
qed

section \<open>The abstraction\<close>

definition spec_of ::
  "('w \<Rightarrow> ('h, 's) db_view) \<Rightarrow> ('w, 'h, 's) node_state \<Rightarrow> pipeline_spec" where
  "spec_of view s =
     (case s of (owner, pc, g) \<Rightarrow>
        \<lparr>owed = in_flight pc @ queue_items (telemetry_queue g),
         due = (case pc of W_Publish d \<Rightarrow> Some d | _ \<Rightarrow> None),
         spec_rows = stored_rows view g, spec_messages = published g\<rparr>)"

definition node_ok ::
  "('w, 'h, 's) store_api \<Rightarrow> ('w \<Rightarrow> ('h, 's) db_view) \<Rightarrow> ('w, 'h, 's) node_state \<Rightarrow> bool" where
  \<comment> \<open>the invariants of the node, with the history forgotten\<close>
  "node_ok api view s \<longleftrightarrow>
     (\<exists>rows es. thread_inv s \<and> rows_inv api view rows s es \<and> pipeline_inv s es \<and> publish_inv s es)"

lemma node_ok_fields:
  assumes "node_ok api view (owner, pc, g)"
  shows "owner \<noteq> O_Destroyed \<Longrightarrow> engine_sound api view g" "cq_size (telemetry_queue g) \<le> 1000"
    "max_capacity (telemetry_queue g) = 1000" "owner \<in> {O_Joined, O_Destroyed} \<Longrightarrow> pc = W_Exited"
  using assms by (auto simp: node_ok_def inv_defs)

lemma worker_refines:
  assumes "engine_sound api view g" and "pc \<noteq> W_Exited"
    and "worker_step api ros_ok now (pc, g) = (pc', g')"
  shows "spec_run (telemetry_row (map_order api)) (worker_events api now pc g) (spec_of view (owner, pc, g)) =
         Some (spec_of view (owner, pc', g'))"
proof (cases pc)
  case (W_Insert d)
  obtain ok g1 where run: "insert_telemetry api d g = (ok, g1)"
    by (cases "insert_telemetry api d g")
  show ?thesis
    using assms W_Insert run insert_step_fields [OF engine_sound_init_done [OF assms(1)] run]
      sound_store.insert_rows [OF assms(1) run]
    by (auto simp: spec_of_def)
next
  case (W_Publish d)
  then show ?thesis
    using assms by (auto simp: spec_of_def publish_ros_messages_def frame_simps split: option.splits)
qed (use assms in \<open>auto simp: spec_of_def cq_pop_def frame_simps split: if_splits list.splits\<close>)

section \<open>The simulation\<close>

context packet_receiver
begin

lemma step_refines:
  assumes "node_step api recv s es s'" and "node_ok api view s"
  shows "spec_run (telemetry_row (map_order api)) es (spec_of view s) = Some (spec_of view s')"
  using assms
proof (cases rule: node_step.cases)
  case (receive p g g' pc)
  note frame = recv_frame [OF receive(4)]
  have size: "length (queue_items (telemetry_queue g')) \<le> 1000"
    using node_ok_fields [of api view O_Alive pc g] recv_bounded [OF receive(4)] assms(2) receive
    by (simp add: cq_size_def)
  have "length (in_flight pc) \<le> 1"
    by (cases pc) simp_all
  then show ?thesis
    using receive size queue_frame_fields [OF frame] queue_frame_engine [OF frame] recv_appends [OF receive(4)]
    by (simp add: spec_run_accepts spec_of_def)
next
  case (work pc ros_ok now g pc' g' owner)
  have "owner \<noteq> O_Destroyed"
    using node_ok_fields(4) [of api view owner pc g] assms(2) work by auto
  then show ?thesis
    using worker_refines [of api view g pc ros_ok now pc' g' owner] node_ok_fields(1) [of api view owner pc g]
      assms(2) work by simp
next
  case (stop pc g)
  then show ?thesis
    by (simp add: spec_of_def stop_running_def frame_simps)
next
  case (join g)
  then show ?thesis
    by (simp add: spec_of_def)
next
  case (destroy pc g)
  then show ?thesis
    using node_ok_fields(1) [of api view O_Joined pc g] assms(2) close_engine_sound [of api view g]
    by (simp add: spec_of_def finish_shutdown_def)
qed

lemma step_ok:
  assumes "node_step api recv s es s'" and "node_ok api view s"
  shows "node_ok api view s'"
  using assms(2) step_inv [OF assms(1)] unfolding node_ok_def by blast

lemma run_refines:
  assumes "node_run api recv s es s'" and "node_ok api view s"
  shows "node_ok api view s' \<and>
         spec_run (telemetry_row (map_order api)) es (spec_of view s) = Some (spec_of view s')"
  using assms
proof (induction rule: node_run.induct)
  case none
  then show ?case by simp
next
  case (more es t fs u)
  then show ?case
    using step_refines [OF more.hyps(2)] step_ok [OF more.hyps(2)] by (simp add: spec_run_append)
qed

end

lemma spec_of_new:
  assumes "sqlite_laws api view" and "v_txn (view (ext e)) = None" and "gateway_new api decl e = Inr g"
  shows "node_ok api view (node_start g)" "spec_of view (node_start g) = spec_start (v_rows (view (ext e)))"
proof -
  note inv = gateway_new_inv [OF assms]
  show "node_ok api view (node_start g)"
    unfolding node_ok_def using inv by blast
  show "spec_of view (node_start g) = spec_start (v_rows (view (ext e)))"
    using inv by (simp add: spec_of_def spec_start_def node_start_def inv_defs messages_of_def stored_frames_def)
qed

section \<open>The property\<close>

text \<open>C4. The threads of the node implement the abstract machine: along every run, from the construction
  to the destruction, the machine allows each event that happens (a frame is accepted within the capacity,
  the oldest frame is stored next, and its message published before the next frame is touched), and the
  frames, the rows and the messages of the node are those of the machine after these events. The machine
  is deterministic, so the events alone determine everything the node has stored and published.\<close>

theorem gateway_refines_spec:
  assumes "sqlite_laws api view" and "v_txn (view (ext e)) = None" and "gateway_new api decl e = Inr g"
    and "node_run api (callback_after_decrypt json) (node_start g) es s"
  shows "spec_run (telemetry_row (map_order api)) es (spec_start (v_rows (view (ext e)))) = Some (spec_of view s)"
  using accepting.run_refines [OF assms(4) spec_of_new(1) [OF assms(1-3)]]
  unfolding spec_of_new(2) [OF assms(1-3)] by blast

theorem gateway_refines_spec_witness:
  "\<exists>ok g. node_run demo_sqlite (callback_after_decrypt demo_api) (node_start demo_gateway)
     [Ev_Accept demo_battery_frame, Ev_Store demo_battery_frame ok, Ev_Publish demo_battery_frame 9]
     (O_Alive, W_Test, g) \<and>
     owed (spec_of demo_view (O_Alive, W_Test, g)) = [] \<and>
     spec_rows (spec_of demo_view (O_Alive, W_Test, g)) =
       (if ok then [telemetry_row (\<lambda>ms. ms) demo_battery_frame] else []) \<and>
     length (spec_messages (spec_of demo_view (O_Alive, W_Test, g))) = 1"
proof -
  obtain ok g where run: "node_run demo_sqlite (callback_after_decrypt demo_api) (node_start demo_gateway)
     [Ev_Accept demo_battery_frame, Ev_Store demo_battery_frame ok, Ev_Publish demo_battery_frame 9]
     (O_Alive, W_Test, g)"
    using demo_run_handled by blast
  have msg: "\<exists>m. ros_message_of 9 demo_battery_frame = Some m"
    by (simp add: ros_message_of_def demo_battery_frame_def)
  from gateway_refines_spec [OF demo_sqlite_laws demo_txn demo_gateway_new run]
  have "spec_of demo_view (O_Alive, W_Test, g) =
      \<lparr>owed = [], due = None, spec_rows = (if ok then [telemetry_row (\<lambda>ms. ms) demo_battery_frame] else []),
       spec_messages = (case ros_message_of 9 demo_battery_frame of None \<Rightarrow> [] | Some m \<Rightarrow> [m])\<rparr>"
    unfolding demo_world_rows by (auto simp: spec_start_def)
  with run msg show ?thesis
    by (intro exI [of _ ok] exI [of _ g]) auto
qed

text \<open>The node as it is written implements the same machine: it merely never makes its first move.\<close>

theorem written_node_refines_spec:
  assumes "sqlite_laws api view" and "v_txn (view (ext e)) = None" and "gateway_new api decl e = Inr g"
    and "node_run api (node_callback evp json) (node_start g) es s"
  shows "spec_run (telemetry_row (map_order api)) es (spec_start (v_rows (view (ext e)))) = Some (spec_of view s)"
  using callback.run_refines [OF assms(4) spec_of_new(1) [OF assms(1-3)]]
  unfolding spec_of_new(2) [OF assms(1-3)] by blast

end
