(* ===== verification/Storage_Sessions.thy ===== *)
theory Storage_Sessions
  imports Storage_Properties "HOL-Library.Sublist"
begin

text \<open>
  The storage engine over the restarts of the program. The service file restarts the gateway whenever it
  ends, so one database file sees many engines one after the other: each is constructed, runs a history
  of calls, and is destroyed, or its process is killed before that. The engine of a session knows
  nothing of the earlier ones but the file.

  Two more documented facts of SQLite are needed: closing a connection rolls its open transaction back
  (\<open>ending_laws\<close>), and so does the death of the process, which leaves the committed rows (\<open>exit_law\<close>).
\<close>

definition ending_laws :: "('w, 'h, 's) store_api \<Rightarrow> ('w \<Rightarrow> ('h, 's) db_view) \<Rightarrow> bool" where
  \<comment> \<open>finalizing and closing never leave a transaction that was not there, and closing an open
      connection whose only statement has been finalized rolls its transaction back\<close>
  "ending_laws api view \<longleftrightarrow>
     (\<forall>st w. v_txn (view (sq_finalize api st w)) \<in> {v_txn (view w), None}) \<and>
     (\<forall>h w. v_txn (view (sq_close api h w)) \<in> {v_txn (view w), None}) \<and>
     (\<forall>h st w. v_conn (view w) h \<longrightarrow> v_prog (view w) st = Some insert_sql \<longrightarrow>
        v_txn (view (sq_close api h (sq_finalize api st w))) = None)"

definition exit_law :: "('w \<Rightarrow> 'w) \<Rightarrow> ('w \<Rightarrow> ('h, 's) db_view) \<Rightarrow> bool" where
  "exit_law process_exit view \<longleftrightarrow>
     (\<forall>w. v_rows (view (process_exit w)) = v_rows (view w) \<and> v_txn (view (process_exit w)) = None)"

section \<open>Sessions\<close>

datatype session_end = Engine_Destroyed | Process_Killed

type_synonym session = "store_cmd list \<times> session_end"

fun store_session ::
  "('w, 'h, 's) store_api \<Rightarrow> ('w \<Rightarrow> 'w) \<Rightarrow> string \<Rightarrow> session \<Rightarrow> 'w \<Rightarrow> bool list \<times> 'w" where
  \<comment> \<open>one engine on the file at \<open>path\<close>, with the results of its calls\<close>
  "store_session api process_exit path (cs, how) w =
     (let (oks, s) = store_history api cs (storage_new path \<lparr>ext = w, logs = []\<rparr>)
      in (oks, case how of
                 Engine_Destroyed \<Rightarrow> ext (storage_destroy api s)
               | Process_Killed \<Rightarrow> process_exit (ext s)))"

fun store_sessions ::
  "('w, 'h, 's) store_api \<Rightarrow> ('w \<Rightarrow> 'w) \<Rightarrow> string \<Rightarrow> session list \<Rightarrow> 'w \<Rightarrow> bool list list \<times> 'w" where
  "store_sessions api process_exit path [] w = ([], w)"
| "store_sessions api process_exit path (ss # sss) w =
     (let (oks, w) = store_session api process_exit path ss w;
          (okss, w) = store_sessions api process_exit path sss w
      in (oks # okss, w))"

fun cmd_rows ::
  "((string \<times> double) list \<Rightarrow> (string \<times> double) list) \<Rightarrow> store_cmd \<Rightarrow> bool \<Rightarrow> row list" where
  \<comment> \<open>the rows of a call that has reported success\<close>
  "cmd_rows order (Cmd_Insert d) True = [telemetry_row order d]"
| "cmd_rows order (Cmd_Batch ds) True = map (telemetry_row order) ds"
| "cmd_rows order _ _ = []"

fun reported_rows ::
  "((string \<times> double) list \<Rightarrow> (string \<times> double) list) \<Rightarrow> store_cmd list \<Rightarrow> bool list \<Rightarrow> row list" where
  "reported_rows order (c # cs) (ok # oks) = cmd_rows order c ok @ reported_rows order cs oks"
| "reported_rows order _ _ = []"

fun batch_refused :: "store_cmd \<Rightarrow> bool \<Rightarrow> bool" where
  "batch_refused (Cmd_Batch ds) ok = (\<not> ok)"
| "batch_refused _ ok = False"

fun no_batch_refused :: "store_cmd list \<Rightarrow> bool list \<Rightarrow> bool" where
  "no_batch_refused (c # cs) (ok # oks) = (\<not> batch_refused c ok \<and> no_batch_refused cs oks)"
| "no_batch_refused _ _ = True"

section \<open>The engine within a session\<close>

definition engine_fresh ::
  "('w \<Rightarrow> ('h, 's) db_view) \<Rightarrow> ('w, 'h, 's, 'm) storage_scheme \<Rightarrow> bool" where
  \<comment> \<open>constructed, and not initialised yet\<close>
  "engine_fresh view s \<longleftrightarrow>
     \<not> init_done s \<and> \<not> is_initialized s \<and> handles_released s \<and> open_txn view s = None"

definition session_inv ::
  "('w \<Rightarrow> ('h, 's) db_view) \<Rightarrow> ('w, 'h, 's, 'm) storage_scheme \<Rightarrow> bool" where
  "session_inv view s \<longleftrightarrow>
     engine_fresh view s \<or> engine_ready view s \<or>
     engine_dead s \<and> handles_released s \<and> open_txn view s = None"

lemma ending_laws_None:
  assumes "ending_laws api view" "v_txn (view w) = None"
  shows "v_txn (view (sq_finalize api st w)) = None" "v_txn (view (sq_close api h w)) = None"
  using assms unfolding ending_laws_def by (metis insert_iff singletonD)+

lemma close_internal_txn:
  "ending_laws api view \<Longrightarrow> open_txn view s = None \<Longrightarrow> open_txn view (close_internal api s) = None"
  by (simp add: close_internal_def open_txn_def Let_def ending_laws_None split: option.splits)

lemma close_engine_txn:
  assumes "ending_laws api view" "open_txn view s = None \<or> engine_ready view s"
  shows "open_txn view (close_engine api s) = None"
proof (cases "open_txn view s = None")
  case True
  then show ?thesis
    using close_internal_txn [OF assms(1)] by (simp add: close_engine_def open_txn_def)
next
  case False
  then show ?thesis
    using assms
    by (auto simp: engine_ready_def ending_laws_def close_engine_def close_internal_def open_txn_def Let_def)
qed

lemma init_internal_txn:
  fixes s :: "('w, 'h, 's, 'm) storage_scheme"
  assumes laws: "sqlite_laws api view" "ending_laws api view" and none: "open_txn view s = None"
  shows "open_txn view (snd (init_internal api s)) = None"
proof -
  have open_l: "open_laws_in (\<lambda>_. True) api view"
    using laws(1) by (simp add: sqlite_laws_def open_laws_def)
  let ?s0 = "s\<lparr>init_failed := False\<rparr>"
  obtain rc s1 where o: "open_database api ?s0 = (rc, s1)" by (cases "open_database api ?s0")
  obtain w_ok s2 where w: "enable_wal_mode api s1 = (w_ok, s2)" by (cases "enable_wal_mode api s1")
  obtain c_ok s3 where c: "create_schema api s2 = (c_ok, s3)" by (cases "create_schema api s2")
  obtain rc2 s4 where p: "prepare_insert api s3 = (rc2, s4)" by (cases "prepare_insert api s3")
  have "open_txn view ?s0 = None"
    using none by (simp add: open_txn_def)
  then have "open_txn view s1 = None" "open_txn view s2 = None" "open_txn view s3 = None"
      "open_txn view s4 = None"
    using open_database_effect [OF open_l TrueI o] enable_wal_mode_effect [OF open_l w]
      create_schema_effect [OF open_l c] prepare_insert_effect [OF open_l p]
    by (simp_all add: open_txn_def)
  moreover have "open_txn view (snd (init_failure api t)) = None" if "open_txn view t = None"
    for t :: "('w, 'h, 's, 'm) storage_scheme"
    using close_internal_txn [OF laws(2), of "t\<lparr>init_failed := True\<rparr>"] that
    by (simp add: init_failure_def open_txn_def)
  moreover have "open_txn view (t\<lparr>is_initialized := True\<rparr>) = open_txn view t"
    for t :: "('w, 'h, 's, 'm) storage_scheme"
    by (simp add: open_txn_def)
  ultimately show ?thesis
    using none o w c p by (simp add: init_internal_def)
qed

lemma ensure_session:
  assumes laws: "sqlite_laws api view" "ending_laws api view" and inv: "session_inv view s"
  shows "session_inv view (ensure_initialized api s)" "init_done (ensure_initialized api s)"
    "stored_rows view (ensure_initialized api s) = stored_rows view s"
    "open_txn view (ensure_initialized api s) = open_txn view s"
proof -
  have *: "session_inv view (ensure_initialized api s) \<and>
    stored_rows view (ensure_initialized api s) = stored_rows view s \<and>
    open_txn view (ensure_initialized api s) = open_txn view s"
  proof (cases "init_done s")
    case True
    then show ?thesis using inv by (simp add: ensure_initialized_def)
  next
    case False
    then have fresh: "engine_fresh view s"
      using inv by (auto simp: session_inv_def engine_ready_def engine_dead_def)
    let ?s = "ensure_initialized api s"
    have "open_txn view s = None" "\<not> is_initialized s" "init_engine api s = (is_initialized ?s, ?s)"
      using fresh by (simp_all add: engine_fresh_def init_engine_def Let_def)
    moreover from init_engine_effect [OF laws(1) this(2) False this(3)] init_internal_txn [OF laws this(1)] False
    have "stored_rows view ?s = stored_rows view s" "open_txn view ?s = None"
      "is_initialized ?s \<longrightarrow> engine_ready view ?s"
      "\<not> is_initialized ?s \<longrightarrow> engine_dead ?s \<and> handles_released ?s"
      by (simp_all add: ensure_initialized_def open_txn_def engine_dead_def handles_released_def)
    ultimately show ?thesis
      by (auto simp: session_inv_def)
  qed
  then show "session_inv view (ensure_initialized api s)"
    "stored_rows view (ensure_initialized api s) = stored_rows view s"
    "open_txn view (ensure_initialized api s) = open_txn view s" by simp_all
qed simp

lemma cmd_after_ensure:
  "c \<noteq> Cmd_Close \<Longrightarrow> store_cmd_run api c s = store_cmd_run api c (ensure_initialized api s)"
proof -
  have "ensure_initialized api (ensure_initialized api s) = ensure_initialized api s"
    by (simp add: ensure_initialized_def)
  then show "c \<noteq> Cmd_Close \<Longrightarrow> ?thesis"
    by (cases c) (simp_all add: init_engine_def insert_telemetry_def insert_batch_def query_telemetry_def
        purge_older_than_def)
qed

text \<open>What one call does to the committed rows.\<close>

definition cmd_effect ::
  "('w, 'h, 's) store_api \<Rightarrow> ('w \<Rightarrow> ('h, 's) db_view) \<Rightarrow> store_cmd \<Rightarrow> bool \<Rightarrow>
   ('w, 'h, 's, 'm) storage_scheme \<Rightarrow> ('w, 'h, 's, 'm) storage_scheme \<Rightarrow> bool" where
  "cmd_effect api view c ok s s' \<longleftrightarrow>
     session_inv view s' \<and>
     (\<exists>new. stored_rows view s' = stored_rows view s @ new \<and> subseq new (cmd_rows (map_order api) c ok) \<and>
        (open_txn view s = None \<longrightarrow> new = cmd_rows (map_order api) c ok \<and>
           (\<not> batch_refused c ok \<longrightarrow> open_txn view s' = None)))"

lemma cmd_effect_same:
  "session_inv view s' \<Longrightarrow> stored_rows view s' = stored_rows view s \<Longrightarrow>
   open_txn view s' = open_txn view s \<or> open_txn view s' = None \<Longrightarrow> cmd_rows (map_order api) c ok = [] \<Longrightarrow>
   cmd_effect api view c ok s s'"
  by (auto simp: cmd_effect_def)

lemma session_inv_log [simp]: "session_inv view (log_msg l f a s) = session_inv view s"
  by (simp add: session_inv_def engine_fresh_def handles_released_def)

lemma cmd_effect_ready:
  assumes laws: "sqlite_laws api view" "ending_laws api view" and ready: "engine_ready view s"
    and run: "store_cmd_run api c s = (ok, s')"
  shows "cmd_effect api view c ok s s'"
proof -
  have same: "ensure_initialized api s = s" "is_initialized s"
    using ready by (simp_all add: ensure_initialized_def engine_ready_def)
  have inv: "session_inv view t" if "engine_ready view t" for t :: "('a, 'b, 'c, 'd) storage_scheme"
    using that by (simp add: session_inv_def)
  show ?thesis
  proof (cases c)
    case (Cmd_Insert d)
    then have "insert_section api d s = (ok, s')"
      using run same by (simp add: insert_telemetry_def)
    from insert_section_effect [OF sqlite_laws_engine [OF laws(1)] ready this] show ?thesis
      using Cmd_Insert inv [of s'] unfolding cmd_effect_def by (cases ok; cases "open_txn view s") auto
  next
    case (Cmd_Batch ds)
    show ?thesis
    proof (cases "ds = []")
      case True
      then show ?thesis
        using Cmd_Batch run same inv [OF ready] by (auto simp: insert_batch_def cmd_effect_def)
    next
      case False
      then have section_run: "batch_section api ds s = (ok, s')"
        using Cmd_Batch run same by (simp add: insert_batch_def)
      from batch_section_effect [OF laws(1) ready this] show ?thesis
        using Cmd_Batch inv [of s'] unfolding cmd_effect_def by (cases ok) auto
    qed
  next
    case Cmd_Close
    have "engine_dead s' \<and> handles_released s' \<and> stored_rows view s' = stored_rows view s"
      using Cmd_Close run close_engine_dead [of s api] close_internal_rows [of api view s] laws(1) ready
      by (auto simp: handles_released_def close_engine_def stored_rows_def sqlite_laws_def engine_ready_def)
    moreover have "open_txn view s' = None"
      using Cmd_Close run close_engine_txn [OF laws(2) disjI2 [OF ready]] by auto
    ultimately show ?thesis
      using Cmd_Close by (intro cmd_effect_same) (simp_all add: session_inv_def)
  qed (use run same inv [OF ready] in \<open>auto intro!: cmd_effect_same
         simp: init_engine_def query_telemetry_def purge_older_than_def Let_def\<close>)
qed

lemma cmd_effect_dead:
  assumes "engine_dead s" "handles_released s" "open_txn view s = None"
    and "store_cmd_run api c s = (ok, s')"
  shows "cmd_effect api view c ok s s'"
  using dead_cmd [OF assms(1,2,4)] assms(3)
  by (intro cmd_effect_same; cases c) (simp_all add: session_inv_def stored_rows_def open_txn_def)

lemma cmd_effect_session:
  assumes laws: "sqlite_laws api view" "ending_laws api view" and inv: "session_inv view s"
    and run: "store_cmd_run api c s = (ok, s')"
  shows "cmd_effect api view c ok s s'"
proof (cases "c = Cmd_Close \<and> engine_fresh view s")
  case True
  then have "engine_fresh view s'" "ext s' = ext s"
    using run by (auto simp: engine_fresh_def handles_released_def open_txn_def close_engine_def
        close_internal_def)
  then show ?thesis
    using True by (intro cmd_effect_same) (simp_all add: session_inv_def stored_rows_def open_txn_def)
next
  case False
  define t where "t = (if c = Cmd_Close then s else ensure_initialized api s)"
  have t: "session_inv view t" "stored_rows view t = stored_rows view s" "open_txn view t = open_txn view s"
    using ensure_session [OF laws inv] inv by (simp_all add: t_def)
  have t_run: "store_cmd_run api c t = (ok, s')"
    using run cmd_after_ensure [of c api s] by (cases "c = Cmd_Close") (simp_all add: t_def)
  have "\<not> engine_fresh view t"
    using False ensure_session(2) [OF laws inv] by (auto simp: t_def engine_fresh_def)
  then have "engine_ready view t \<or> engine_dead t \<and> handles_released t \<and> open_txn view t = None"
    using t(1) by (simp add: session_inv_def)
  then have "cmd_effect api view c ok t s'"
    using cmd_effect_ready [OF laws _ t_run] cmd_effect_dead [OF _ _ _ t_run] by blast
  then show ?thesis
    by (simp add: cmd_effect_def t)
qed

lemma history_rows:
  assumes laws: "sqlite_laws api view" "ending_laws api view"
  shows "session_inv view s \<Longrightarrow> store_history api cs s = (oks, s') \<Longrightarrow>
    session_inv view s' \<and>
    (\<exists>new. stored_rows view s' = stored_rows view s @ new \<and>
       subseq new (reported_rows (map_order api) cs oks) \<and>
       (open_txn view s = None \<longrightarrow> no_batch_refused cs oks \<longrightarrow>
          new = reported_rows (map_order api) cs oks))"
proof (induction cs arbitrary: s oks)
  case Nil
  then show ?case by auto
next
  case (Cons c cs)
  obtain ok s1 where c: "store_cmd_run api c s = (ok, s1)" by (cases "store_cmd_run api c s")
  obtain oks' where cs: "store_history api cs s1 = (oks', s')" and oks: "oks = ok # oks'"
    using Cons.prems(2) c by (auto simp: Let_def split: prod.splits)
  obtain new where
    new: "session_inv view s1" "stored_rows view s1 = stored_rows view s @ new"
      "subseq new (cmd_rows (map_order api) c ok)"
      "open_txn view s = None \<longrightarrow> new = cmd_rows (map_order api) c ok \<and>
         (\<not> batch_refused c ok \<longrightarrow> open_txn view s1 = None)"
    using cmd_effect_session [OF laws Cons.prems(1) c] unfolding cmd_effect_def
    by (elim conjE exE) (rule that)
  obtain new' where
    new': "session_inv view s'" "stored_rows view s' = stored_rows view s1 @ new'"
      "subseq new' (reported_rows (map_order api) cs oks')"
      "open_txn view s1 = None \<longrightarrow> no_batch_refused cs oks' \<longrightarrow> new' = reported_rows (map_order api) cs oks'"
    using Cons.IH [OF new(1) cs] by (elim conjE exE) (rule that)
  have "stored_rows view s' = stored_rows view s @ new @ new'"
    using new(2) new'(2) by simp
  moreover have "subseq (new @ new') (reported_rows (map_order api) (c # cs) oks)"
    using list_emb_append_mono [OF new(3) new'(3)] by (simp add: oks)
  moreover have "open_txn view s = None \<longrightarrow> no_batch_refused (c # cs) oks \<longrightarrow>
      new @ new' = reported_rows (map_order api) (c # cs) oks"
    using new(4) new'(4) by (simp add: oks)
  ultimately show ?case
    using new'(1) by (intro conjI exI [of _ "new @ new'"])
qed

lemma session_rows:
  assumes laws: "sqlite_laws api view" "ending_laws api view" "exit_law process_exit view"
    and none: "v_txn (view w) = None"
    and run: "store_session api process_exit path (cs, how) w = (oks, w')"
  shows "v_txn (view w') = None \<and>
    (\<exists>new. v_rows (view w') = v_rows (view w) @ new \<and>
       subseq new (reported_rows (map_order api) cs oks) \<and>
       (no_batch_refused cs oks \<longrightarrow> new = reported_rows (map_order api) cs oks))"
proof -
  let ?s0 = "storage_new path \<lparr>ext = w, logs = []\<rparr>"
  have ext0: "ext ?s0 = w"
    by (simp add: storage_new_def storage.defs env.defs)
  then have "engine_fresh view ?s0"
    using none by (simp add: engine_fresh_def handles_released_def open_txn_def)
      (simp add: storage_new_def storage.defs env.defs)
  then have inv: "session_inv view ?s0"
    by (simp add: session_inv_def)
  obtain s where h: "store_history api cs ?s0 = (oks, s)"
    and w': "w' = (case how of Engine_Destroyed \<Rightarrow> ext (storage_destroy api s) | Process_Killed \<Rightarrow> process_exit (ext s))"
    using run by (auto simp: Let_def split: prod.splits)
  from history_rows [OF laws(1,2) inv h] obtain new where
    new: "session_inv view s" "stored_rows view s = v_rows (view w) @ new"
      "subseq new (reported_rows (map_order api) cs oks)"
      "no_batch_refused cs oks \<longrightarrow> new = reported_rows (map_order api) cs oks"
    using none by (auto simp: ext0 stored_rows_def open_txn_def)
  have "open_txn view (close_engine api s) = None"
    by (rule close_engine_txn [OF laws(2)]) (use new(1) in \<open>auto simp: session_inv_def engine_fresh_def\<close>)
  moreover have "stored_rows view (close_engine api s) = stored_rows view s"
    using close_internal_rows [of api view s] laws(1)
    by (simp add: close_engine_def stored_rows_def sqlite_laws_def)
  ultimately have "v_txn (view w') = None" "v_rows (view w') = stored_rows view s"
    using laws(3)
    by (simp_all add: w' storage_destroy_def exit_law_def stored_rows_def open_txn_def split: session_end.splits)
  with new show ?thesis by auto
qed

lemma sessions_rows:
  assumes laws: "sqlite_laws api view" "ending_laws api view" "exit_law process_exit view"
  shows "v_txn (view w) = None \<Longrightarrow> store_sessions api process_exit path sss w = (okss, w') \<Longrightarrow>
    v_txn (view w') = None \<and>
    (\<exists>news. v_rows (view w') = v_rows (view w) @ concat news \<and> length news = length sss \<and>
       length okss = length sss \<and>
       (\<forall>i<length sss. subseq (news ! i) (reported_rows (map_order api) (fst (sss ! i)) (okss ! i)) \<and>
          (no_batch_refused (fst (sss ! i)) (okss ! i) \<longrightarrow>
             news ! i = reported_rows (map_order api) (fst (sss ! i)) (okss ! i))))"
proof (induction sss arbitrary: w okss)
  case Nil
  then show ?case by simp
next
  case (Cons ss sss)
  obtain cs how where ss: "ss = (cs, how)" by (cases ss)
  obtain oks w1 where one: "store_session api process_exit path (cs, how) w = (oks, w1)"
    by (cases "store_session api process_exit path (cs, how) w")
  obtain okss' where rest: "store_sessions api process_exit path sss w1 = (okss', w')" and okss: "okss = oks # okss'"
    using Cons.prems(2) one unfolding ss store_sessions.simps by (auto simp: Let_def split: prod.splits)
  from session_rows [OF laws Cons.prems(1) one] obtain new where
    new: "v_txn (view w1) = None" "v_rows (view w1) = v_rows (view w) @ new"
      "subseq new (reported_rows (map_order api) cs oks)"
      "no_batch_refused cs oks \<longrightarrow> new = reported_rows (map_order api) cs oks"
    by blast
  from Cons.IH [OF new(1) rest] obtain news where
    news: "v_txn (view w') = None" "v_rows (view w') = v_rows (view w1) @ concat news"
      "length news = length sss" "length okss' = length sss"
      "\<forall>i<length sss. subseq (news ! i) (reported_rows (map_order api) (fst (sss ! i)) (okss' ! i)) \<and>
         (no_batch_refused (fst (sss ! i)) (okss' ! i) \<longrightarrow>
            news ! i = reported_rows (map_order api) (fst (sss ! i)) (okss' ! i))"
    by blast
  show ?case
    using new news by (intro conjI exI [of _ "new # news"])
      (simp_all add: ss okss All_less_Suc2)
qed

section \<open>The property\<close>

text \<open>C7. What the table holds survives every restart. Over any number of sessions on one file, ended by
  the destructor or by the death of the process, no committed row is ever lost, changed or overtaken: each
  session only appends, and what it appends is part, in order, of the rows its calls reported as stored.
  A session in which no batch was refused has stored exactly those; only the transaction a failed COMMIT
  left open takes reported rows with it. No transaction outlives its session.\<close>

theorem restarts_keep_rows:
  assumes "sqlite_laws api view" and "ending_laws api view" and "exit_law process_exit view"
    and "v_txn (view w) = None" and "store_sessions api process_exit path sss w = (okss, w')"
  shows "v_txn (view w') = None \<and>
    (\<exists>news. v_rows (view w') = v_rows (view w) @ concat news \<and> length news = length sss \<and>
       (\<forall>i<length sss. subseq (news ! i) (reported_rows (map_order api) (fst (sss ! i)) (okss ! i)) \<and>
          (no_batch_refused (fst (sss ! i)) (okss ! i) \<longrightarrow>
             news ! i = reported_rows (map_order api) (fst (sss ! i)) (okss ! i))))"
  using sessions_rows [OF assms] by blast

lemma demo_ending_laws: "ending_laws (demo_store no_open no_commit bad) demo_view"
  by (simp add: ending_laws_def demo_store_def demo_view_def)

definition demo_exit :: "demo_db \<Rightarrow> demo_db" where
  "demo_exit w = w\<lparr>d_txn := None, d_open := False, d_live := False\<rparr>"

lemma demo_exit_law: "exit_law demo_exit demo_view"
  by (simp add: exit_law_def demo_exit_def demo_view_def)

text \<open>A COMMIT fails in the first session, so the insert after it reports a row that dies with the
  process; the second session stores its row.\<close>

theorem restarts_keep_rows_witness:
  "\<exists>w'. store_sessions (demo_store False True ''mallory'') demo_exit ''t.db''
      [([Cmd_Batch [demo_frame ''amr_01''], Cmd_Insert (demo_frame ''amr_02'')], Process_Killed),
       ([Cmd_Insert (demo_frame ''amr_03'')], Engine_Destroyed)] (ext demo_world) =
     ([[False, True], [True]], w') \<and>
   v_txn (demo_view w') = None \<and>
   (\<exists>news. v_rows (demo_view w') = concat news \<and>
     subseq (news ! 0) [telemetry_row (\<lambda>ms. ms) (demo_frame ''amr_02'')] \<and>
     news ! 1 = [telemetry_row (\<lambda>ms. ms) (demo_frame ''amr_03'')])"
proof -
  let ?sss = "[([Cmd_Batch [demo_frame ''amr_01''], Cmd_Insert (demo_frame ''amr_02'')], Process_Killed),
       ([Cmd_Insert (demo_frame ''amr_03'')], Engine_Destroyed)]"
  let ?api = "demo_store False True ''mallory''"
  have "\<exists>w1. store_session ?api demo_exit ''t.db'' (?sss ! 0) (ext demo_world) = ([False, True], w1)"
    using demo_first_session by (auto simp: Let_def split: prod.splits)
  then obtain w1 where one: "store_session ?api demo_exit ''t.db'' (?sss ! 0) (ext demo_world) = ([False, True], w1)"
    by blast
  have "\<exists>w'. store_session ?api demo_exit ''t.db'' (?sss ! 1) w1 = ([True], w')"
    using demo_second_session [of w1] by (auto simp: Let_def split: prod.splits)
  then obtain w' where two: "store_session ?api demo_exit ''t.db'' (?sss ! 1) w1 = ([True], w')"
    by blast
  have run: "store_sessions ?api demo_exit ''t.db'' ?sss (ext demo_world) = ([[False, True], [True]], w')"
    using one two by simp
  have start: "v_txn (demo_view (ext demo_world)) = None" "v_rows (demo_view (ext demo_world)) = []"
    by (simp_all add: demo_world_def demo_view_def)
  from restarts_keep_rows [OF demo_sqlite_laws demo_ending_laws demo_exit_law start(1) run]
  show ?thesis
    using run unfolding start(2) by (auto simp: All_less_Suc2 numeral_eq_Suc)
qed

end
