(* ===== verification/Node_Sessions.thy ===== *)
theory Node_Sessions
  imports Storage_Sessions Gateway_Properties
begin

text \<open>
  The gateway node over the restarts of its process. The service file restarts the node whenever it ends,
  so one table sees many nodes: each is constructed on the file the last one left, runs any interleaving
  of its threads, and ends by its destruction, by the death of its process between two steps, or in a
  constructor that throws. What the earlier nodes had in their queues is gone; what they had committed stays.
\<close>

section \<open>Sessions of the node\<close>

inductive node_session ::
  "('w, 'h, 's) store_api \<Rightarrow> param_api \<Rightarrow>
   ('p \<Rightarrow> ('w, 'h, 's) gateway \<Rightarrow> ('w, 'h, 's) gateway option) \<Rightarrow> ('w \<Rightarrow> 'w) \<Rightarrow>
   'w \<Rightarrow> node_event list \<Rightarrow> 'w \<Rightarrow> bool"
  for api decl recv process_exit w where
  node_destroyed: "gateway_new api decl \<lparr>ext = w, logs = []\<rparr> = Inr g \<Longrightarrow>
     node_run api recv (node_start g) es (O_Destroyed, pc, g') \<Longrightarrow>
     node_session api decl recv process_exit w es (process_exit (ext (storage_destroy api g')))"
| node_killed: "gateway_new api decl \<lparr>ext = w, logs = []\<rparr> = Inr g \<Longrightarrow>
     node_run api recv (node_start g) es (owner, pc, g') \<Longrightarrow>
     node_session api decl recv process_exit w es (process_exit (ext g'))"
| constructor_throws: "gateway_new api decl \<lparr>ext = w, logs = []\<rparr> = Inl x \<Longrightarrow>
     node_session api decl recv process_exit w [] (process_exit w)"

inductive node_sessions ::
  "('w, 'h, 's) store_api \<Rightarrow> param_api \<Rightarrow>
   ('p \<Rightarrow> ('w, 'h, 's) gateway \<Rightarrow> ('w, 'h, 's) gateway option) \<Rightarrow> ('w \<Rightarrow> 'w) \<Rightarrow>
   'w \<Rightarrow> node_event list list \<Rightarrow> 'w \<Rightarrow> bool"
  for api decl recv process_exit w where
  no_session: "node_sessions api decl recv process_exit w [] w"
| restart: "node_sessions api decl recv process_exit w ess w1 \<Longrightarrow>
     node_session api decl recv process_exit w1 es w2 \<Longrightarrow>
     node_sessions api decl recv process_exit w (ess @ [es]) w2"

section \<open>No transaction stays open in a node\<close>

lemma insert_sound_txn:
  assumes "engine_sound api view g" "open_txn view g = None" "insert_telemetry api d g = (ok, g')"
  shows "open_txn view g' = None"
proof (cases "store_inv api view g")
  case True
  with store.insert_inv [OF True assms(3)] show ?thesis
    by (simp add: store_inv_def)
next
  case False
  then have "engine_dead g \<and> handles_released g"
    using assms(1) by (simp add: engine_sound_def)
  then show ?thesis
    using dead_cmd [of g api "Cmd_Insert d" ok g'] assms(2,3) by (simp add: open_txn_def)
qed

lemma open_txn_gateway [frame_simps]:
  "open_txn view (g\<lparr>telemetry_queue := q\<rparr>) = open_txn view g"
  "open_txn view (g\<lparr>published := ms\<rparr>) = open_txn view g"
  "open_txn view (g\<lparr>running := b\<rparr>) = open_txn view g"
  by (simp_all add: open_txn_def)

lemma worker_txn:
  assumes "engine_sound api view g" "open_txn view g = None"
    and "worker_step api ros_ok now (pc, g) = (pc', g')"
  shows "open_txn view g' = None"
proof (cases pc)
  case (W_Insert d)
  then show ?thesis
    using assms insert_sound_txn [OF assms(1,2)] by (metis prod.collapse snd_conv worker_step.simps(4))
qed (use assms in \<open>auto simp: cq_pop_def publish_ros_messages_def frame_simps
       split: if_splits list.splits option.splits\<close>)

context packet_receiver
begin

lemma step_txn:
  assumes ending: "ending_laws api view" and run: "node_step api recv s es s'"
    and inv: "thread_inv s" "rows_inv api view rows s hist" and none: "open_txn view (snd (snd s)) = None"
  shows "open_txn view (snd (snd s')) = None"
  using run
proof (cases rule: node_step.cases)
  case (receive p g g' pc)
  then show ?thesis
    using queue_frame_fields(1) [OF recv_frame [OF receive(4)]] none by (simp add: open_txn_def)
next
  case (work pc ros_ok now g pc' g' owner)
  then have "engine_sound api view g"
    using inv by (auto simp: thread_inv_def rows_inv_def)
  then show ?thesis
    using worker_txn work none by fastforce
next
  case (stop pc g)
  then show ?thesis
    using none by (simp add: stop_running_def frame_simps)
next
  case (join g)
  then show ?thesis
    using none by simp
next
  case (destroy pc g)
  then have "open_txn view g = None"
    using none by simp
  then have "open_txn view (close_engine api g) = None"
    by (intro close_engine_txn [OF ending] disjI1)
  with destroy show ?thesis
    by (simp add: finish_shutdown_def)
qed

lemma run_txn:
  assumes "ending_laws api view" and "node_run api recv s es s'"
    and "thread_inv s \<and> rows_inv api view rows s [] \<and> pipeline_inv s [] \<and> publish_inv s []"
    and "open_txn view (snd (snd s)) = None"
  shows "open_txn view (snd (snd s')) = None"
  using assms(2-)
proof (induction rule: node_run.induct)
  case none
  then show ?case by simp
next
  case (more es t fs u)
  then show ?case
    using step_txn [OF assms(1) more.hyps(2)] run_inv [OF more.hyps(1) more.prems(1)] by blast
qed

end

lemma gateway_new_txn:
  fixes api :: "('w, 'h, 's) store_api" and g :: "('w, 'h, 's) gateway"
  assumes laws: "sqlite_laws api view" "ending_laws api view" and none: "v_txn (view (ext e)) = None"
    and new: "gateway_new api decl e = Inr g"
  shows "open_txn view g = None"
proof -
  let ?e = "log_msg Info ''Initializing Secure Telemetry Gateway ROS 2 Node...'' [] e"
  obtain s where s: "init_subsystems api (declare_node_parameters decl) ?e = Inr s"
    using new by (auto simp: gateway_new_def split: sum.splits)
  then obtain path where path: "param_string (declare_node_parameters decl) ''db_path'' = Inr path"
    by (auto simp: init_subsystems_def split: sum.splits)
  let ?new = "storage_new path ?e :: ('w, 'h, 's) storage"
  have start: "open_txn view ?new = None" "\<not> init_done ?new"
    using none by (simp_all add: storage_new_def storage.defs env.defs open_txn_def)
  from init_internal_txn [OF laws start(1)]
  have "open_txn view (snd (init_engine api ?new)) = None"
    using start(2) by (simp add: init_engine_def ensure_initialized_def Let_def open_txn_def)
  then have "open_txn view s = None"
    using s path by (auto simp: init_subsystems_def split: prod.splits if_splits)
  then show ?thesis
    using new s by (auto simp: gateway_new_def open_txn_def storage.defs)
qed

section \<open>What a session leaves\<close>

definition frames_lost :: "node_event list \<Rightarrow> telemetry_data list" where
  \<comment> \<open>the frames a session has accepted and not given to the storage engine\<close>
  "frames_lost es = drop (length (handled es)) (accepted es)"

definition session_kept ::
  "('w, 'h, 's) store_api \<Rightarrow> ('w \<Rightarrow> ('h, 's) db_view) \<Rightarrow> 'w \<Rightarrow> node_event list \<Rightarrow> 'w \<Rightarrow> bool" where
  "session_kept api view w es w' \<longleftrightarrow>
     v_txn (view w') = None \<and>
     v_rows (view w') = v_rows (view w) @ map (telemetry_row (map_order api)) (stored_frames es) \<and>
     accepted es = map fst (handled es) @ frames_lost es \<and> length (frames_lost es) \<le> 1001"

lemma destroy_again_rows:
  assumes "sqlite_laws api view" "ending_laws api view" "open_txn view s = None"
  shows "stored_rows view (storage_destroy api s) = stored_rows view s"
    "open_txn view (storage_destroy api s) = None"
  using close_internal_rows [of api view s] close_engine_txn [OF assms(2) disjI1 [OF assms(3)]] assms(1)
  by (simp_all add: storage_destroy_def close_engine_def stored_rows_def sqlite_laws_def open_txn_def)

lemma node_session_kept:
  assumes laws: "sqlite_laws api view" "ending_laws api view" "exit_law process_exit view"
    and none: "v_txn (view w) = None"
    and run: "node_session api decl (callback_after_decrypt json) process_exit w es w'"
  shows "session_kept api view w es w'"
proof -
  have alive: "v_rows (view (ext g')) = v_rows (view w) @ map (telemetry_row (map_order api)) (stored_frames es) \<and>
      open_txn view g' = None \<and> accepted es = map fst (handled es) @ frames_lost es \<and>
      length (frames_lost es) \<le> 1001"
    if new: "gateway_new api decl \<lparr>ext = w, logs = []\<rparr> = Inr g"
      and hist: "node_run api (callback_after_decrypt json) (node_start g) es (owner, pc, g')" for g owner pc g'
  proof -
    have world: "v_txn (view (ext \<lparr>ext = w, logs = []\<rparr>)) = None"
      using none by simp
    note start = gateway_new_inv [OF laws(1) world new]
    have "open_txn view (snd (snd (node_start g))) = None"
      using gateway_new_txn [OF laws(1,2) world new] by (simp add: node_start_def)
    from accepting.run_txn [OF laws(2) hist start this] accepting.run_inv [OF hist start]
    have inv: "open_txn view g' = None" "rows_inv api view (v_rows (view w)) (owner, pc, g') es"
      "pipeline_inv (owner, pc, g') es"
      by simp_all
    have "length (in_flight pc) \<le> 1"
      by (cases pc) simp_all
    then show ?thesis
      using inv unfolding pipeline_inv_def rows_inv_def frames_lost_def stored_rows_def cq_size_def
      by (auto simp del: length_0_conv)
  qed
  show ?thesis
    using run
  proof (cases rule: node_session.cases)
    case (node_destroyed g pc g')
    then show ?thesis
      using alive [OF node_destroyed(2,3)] destroy_again_rows [OF laws(1,2), of g'] laws(3)
      by (simp add: session_kept_def exit_law_def stored_rows_def)
  next
    case (node_killed g owner pc g')
    then show ?thesis
      using alive [OF node_killed(2,3)] laws(3) by (simp add: session_kept_def exit_law_def)
  next
    case (constructor_throws x)
    then show ?thesis
      using laws(3) by (simp add: session_kept_def exit_law_def frames_lost_def)
  qed
qed

lemma node_sessions_kept:
  assumes laws: "sqlite_laws api view" "ending_laws api view" "exit_law process_exit view"
    and "v_txn (view w) = None"
    and "node_sessions api decl (callback_after_decrypt json) process_exit w ess w'"
  shows "v_txn (view w') = None \<and>
    v_rows (view w') =
      v_rows (view w) @ map (telemetry_row (map_order api)) (concat (map stored_frames ess)) \<and>
    (\<forall>es\<in>set ess. accepted es = map fst (handled es) @ frames_lost es \<and> length (frames_lost es) \<le> 1001)"
  using assms(5,4)
proof (induction rule: node_sessions.induct)
  case no_session
  then show ?case by simp
next
  case (restart ess w1 es w2)
  then show ?case
    using node_session_kept [OF laws _ restart.hyps(2)] by (auto simp: session_kept_def)
qed

section \<open>The property\<close>

text \<open>C10. The table over all restarts of the node, behind a decryption that delivers a plaintext: whatever each
  node has received, however its threads
  have interleaved, and whether it was destroyed, killed between any two steps or never constructed, the table is
  the old rows followed by the rows of exactly the frames whose insert succeeded, session after session,
  each in the order of arrival, and no transaction is left open. Every frame a session has accepted was handed
  to the storage engine, once and in the order of arrival, but for the youngest, at most 1001 of them, which
  the end of the session takes away. A frame whose insert the engine refused, all of them when the database
  could not be opened, is handed over and missing from the table as well.\<close>

theorem gateway_restarts_rows:
  assumes "sqlite_laws api view" and "ending_laws api view" and "exit_law process_exit view"
    and "v_txn (view w) = None"
    and "node_sessions api decl (callback_after_decrypt json) process_exit w ess w'"
  shows "v_txn (view w') = None \<and>
    v_rows (view w') =
      v_rows (view w) @
      map (telemetry_row (map_order api)) (concat (map (\<lambda>es. map fst (filter snd (handled es))) ess)) \<and>
    (\<forall>es\<in>set ess. \<exists>lost. accepted es = map fst (handled es) @ lost \<and> length lost \<le> 1001)"
  using node_sessions_kept [OF assms] unfolding stored_frames_def by blast

lemma demo_node_again:
  \<comment> \<open>on any world the node is constructed and accepts a packet\<close>
  assumes "v_txn (demo_view w) = None"
  shows "\<exists>w'. node_session demo_sqlite (\<lambda>name def. def) (callback_after_decrypt demo_api) demo_exit w
     [Ev_Accept demo_battery_frame] w'"
proof -
  let ?e = "\<lparr>ext = w, logs = []\<rparr>"
  have "\<exists>g. gateway_new demo_sqlite (\<lambda>name def. def) ?e = Inr (g :: (demo_db, unit, unit) gateway)"
    by (simp add: gateway_new_def init_subsystems_def param_string_def declare_node_parameters_def
        split: prod.splits)
  then obtain g :: "(demo_db, unit, unit) gateway"
    where new: "gateway_new demo_sqlite (\<lambda>name def. def) ?e = Inr g"
    by blast
  have "v_txn (demo_view (ext ?e)) = None"
    using assms by simp
  from gateway_new_inv [OF demo_sqlite_laws this new]
  have queue: "queue_items (telemetry_queue g) = []" "max_capacity (telemetry_queue g) = 1000"
    by (simp_all add: node_start_def pipeline_inv_def)
  let ?g = "g\<lparr>telemetry_queue := (telemetry_queue g)\<lparr>queue_items := [demo_battery_frame]\<rparr>\<rparr>"
  have "callback_after_decrypt demo_api (5, bytes_of_string ''battery-json'') g = Some ?g"
    by (simp add: callback_after_decrypt_def accept_plaintext_def demo_parse_battery cq_push_def queue)
  from node_run.more [OF node_run.none node_step.receive [of "callback_after_decrypt demo_api", OF this,
      of demo_sqlite W_Start]]
  have "node_run demo_sqlite (callback_after_decrypt demo_api) (node_start g) [Ev_Accept demo_battery_frame]
      (O_Alive, W_Start, ?g)"
    by (simp add: node_start_def new_frames_def queue)
  from node_session.node_killed [OF new this] show ?thesis
    by blast
qed

text \<open>A node that has handled a packet is killed; the next one is killed with the packet still queued.\<close>

theorem gateway_restarts_rows_witness:
  "\<exists>ok w'. node_sessions demo_sqlite (\<lambda>name def. def) (callback_after_decrypt demo_api) demo_exit (ext demo_world)
      [[Ev_Accept demo_battery_frame, Ev_Store demo_battery_frame ok, Ev_Publish demo_battery_frame 9],
       [Ev_Accept demo_battery_frame]] w' \<and>
    v_rows (demo_view w') = (if ok then [telemetry_row (\<lambda>ms. ms) demo_battery_frame] else [])"
proof -
  have world: "demo_world = \<lparr>ext = ext demo_world, logs = []\<rparr>"
    by (simp add: demo_world_def)
  obtain ok g where run: "node_run demo_sqlite (callback_after_decrypt demo_api) (node_start demo_gateway)
     [Ev_Accept demo_battery_frame, Ev_Store demo_battery_frame ok, Ev_Publish demo_battery_frame 9]
     (O_Alive, W_Test, g)"
    using demo_run_handled by blast
  let ?es = "[Ev_Accept demo_battery_frame, Ev_Store demo_battery_frame ok, Ev_Publish demo_battery_frame 9]"
  let ?sessions = "node_sessions demo_sqlite (\<lambda>name def. def) (callback_after_decrypt demo_api) demo_exit
      (ext demo_world)"
  have "node_session demo_sqlite (\<lambda>name def. def) (callback_after_decrypt demo_api) demo_exit (ext demo_world)
      ?es (demo_exit (ext g))"
    by (rule node_session.node_killed [OF _ run]) (simp add: demo_gateway_new flip: world)
  from node_sessions.restart [OF node_sessions.no_session this]
  have first: "?sessions [?es] (demo_exit (ext g))"
    by simp
  have "v_txn (demo_view (demo_exit (ext g))) = None"
    by (simp add: demo_exit_def demo_view_def)
  from demo_node_again [OF this] obtain w' where
    "node_session demo_sqlite (\<lambda>name def. def) (callback_after_decrypt demo_api) demo_exit (demo_exit (ext g))
       [Ev_Accept demo_battery_frame] w'"
    by blast
  from node_sessions.restart [OF first this]
  have run2: "?sessions [?es, [Ev_Accept demo_battery_frame]] w'"
    by simp
  from gateway_restarts_rows [OF demo_sqlite_laws demo_ending_laws demo_exit_law demo_txn run2] run2
  show ?thesis
    unfolding demo_world_rows
    by (intro exI [of _ ok] exI [of _ w']) (simp add: handled_def)
qed

end
