(* ===== verification/Mock_Publisher.thy ===== *)
theory Mock_Publisher
  imports Security_Engine
begin

text \<open>
  The mock publisher (mock_telemetry_publisher.cpp): the handler of its timer, which builds a sample,
  encrypts it and logs the size of the packet, and the program, which runs the handler at every tick. The
  results also hold the packet of each tick, which the handler keeps in its locals only.

  The JSON object under construction is the list of its assignments; \<open>dump\<close>, the text of an object, is
  the parameter that stands for the JSON library. The conversion of the counter and the arithmetic on
  doubles are IEEE double precision, rounded to nearest.
\<close>

datatype json_scalar = J_String string | J_Unsigned u64 | J_Integer int | J_Double double

record 'w mock_publisher = "'w env" +
  counter :: u64

definition MOCK_KEY :: bytes where
  "MOCK_KEY =
     [0x60, 0x3d, 0xeb, 0x10, 0x15, 0xca, 0x71, 0xbe,
      0x2b, 0x73, 0xae, 0xf0, 0x85, 0x7d, 0x77, 0x81,
      0x1f, 0x35, 0x2c, 0x07, 0x3b, 0x61, 0x08, 0xd7,
      0x2d, 0x98, 0x10, 0xa3, 0x09, 0x14, 0xdf, 0xf4]"

definition mock_new :: "'w env \<Rightarrow> 'w mock_publisher" where
  "mock_new e =
     log_msg Info ''Starting Mock Telemetry Publisher...'' [] (env.extend e (mock_publisher.fields 0))"

definition mock_payload :: "u64 \<Rightarrow> int \<Rightarrow> (string \<times> json_scalar) list" where
  \<comment> \<open>the constants are the doubles 98.5, 0.1, 42.3, 0.05, 0.75 and 0\<close>
  "mock_payload n clock_ns =
     [(''client_id'', J_String ''amr_robot_01''), (''sequence_id'', J_Unsigned n),
      (''timestamp_ns'', J_Integer clock_ns)] @
     (if n mod 3 = 0
      then [(''battery'',
             J_Double (dbl_sub 0x4058A00000000000 (dbl_mul (dbl_of_nat (unat n)) 0x3FB999999999999A)))]
      else if n mod 3 = 1
      then [(''temperature'',
             J_Double (dbl_add 0x4045266666666666 (dbl_mul (dbl_of_nat (unat n)) 0x3FA999999999999A)))]
      else [(''velocity_x'', J_Double 0x3FE8000000000000), (''velocity_y'', J_Double 0)])"

record mock_packet =
  packet_iv :: bytes
  packet_ciphertext :: bytes
  packet_tag :: bytes

definition publish_telemetry_sample ::
  "('w, 'c) evp_api \<Rightarrow> ((string \<times> json_scalar) list \<Rightarrow> string) \<Rightarrow> int \<Rightarrow> 'w mock_publisher \<Rightarrow>
   (mock_packet option \<times> 'w mock_publisher) option" where
  \<comment> \<open>with the locals of the handler that hold the packet, when the encryption succeeds; they die with it\<close>
  "publish_telemetry_sample evp dump clock_ns m =
     (let m = m\<lparr>counter := counter m + 1\<rparr>;
          payload = mock_payload (counter m) clock_ns;
          plaintext = bytes_of_string (dump payload)
      in case generate_secure_random_bytes evp 12 m of None \<Rightarrow> None | Some (iv, m) \<Rightarrow>
         case encrypt_aes_gcm evp plaintext MOCK_KEY iv [] [] m of None \<Rightarrow> None
         | Some (ok, ciphertext, tag, m) \<Rightarrow>
             Some (if ok
                   then (Some \<lparr>packet_iv = iv, packet_ciphertext = ciphertext, packet_tag = tag\<rparr>,
                         log_msg Info
                          ''Successfully generated encrypted telemetry packet #%lu (size: %zu bytes)''
                          [nat_digits (unat (counter m)), nat_digits (length ciphertext)] m)
                   else (None, log_msg Error ''Failed to encrypt mock payload!'' [] m)))"

fun mock_spin ::
  "('w, 'c) evp_api \<Rightarrow> ((string \<times> json_scalar) list \<Rightarrow> string) \<Rightarrow> int list \<Rightarrow> 'w mock_publisher \<Rightarrow>
   (mock_packet option list \<times> 'w mock_publisher) option" where
  \<comment> \<open>\<open>rclcpp::spin\<close>: the handler runs at each tick of the timer, until the shutdown; the list holds
      the clock at the ticks\<close>
  "mock_spin evp dump [] m = Some ([], m)"
| "mock_spin evp dump (clock_ns # clocks) m =
     (case publish_telemetry_sample evp dump clock_ns m of
        None \<Rightarrow> None
      | Some (p, m) \<Rightarrow> map_option (\<lambda>(ps, m). (p # ps, m)) (mock_spin evp dump clocks m))"

definition mock_main ::
  "('w, 'c) evp_api \<Rightarrow> ((string \<times> json_scalar) list \<Rightarrow> string) \<Rightarrow> int list \<Rightarrow> 'w env \<Rightarrow>
   (int \<times> mock_packet option list \<times> 'w mock_publisher) option" where
  "mock_main evp dump clocks e = map_option (Pair 0) (mock_spin evp dump clocks (mock_new e))"

lemma length_MOCK_KEY: "length MOCK_KEY = 32"
  by (simp add: MOCK_KEY_def)

end
