(* ===== verification/Float_Rounding.thy ===== *)
theory Float_Rounding
  imports Floating_Point
begin

text \<open>
  The conversion of a double to a float is correctly rounded: no float is nearer to the double than the
  result. Values are compared exactly, a float in units of \<open>2 ^ -149\<close> and a double in units of
  \<open>2 ^ -1074\<close>, which are \<open>2 ^ 925\<close> times finer.
\<close>

lemma flt_round_nearest:
  assumes "k \<le> 255 * 2 ^ 23"
  shows "\<bar>int (mag_units (flt_round m s)) * 2 ^ 925 - int (m * 2 ^ s)\<bar>
         \<le> \<bar>int (mag_units k) * 2 ^ 925 - int (m * 2 ^ s)\<bar>"
  unfolding mag_units_def flt_round_def by (rule grid_round_bounded_nearest [OF assms])

section \<open>The signed values\<close>

lemma double_to_float_negative:
  assumes "dbl_is_finite d"
  shows "2 ^ 31 \<le> unat (double_to_float d) \<longleftrightarrow> dbl_negative d"
proof -
  define n where "n = flt_round (dbl_mantissa d) (dbl_scale d)"
  define b :: nat where "b = (if dbl_negative d then 2 ^ 31 else 0)"
  have n: "n < 2 ^ 31"
    using flt_round_bound [of "dbl_mantissa d" "dbl_scale d"] by (simp add: n_def)
  then have "b + n < 2 ^ 32"
    by (simp add: b_def)
  then have "unat (word_of_nat (b + n) :: 32 word) = b + n"
    by (subst unat_of_nat) (simp add: take_bit_nat_eq_self)
  moreover have "double_to_float d = word_of_nat (b + n)"
    using assms by (simp only: double_to_float_def b_def n_def if_True)
  ultimately show ?thesis
    using n by (simp add: b_def)
qed

text \<open>A double of at least the least positive float keeps its sign and does not vanish.\<close>

lemma double_to_float_negative_value:
  assumes "dbl_is_finite d" and "dbl_negative d \<Longrightarrow> 2 ^ 925 \<le> dbl_units d"
  shows "flt_units (double_to_float d) < 0 \<longleftrightarrow> dbl_negative d"
proof (cases "dbl_negative d")
  case True
  then have "grid_units 23 1 * 2 ^ 925 \<le> dbl_mantissa d * 2 ^ dbl_scale d"
    using assms(2) by (simp add: dbl_units_def grid_units_def)
  from grid_round_above [OF _ this, of "255 * 2 ^ 23"] have "1 \<le> flt_magnitude (double_to_float d)"
    unfolding flt_magnitude_double_to_float [OF assms(1)] flt_round_def by simp
  then show ?thesis
    using True unfolding flt_units_def double_to_float_negative [OF assms(1)] by (simp add: mag_units_pos)
next
  case False
  then show ?thesis
    unfolding flt_units_def double_to_float_negative [OF assms(1)] by simp
qed

lemma double_to_float_not_nan:
  "dbl_is_finite d \<Longrightarrow> \<not> flt_is_nan (double_to_float d)"
  using flt_round_bound [of "dbl_mantissa d" "dbl_scale d"]
  by (simp add: flt_is_nan_def flt_magnitude_double_to_float not_less)

lemma signed_nearest:
  fixes a c v :: int
  assumes "\<bar>a - v\<bar> \<le> \<bar>c - v\<bar>" "\<bar>a - v\<bar> \<le> \<bar>0 - v\<bar>" "0 \<le> v" "0 \<le> c" "0 \<le> a"
  shows "\<bar>(if neg then - a else a) - (if neg then - v else v)\<bar>
         \<le> \<bar>(if other then - c else c) - (if neg then - v else v)\<bar>"
  using assms by (cases neg; cases other; simp; presburger)

text \<open>No float is nearer to a finite double than the float it is converted to.\<close>

lemma double_to_float_nearest:
  assumes "dbl_is_finite d" and "\<not> flt_is_nan f"
  shows "\<bar>flt_units (double_to_float d) * 2 ^ 925 - dbl_signed_units d\<bar>
         \<le> \<bar>flt_units f * 2 ^ 925 - dbl_signed_units d\<bar>"
proof -
  define U v :: int where "U = 2 ^ 925" and "v = int (dbl_units d)"
  define r where "r = flt_round (dbl_mantissa d) (dbl_scale d)"
  have near: "\<bar>int (mag_units r) * U - v\<bar> \<le> \<bar>int (mag_units k) * U - v\<bar>" if "k \<le> 255 * 2 ^ 23" for k
    unfolding r_def U_def v_def dbl_units_def by (rule flt_round_nearest [OF that])
  have "flt_magnitude f \<le> 255 * 2 ^ 23"
    using assms(2) by (simp add: flt_is_nan_def)
  from near [OF this] near [of 0]
  have "\<bar>(if dbl_negative d then - (int (mag_units r) * U) else int (mag_units r) * U) -
          (if dbl_negative d then - v else v)\<bar>
      \<le> \<bar>(if 2 ^ 31 \<le> unat f then - (int (mag_units (flt_magnitude f)) * U)
           else int (mag_units (flt_magnitude f)) * U) - (if dbl_negative d then - v else v)\<bar>"
    by (intro signed_nearest) (simp_all add: U_def v_def)
  moreover have "flt_units (double_to_float d) * U =
      (if dbl_negative d then - (int (mag_units r) * U) else int (mag_units r) * U)"
    unfolding flt_units_def double_to_float_negative [OF assms(1)]
      flt_magnitude_double_to_float [OF assms(1)] r_def [symmetric] by simp
  moreover have "flt_units f * U = (if 2 ^ 31 \<le> unat f then - (int (mag_units (flt_magnitude f)) * U)
           else int (mag_units (flt_magnitude f)) * U)"
    by (simp add: flt_units_def)
  moreover have "dbl_signed_units d = (if dbl_negative d then - v else v)"
    by (simp add: dbl_signed_units_def v_def)
  ultimately show ?thesis
    by (simp only: U_def)
qed

section \<open>Double arithmetic\<close>

definition dbl_magnitude :: "double \<Rightarrow> nat" where
  "dbl_magnitude d = unat d mod 2 ^ 63"

lemma dbl_magnitude_fields: "dbl_magnitude d = 2 ^ 52 * dbl_exponent d + dbl_fraction d"
proof -
  have "unat d mod (2 ^ 52 * 2048) = 2 ^ 52 * (unat d div 2 ^ 52 mod 2048) + unat d mod 2 ^ 52"
    by (rule mod_mult2_eq)
  then show ?thesis
    by (simp add: dbl_magnitude_def dbl_exponent_def dbl_fraction_def)
qed

lemma dbl_units_magnitude: "dbl_units d = grid_units 52 (dbl_magnitude d)"
proof -
  have "dbl_fraction d < 2 ^ 52"
    by (simp add: dbl_fraction_def)
  from grid_units_parts [OF this, of "dbl_exponent d"] show ?thesis
    by (simp add: dbl_magnitude_fields dbl_units_def dbl_mantissa_def dbl_scale_def)
qed

lemma dbl_finite_magnitude: "dbl_is_finite d \<longleftrightarrow> dbl_magnitude d < 2047 * 2 ^ 52"
proof -
  have "dbl_fraction d < 2 ^ 52"
    by (simp add: dbl_fraction_def)
  then show ?thesis
    unfolding dbl_is_finite_def dbl_magnitude_fields by (intro iffI; simp)
qed

lemma dbl_nan_magnitude: "\<not> dbl_is_nan d \<longleftrightarrow> dbl_magnitude d \<le> 2047 * 2 ^ 52"
proof -
  have f: "dbl_fraction d < 2 ^ 52" and e: "dbl_exponent d \<le> 2047"
    by (simp_all add: dbl_fraction_def dbl_exponent_def)
  show ?thesis
  proof (cases "dbl_exponent d = 2047")
    case True
    then show ?thesis
      by (simp add: dbl_is_nan_def dbl_magnitude_fields)
  next
    case False
    then have "2 ^ 52 * dbl_exponent d + dbl_fraction d \<le> 2047 * 2 ^ 52"
      using e f by simp
    then show ?thesis
      using False by (simp add: dbl_is_nan_def dbl_magnitude_fields)
  qed
qed

lemma dbl_make_fields:
  assumes "bits < 2 ^ 63"
  shows "dbl_magnitude (dbl_make neg bits) = bits" "dbl_negative (dbl_make neg bits) = neg"
proof -
  define b :: nat where "b = (if neg then 2 ^ 63 else 0)"
  have "b + bits < 2 ^ 64"
    using assms by (simp add: b_def)
  then have u: "unat (dbl_make neg bits) = b + bits"
    unfolding dbl_make_def b_def [symmetric] by (subst unat_of_nat) (simp add: take_bit_nat_eq_self)
  show "dbl_magnitude (dbl_make neg bits) = bits" "dbl_negative (dbl_make neg bits) = neg"
    using assms by (simp_all add: dbl_magnitude_def dbl_negative_def u b_def)
qed

lemma dbl_round_bound: "dbl_round n p \<le> 2047 * 2 ^ 52"
  by (simp add: dbl_round_def)

lemma dbl_make_round:
  "dbl_magnitude (dbl_make neg (dbl_round n p)) = dbl_round n p"
  "dbl_negative (dbl_make neg (dbl_round n p)) = neg"
proof -
  have "dbl_round n p < 2 ^ 63"
    by (rule le_less_trans [OF dbl_round_bound]) simp
  then show "dbl_magnitude (dbl_make neg (dbl_round n p)) = dbl_round n p"
    "dbl_negative (dbl_make neg (dbl_round n p)) = neg"
    using dbl_make_fields by simp_all
qed

text \<open>No double is nearer to an exact result than its rounding.\<close>

lemma dbl_make_round_nearest:
  assumes "\<not> dbl_is_nan f"
  shows "\<bar>dbl_signed_units (dbl_make neg (dbl_round n p)) * 2 ^ p - (if neg then - int n else int n)\<bar>
         \<le> \<bar>dbl_signed_units f * 2 ^ p - (if neg then - int n else int n)\<bar>"
proof -
  define a where "a = int (grid_units 52 (dbl_round n p)) * 2 ^ p"
  define c where "c = int (dbl_units f) * 2 ^ p"
  have near: "\<bar>a - int n\<bar> \<le> \<bar>int (grid_units 52 k) * 2 ^ p - int n\<bar>" if "k \<le> 2047 * 2 ^ 52" for k
    unfolding a_def dbl_round_def by (rule grid_round_bounded_nearest [OF that])
  have "\<bar>a - int n\<bar> \<le> \<bar>c - int n\<bar>"
    using near [of "dbl_magnitude f"] assms by (simp add: c_def dbl_units_magnitude dbl_nan_magnitude)
  moreover have "\<bar>a - int n\<bar> \<le> \<bar>0 - int n\<bar>"
    using near [of 0] by simp
  ultimately have "\<bar>(if neg then - a else a) - (if neg then - int n else int n)\<bar>
      \<le> \<bar>(if dbl_negative f then - c else c) - (if neg then - int n else int n)\<bar>"
    by (intro signed_nearest) (simp_all add: a_def c_def)
  moreover have "dbl_signed_units (dbl_make neg (dbl_round n p)) * 2 ^ p = (if neg then - a else a)"
    by (simp add: dbl_signed_units_def dbl_units_magnitude dbl_make_round a_def)
  moreover have "dbl_signed_units f * 2 ^ p = (if dbl_negative f then - c else c)"
    by (simp add: dbl_signed_units_def c_def)
  ultimately show ?thesis
    by (simp only:)
qed

lemma dbl_mul_nearest:
  assumes "\<not> dbl_is_nan f"
  shows "\<bar>dbl_signed_units (dbl_mul a b) * 2 ^ 1074 - dbl_signed_units a * dbl_signed_units b\<bar>
         \<le> \<bar>dbl_signed_units f * 2 ^ 1074 - dbl_signed_units a * dbl_signed_units b\<bar>"
proof -
  have v: "dbl_signed_units a * dbl_signed_units b =
      (if dbl_negative a \<noteq> dbl_negative b then - int (dbl_units a * dbl_units b)
       else int (dbl_units a * dbl_units b))"
    by (simp add: dbl_signed_units_def)
  show ?thesis
    unfolding v dbl_mul_def by (rule dbl_make_round_nearest [OF assms])
qed

lemma dbl_add_nearest:
  assumes "\<not> dbl_is_nan f"
  shows "\<bar>dbl_signed_units (dbl_add a b) - (dbl_signed_units a + dbl_signed_units b)\<bar>
         \<le> \<bar>dbl_signed_units f - (dbl_signed_units a + dbl_signed_units b)\<bar>"
proof -
  define v where "v = dbl_signed_units a + dbl_signed_units b"
  define neg where "neg \<longleftrightarrow> v < 0 \<or> v = 0 \<and> dbl_negative a \<and> dbl_negative b"
  have v: "(if neg then - int (nat \<bar>v\<bar>) else int (nat \<bar>v\<bar>)) = v"
    by (auto simp: neg_def)
  show ?thesis
    using dbl_make_round_nearest [OF assms, of neg "nat \<bar>v\<bar>" 0]
    unfolding v by (simp add: dbl_add_def Let_def neg_def v_def)
qed

lemma dbl_round_above: "k \<le> 2047 * 2 ^ 52 \<Longrightarrow> grid_units 52 k * 2 ^ p \<le> n \<Longrightarrow> k \<le> dbl_round n p"
  unfolding dbl_round_def by (rule grid_round_above)

lemma dbl_round_below: "k \<le> 2047 * 2 ^ 52 \<Longrightarrow> n \<le> grid_units 52 k * 2 ^ p \<Longrightarrow> dbl_round n p \<le> k"
  unfolding dbl_round_def by (rule grid_round_below)

end
