(* ===== verification/Mock_Readings.thy ===== *)
theory Mock_Readings
  imports Mock_Publisher Float_Rounding
begin

text \<open>
  The readings of the samples of the mock publisher, which it computes from its counter in double
  arithmetic: they are finite for every value of the 64-bit counter, and the battery falls below zero. The
  results are bounded by the numbers of the grid that the exact values do not cross, so nothing but these
  bounds is evaluated.
\<close>

section \<open>Bounds of a result\<close>

lemma dbl_of_nat_fields:
  "dbl_magnitude (dbl_of_nat n) = dbl_round (n * 2 ^ 1074) 0" "\<not> dbl_negative (dbl_of_nat n)"
  by (simp_all add: dbl_of_nat_def dbl_make_round)

lemma dbl_mul_fields:
  "dbl_magnitude (dbl_mul a b) = dbl_round (dbl_units a * dbl_units b) 1074"
  "dbl_negative (dbl_mul a b) \<longleftrightarrow> dbl_negative a \<noteq> dbl_negative b"
  by (simp_all add: dbl_mul_def dbl_make_round)

lemma dbl_add_fields:
  "dbl_magnitude (dbl_add a b) = dbl_round (nat \<bar>dbl_signed_units a + dbl_signed_units b\<bar>) 0"
  "dbl_negative (dbl_add a b) \<longleftrightarrow>
     dbl_signed_units a + dbl_signed_units b < 0 \<or>
     dbl_signed_units a + dbl_signed_units b = 0 \<and> dbl_negative a \<and> dbl_negative b"
  by (simp_all add: dbl_add_def Let_def dbl_make_round)

lemma dbl_flip_sign:
  assumes "\<not> dbl_negative d"
  shows "dbl_signed_units (xor d (push_bit 63 1)) = - dbl_signed_units d"
proof -
  have small: "unat d < 2 ^ 63"
    using assms by (simp add: dbl_negative_def)
  then have "\<not> bit (unat d) 63"
    by (simp add: bit_iff_odd)
  then have "\<not> bit d 63"
    by (simp add: bit_unsigned_iff)
  then have "and d (push_bit 63 1) = 0"
    by (intro bit_word_eqI) (unfold bit_and_iff push_bit_of_1 bit_exp_iff, auto)
  then have "xor d (push_bit 63 1) = d + push_bit 63 1"
    by (simp add: disjunctive_xor_eq_or disjunctive_add_eq_or)
  then have "unat (xor d (push_bit 63 1)) = unat d + 2 ^ 63"
    using small by (simp add: unat_word_ariths push_bit_eq_mult)
  then show ?thesis
    using small assms
    by (simp add: dbl_signed_units_def dbl_units_magnitude dbl_magnitude_def dbl_negative_def)
qed

section \<open>The counter as a double\<close>

lemma dbl_of_nat_bounds:
  "n \<le> 984 \<Longrightarrow> dbl_units (dbl_of_nat n) \<le> grid_units 52 0x408EC00000000000"
  "986 \<le> n \<Longrightarrow> grid_units 52 0x408ED00000000000 \<le> dbl_units (dbl_of_nat n)"
  "n \<le> 2 ^ 64 \<Longrightarrow> dbl_units (dbl_of_nat n) \<le> grid_units 52 0x43F0000000000000"
proof -
  have points: "grid_units 52 0x408EC00000000000 = 984 * 2 ^ 1074"
    "grid_units 52 0x408ED00000000000 = 986 * 2 ^ 1074" "grid_units 52 0x43F0000000000000 = 2 ^ 64 * 2 ^ 1074"
    by (simp_all add: grid_units_def)
  have below: "dbl_units (dbl_of_nat n) \<le> grid_units 52 k"
    if "k \<le> 2047 * 2 ^ 52" "grid_units 52 k = m * 2 ^ 1074" "n \<le> m" for k m
  proof -
    have "n * 2 ^ 1074 \<le> grid_units 52 k * 2 ^ 0"
      unfolding that(2) using mult_right_mono [OF that(3), of "2 ^ 1074"] by (simp only: power_0 mult_1_right)
    from dbl_round_below [OF that(1) this] show ?thesis
      by (simp add: dbl_units_magnitude dbl_of_nat_fields)
  qed
  show "n \<le> 984 \<Longrightarrow> dbl_units (dbl_of_nat n) \<le> grid_units 52 0x408EC00000000000"
    by (rule below [OF _ points(1)]) simp_all
  show "n \<le> 2 ^ 64 \<Longrightarrow> dbl_units (dbl_of_nat n) \<le> grid_units 52 0x43F0000000000000"
    by (rule below [OF _ points(3)]) simp_all
  assume "986 \<le> n"
  then have "grid_units 52 0x408ED00000000000 * 2 ^ 0 \<le> n * 2 ^ 1074"
    unfolding points(2) using mult_right_mono [of 986 n "2 ^ 1074"] by (simp only: power_0 mult_1_right)
  from dbl_round_above [OF _ this] show "grid_units 52 0x408ED00000000000 \<le> dbl_units (dbl_of_nat n)"
    by (simp add: dbl_units_magnitude dbl_of_nat_fields)
qed

lemma dbl_mul_below:
  assumes "dbl_units a \<le> u" "dbl_units b = w" "u * w \<le> grid_units 52 k * 2 ^ 1074" "k \<le> 2047 * 2 ^ 52"
  shows "dbl_magnitude (dbl_mul a b) \<le> k"
proof -
  have "dbl_units a * w \<le> u * w"
    using assms(1) by (rule mult_right_mono) simp
  then have "dbl_units a * w \<le> grid_units 52 k * 2 ^ 1074"
    using assms(3) by (rule le_trans)
  from dbl_round_below [OF assms(4) this] show ?thesis
    by (simp only: dbl_mul_fields assms(2))
qed

lemma dbl_mul_above:
  assumes "u \<le> dbl_units a" "dbl_units b = w" "grid_units 52 k * 2 ^ 1074 \<le> u * w" "k \<le> 2047 * 2 ^ 52"
  shows "k \<le> dbl_magnitude (dbl_mul a b)"
proof -
  have "u * w \<le> dbl_units a * w"
    using assms(1) by (rule mult_right_mono) simp
  with assms(3) have "grid_units 52 k * 2 ^ 1074 \<le> dbl_units a * w"
    by (rule le_trans)
  from dbl_round_above [OF assms(4) this] show ?thesis
    by (simp only: dbl_mul_fields assms(2))
qed

lemma reading_constants:
  "dbl_units 0x3FB999999999999A = 0x1999999999999A * 2 ^ 1018"
  "dbl_units 0x3FA999999999999A = 0x1999999999999A * 2 ^ 1017"
  "dbl_magnitude 0x4058A00000000000 = 0x4058A00000000000" "\<not> dbl_negative 0x4058A00000000000"
  "dbl_magnitude 0x4045266666666666 = 0x4045266666666666" "\<not> dbl_negative 0x4045266666666666"
  "\<not> dbl_negative 0x3FB999999999999A" "\<not> dbl_negative 0x3FA999999999999A"
  by (simp_all add: dbl_units_def dbl_mantissa_def dbl_scale_def dbl_exponent_def dbl_fraction_def
      dbl_magnitude_def dbl_negative_def)

section \<open>The readings\<close>

text \<open>The part of the charge that is gone: a tenth of the counter.\<close>

lemma drained_charge:
  fixes n :: nat
  defines "b \<equiv> dbl_mul (dbl_of_nat n) 0x3FB999999999999A"
  shows "n \<le> 984 \<Longrightarrow> dbl_magnitude b \<le> 0x4058A00000000000"
    and "986 \<le> n \<Longrightarrow> 0x4058A00000000000 < dbl_magnitude b"
    and "n \<le> 2 ^ 64 \<Longrightarrow> dbl_magnitude b \<le> 0x43C0000000000000"
    and "\<not> dbl_negative b"
proof -
  show "dbl_magnitude b \<le> 0x4058A00000000000" if "n \<le> 984"
    unfolding b_def by (rule dbl_mul_below [OF dbl_of_nat_bounds(1) [OF that] reading_constants(1)])
      (simp_all add: grid_units_def)
  show "dbl_magnitude b \<le> 0x43C0000000000000" if "n \<le> 2 ^ 64"
    unfolding b_def by (rule dbl_mul_below [OF dbl_of_nat_bounds(3) [OF that] reading_constants(1)])
      (simp_all add: grid_units_def)
  have "0x4058A00000000001 \<le> dbl_magnitude b" if "986 \<le> n"
    unfolding b_def by (rule dbl_mul_above [OF dbl_of_nat_bounds(2) [OF that] reading_constants(1)])
      (simp_all add: grid_units_def)
  then show "986 \<le> n \<Longrightarrow> 0x4058A00000000000 < dbl_magnitude b"
    by simp
  show "\<not> dbl_negative b"
    by (simp add: b_def dbl_mul_fields dbl_of_nat_fields reading_constants)
qed

lemma dbl_add_finite:
  assumes "dbl_units a \<le> grid_units 52 0x43C0000000000000" "dbl_units b \<le> grid_units 52 0x43C0000000000000"
  shows "dbl_is_finite (dbl_add a b)"
proof -
  have "2 * grid_units 52 0x43C0000000000000 = grid_units 52 0x43D0000000000000"
    by (simp add: grid_units_def)
  then have "dbl_units a + dbl_units b \<le> grid_units 52 0x43D0000000000000"
    using assms by linarith
  moreover have "nat \<bar>dbl_signed_units a + dbl_signed_units b\<bar> \<le> dbl_units a + dbl_units b"
    by (cases "dbl_negative a"; cases "dbl_negative b") (simp_all add: dbl_signed_units_def nat_le_iff abs_le_iff)
  ultimately have "nat \<bar>dbl_signed_units a + dbl_signed_units b\<bar> \<le> grid_units 52 0x43D0000000000000 * 2 ^ 0"
    by (simp only: power_0 mult_1_right)
  from dbl_round_below [OF _ this] show ?thesis
    by (simp add: dbl_finite_magnitude dbl_add_fields)
qed

lemma reading_signed_units:
  "\<not> dbl_negative d \<Longrightarrow> dbl_signed_units d = int (grid_units 52 (dbl_magnitude d))"
  by (simp add: dbl_signed_units_def dbl_units_magnitude)

lemma battery_reading:
  fixes n :: nat
  defines "v \<equiv> dbl_sub 0x4058A00000000000 (dbl_mul (dbl_of_nat n) 0x3FB999999999999A)"
  assumes "n \<le> 2 ^ 64" "n \<noteq> 985"
  shows "dbl_is_finite v \<and> (dbl_negative v \<longleftrightarrow> 985 < n)"
proof -
  define b where "b = dbl_mul (dbl_of_nat n) 0x3FB999999999999A"
  note charge = drained_charge [of n, folded b_def]
  have v: "v = dbl_add 0x4058A00000000000 (xor b (push_bit 63 1))"
    by (simp add: v_def b_def dbl_sub_def)
  have units: "dbl_signed_units (xor b (push_bit 63 1)) = - int (grid_units 52 (dbl_magnitude b))"
    "dbl_signed_units 0x4058A00000000000 = int (grid_units 52 0x4058A00000000000)"
    using dbl_flip_sign [OF charge(4)] reading_signed_units [OF charge(4)]
      reading_signed_units [OF reading_constants(4)] by (simp_all only: reading_constants(3))
  then have "dbl_units (xor b (push_bit 63 1)) = grid_units 52 (dbl_magnitude b)"
    by (simp add: dbl_signed_units_def split: if_splits)
  then have "dbl_is_finite v"
    unfolding v using charge(3) assms(2)
    by (intro dbl_add_finite) (simp_all add: dbl_units_magnitude reading_constants)
  moreover have "dbl_negative v \<longleftrightarrow> 0x4058A00000000000 < dbl_magnitude b"
    unfolding v dbl_add_fields units by (simp add: reading_constants)
  moreover have "0x4058A00000000000 < dbl_magnitude b \<longleftrightarrow> 985 < n"
  proof (cases "985 < n")
    case True
    then show ?thesis using charge(2) by simp
  next
    case False
    then show ?thesis using charge(1) assms(3) by simp
  qed
  ultimately show ?thesis by simp
qed

lemma battery_reading_size:
  fixes n :: nat
  defines "v \<equiv> dbl_sub 0x4058A00000000000 (dbl_mul (dbl_of_nat n) 0x3FB999999999999A)"
  assumes "985 < n"
  shows "2 ^ 925 \<le> dbl_units v"
proof -
  define b where "b = dbl_mul (dbl_of_nat n) 0x3FB999999999999A"
  note charge = drained_charge [of n, folded b_def]
  have "0x4058A00000000001 \<le> dbl_magnitude b"
    using charge(2) assms(2) by simp
  then have "grid_units 52 0x4058A00000000001 \<le> grid_units 52 (dbl_magnitude b)"
    by (simp only: grid_units_le)
  moreover have "grid_units 52 0x4058A00000000000 + 2 ^ 1028 = grid_units 52 0x4058A00000000001"
    by (simp add: grid_units_def)
  ultimately have gap: "grid_units 52 0x4058A00000000000 + 2 ^ 1028 \<le> grid_units 52 (dbl_magnitude b)"
    by linarith
  then have le: "grid_units 52 0x4058A00000000000 \<le> grid_units 52 (dbl_magnitude b)"
    by linarith
  have "dbl_signed_units 0x4058A00000000000 + dbl_signed_units (xor b (push_bit 63 1)) =
      int (grid_units 52 0x4058A00000000000) - int (grid_units 52 (dbl_magnitude b))"
    using dbl_flip_sign [OF charge(4)] reading_signed_units [OF charge(4)]
      reading_signed_units [OF reading_constants(4)] by (simp only: reading_constants(3))
  then have "nat \<bar>dbl_signed_units 0x4058A00000000000 + dbl_signed_units (xor b (push_bit 63 1))\<bar> =
      grid_units 52 (dbl_magnitude b) - grid_units 52 0x4058A00000000000"
    using le by (simp only: nat_abs_int_diff if_True)
  moreover have "grid_units 52 0x3D10000000000000 * 2 ^ 0 = 2 ^ 1028"
    by (simp add: grid_units_def)
  ultimately have "grid_units 52 0x3D10000000000000 * 2 ^ 0 \<le>
      nat \<bar>dbl_signed_units 0x4058A00000000000 + dbl_signed_units (xor b (push_bit 63 1))\<bar>"
    using gap by linarith
  from dbl_round_above [OF _ this] have "0x3D10000000000000 \<le> dbl_magnitude v"
    by (simp add: v_def dbl_sub_def dbl_add_fields b_def)
  then have "grid_units 52 0x3D10000000000000 \<le> dbl_units v"
    by (simp only: dbl_units_magnitude grid_units_le)
  moreover have "2 ^ 925 \<le> grid_units 52 0x3D10000000000000"
    by (simp add: grid_units_def)
  ultimately show ?thesis by linarith
qed

lemma temperature_reading:
  fixes n :: nat
  defines "v \<equiv> dbl_add 0x4045266666666666 (dbl_mul (dbl_of_nat n) 0x3FA999999999999A)"
  assumes "n \<le> 2 ^ 64"
  shows "dbl_is_finite v \<and> \<not> dbl_negative v"
proof -
  define b where "b = dbl_mul (dbl_of_nat n) 0x3FA999999999999A"
  have b: "dbl_magnitude b \<le> 0x43C0000000000000"
    unfolding b_def by (rule dbl_mul_below [OF dbl_of_nat_bounds(3) [OF assms(2)] reading_constants(2)])
      (simp_all add: grid_units_def)
  have sign: "\<not> dbl_negative b"
    by (simp add: b_def dbl_mul_fields dbl_of_nat_fields reading_constants)
  have "dbl_is_finite (dbl_add 0x4045266666666666 b)"
    using b by (intro dbl_add_finite) (simp_all add: dbl_units_magnitude reading_constants)
  moreover have "\<not> dbl_negative (dbl_add 0x4045266666666666 b)"
    unfolding dbl_add_fields reading_signed_units [OF sign] reading_signed_units [OF reading_constants(6)]
    by (simp add: reading_constants)
  ultimately show ?thesis
    by (simp add: v_def b_def)
qed

lemma mock_readings:
  assumes "(k, J_Double f) \<in> set (mock_payload n t)"
  shows "dbl_is_finite f \<and> (dbl_negative f \<longleftrightarrow> k = ''battery'' \<and> 984 < unat n)"
proof -
  have n: "unat n \<le> 2 ^ 64"
    using unsigned_less [of n, where 'a = nat] by simp
  consider "n mod 3 = 0" | "n mod 3 = 1" | "n mod 3 \<noteq> 0" "n mod 3 \<noteq> 1"
    by blast
  then show ?thesis
  proof cases
    case 1
    then have "unat n mod 3 = 0"
      by (simp add: unat_mod flip: unat_eq_0)
    then have other: "unat n \<noteq> 985" "985 < unat n \<longleftrightarrow> 984 < unat n"
      by presburger+
    have "k = ''battery''" "f = dbl_sub 0x4058A00000000000 (dbl_mul (dbl_of_nat (unat n)) 0x3FB999999999999A)"
      using assms 1 by (simp_all add: mock_payload_def)
    then show ?thesis
      using battery_reading [OF n other(1)] other(2) by simp
  next
    case 2
    then have "k = ''temperature''"
      "f = dbl_add 0x4045266666666666 (dbl_mul (dbl_of_nat (unat n)) 0x3FA999999999999A)"
      using assms by (simp_all add: mock_payload_def)
    then show ?thesis
      using temperature_reading [OF n] by simp
  next
    case 3
    then have "k \<in> {''velocity_x'', ''velocity_y''}" "f \<in> {0x3FE8000000000000, 0}"
      using assms by (auto simp: mock_payload_def)
    then show ?thesis
      by (auto simp: dbl_is_finite_def dbl_exponent_def dbl_negative_def)
  qed
qed

lemma mock_battery_size:
  assumes "(''battery'', J_Double v) \<in> set (mock_payload n t)" "984 < unat n"
  shows "2 ^ 925 \<le> dbl_units v"
proof -
  have n: "n mod 3 = 0" and v: "v = dbl_sub 0x4058A00000000000 (dbl_mul (dbl_of_nat (unat n)) 0x3FB999999999999A)"
    using assms(1) by (auto simp: mock_payload_def split: if_splits)
  from n have "unat n mod 3 = 0"
    by (simp add: unat_mod flip: unat_eq_0)
  with assms(2) have "985 < unat n"
    by presburger
  from battery_reading_size [OF this] show ?thesis
    by (simp only: v)
qed

end
