(* ===== verification/Security_Properties.thy ===== *)
theory Security_Properties
  imports Security_Engine
begin

text \<open>
  The properties of the security engine, and a concrete cipher that satisfies the documented laws:
  it shifts every byte by a sum of the key and the nonce and uses a checksum as its tag. It is no
  cipher to use; it shows that the laws can hold together, and the witnesses run the operations on it.
\<close>

section \<open>A cipher that satisfies the laws\<close>

record demo_ctx =
  ctx_key :: byte
  ctx_data :: bytes
  ctx_tag :: bytes

definition demo_shift :: "bytes \<Rightarrow> bytes \<Rightarrow> byte" where
  "demo_shift key iv = sum_list key + sum_list iv"

definition demo_tag :: "byte \<Rightarrow> bytes \<Rightarrow> bytes" where
  "demo_tag k ct = replicate 16 (k + sum_list ct)"

definition demo_seal :: "bytes \<Rightarrow> bytes \<Rightarrow> bytes \<Rightarrow> bytes \<times> bytes" where
  "demo_seal key iv pt =
     (let k = demo_shift key iv; ct = map (\<lambda>b. b + k) pt in (ct, demo_tag k ct))"

definition demo_unseal :: "bytes \<Rightarrow> bytes \<Rightarrow> bytes \<Rightarrow> bytes" where
  "demo_unseal key iv ct = map (\<lambda>b. b - demo_shift key iv) ct"

definition demo_evp :: "bool \<Rightarrow> (nat, demo_ctx) evp_api" where
  \<comment> \<open>the world counts the live contexts; the argument says whether the random generator works\<close>
  "demo_evp rng =
     \<lparr>evp_ctx_new = (\<lambda>w. (Some \<lparr>ctx_key = 0, ctx_data = [], ctx_tag = []\<rparr>, w + 1)),
      evp_ctx_free = (\<lambda>c w. w - 1),
      evp_enc_init_cipher = id,
      evp_dec_init_cipher = id,
      evp_set_ivlen = (\<lambda>n. id),
      evp_enc_init_key = (\<lambda>key iv c. c\<lparr>ctx_key := demo_shift key iv\<rparr>),
      evp_dec_init_key = (\<lambda>key iv c. c\<lparr>ctx_key := demo_shift key iv\<rparr>),
      evp_enc_update = (\<lambda>len xs n c.
        let ct = map (\<lambda>b. b + ctx_key c) xs in (ct, n, c\<lparr>ctx_data := ct\<rparr>)),
      evp_dec_update = (\<lambda>len xs n c. (map (\<lambda>b. b - ctx_key c) xs, n, c\<lparr>ctx_data := xs\<rparr>)),
      evp_enc_final = (\<lambda>len c. ([], 0, c)),
      evp_get_tag = (\<lambda>n c. (demo_tag (ctx_key c) (ctx_data c), c)),
      evp_set_tag = (\<lambda>n tag c. c\<lparr>ctx_tag := tag\<rparr>),
      evp_dec_final = (\<lambda>len c.
        (if ctx_tag c = demo_tag (ctx_key c) (ctx_data c) then 1 else 0, [], 0, c)),
      rand_bytes = (\<lambda>n w. if rng then (1, replicate (nat n) 7, w) else (0, [], w))\<rparr>"

lemma demo_evp_laws: "evp_gcm_laws (demo_evp rng) demo_seal demo_unseal"
proof -
  have "seal_laws demo_seal demo_unseal"
    by (simp add: seal_laws_def demo_seal_def demo_unseal_def demo_tag_def Let_def comp_def)
  moreover have "evp_encrypt_law (demo_evp rng) demo_seal"
    by (simp add: evp_encrypt_law_def demo_evp_def demo_seal_def Let_def)
  moreover have "evp_decrypt_law (demo_evp rng) demo_seal demo_unseal"
    by (auto simp: evp_decrypt_law_def demo_evp_def demo_seal_def demo_unseal_def Let_def comp_def)
  ultimately show ?thesis
    by (simp add: evp_gcm_laws_def)
qed

definition demo_env :: "nat env" where
  "demo_env = \<lparr>ext = 0, logs = []\<rparr>"

definition demo_key :: bytes where
  "demo_key = replicate 32 1"

definition demo_iv :: bytes where
  "demo_iv = replicate 12 2"

section \<open>Properties\<close>

text \<open>
  C8. Round trip: with a 32-byte key and a 12-byte nonce, what \<open>encrypt_aes_gcm\<close> produces from any
  plaintext shorter than 2^31 bytes, \<open>decrypt_aes_gcm\<close> (arguments in the order of its definition)
  accepts and turns back into the plaintext, whatever the caller's output vectors held before.
\<close>

theorem aes_gcm_roundtrip:
  fixes e e2 :: "('w, 'm) env_scheme"
  assumes "evp_gcm_laws api seal unseal"
    and "fst (evp_ctx_new api (ext e)) \<noteq> None" "fst (evp_ctx_new api (ext e2)) \<noteq> None"
    and "length key = 32" "length iv = 12" "length pt < 2 ^ 31"
  shows "\<exists>ct tag e' e2'.
           encrypt_aes_gcm api pt key iv ct0 tag0 e = Some (True, ct, tag, e') \<and>
           decrypt_aes_gcm api ct key iv tag pt0 e2 = Some (True, pt, e2')"
  using aes.sealed_then_opened assms by blast

theorem aes_gcm_roundtrip_witness:
  "\<exists>ct tag e' e2'.
     encrypt_aes_gcm (demo_evp True) [104, 105] demo_key demo_iv [] [] demo_env
       = Some (True, ct, tag, e') \<and>
     decrypt_aes_gcm (demo_evp True) ct demo_key demo_iv tag [9] demo_env
       = Some (True, [104, 105], e2')"
  by (rule aes_gcm_roundtrip [OF demo_evp_laws])
    (simp_all add: demo_evp_def demo_key_def demo_iv_def)

text \<open>
  C9. Authenticity: a call of \<open>decrypt_aes_gcm\<close> with parameters of the right sizes always returns,
  stays inside its buffers, and answers true exactly when the ciphertext and the tag are the ones
  that encrypting the returned plaintext under this key and nonce gives; so every change of the tag
  or of the ciphertext is refused.
\<close>

theorem aes_gcm_authentic:
  fixes e :: "('w, 'm) env_scheme"
  assumes laws: "evp_gcm_laws api seal unseal" and ctx: "fst (evp_ctx_new api (ext e)) \<noteq> None"
    and sizes: "length key = 32" "length iv = 12" "length tag = 16" "length ct < 2 ^ 31"
  shows "\<exists>ok pt e'. decrypt_aes_gcm api ct key iv tag pt0 e = Some (ok, pt, e') \<and>
           length pt = length ct \<and> logs e' = logs e \<and> (ok \<longleftrightarrow> seal key iv pt = (ct, tag))"
proof -
  obtain c w where "evp_ctx_new api (ext e) = (Some c, w)"
    using ctx by (cases "evp_ctx_new api (ext e)") auto
  from decrypt_under_laws [OF laws sizes this, of pt0] show ?thesis
    using laws by (auto simp: evp_gcm_laws_def seal_laws_def)
qed

theorem aes_gcm_authentic_witness:
  "\<exists>ok pt e'. decrypt_aes_gcm (demo_evp True) [1, 2, 3] demo_key demo_iv (replicate 16 0) [] demo_env
       = Some (ok, pt, e') \<and>
     length pt = length [1 :: byte, 2, 3] \<and> logs e' = logs demo_env \<and>
     (ok \<longleftrightarrow> demo_seal demo_key demo_iv pt = ([1, 2, 3], replicate 16 0))"
  by (rule aes_gcm_authentic [OF demo_evp_laws])
    (simp_all add: demo_evp_def demo_key_def demo_iv_def)

text \<open>
  The arguments in the order the header declares them (ciphertext, tag, key, iv) are refused for
  every packet when the key has its 32 bytes: the key stands where the definition expects the 12-byte
  nonce. The output vector is untouched and the only effect is the size error in the log.
\<close>

theorem decrypt_declared_order_refused:
  "length key = 32 \<Longrightarrow>
   decrypt_aes_gcm api ct tag key iv pt0 e = Some (False, pt0, log_decrypt_size_error e)"
  by (rule aes.declared_order_refused)

theorem decrypt_declared_order_refused_witness:
  "decrypt_aes_gcm (demo_evp True) [1, 2, 3] (replicate 16 0) demo_key demo_iv [] demo_env
     = Some (False, [], log_decrypt_size_error demo_env)"
  by (rule decrypt_declared_order_refused) (simp add: demo_key_def)

text \<open>
  \<open>generate_secure_random_bytes\<close> does not look at the result of the generator: a generator that
  fails and writes nothing yields a vector of zeros of the requested length, a nonce that repeats.
\<close>

theorem random_failure_gives_zeros:
  assumes "rand_bytes api (int_of_size n) (ext e) = (rc, [], w)"
  shows "generate_secure_random_bytes api n e = Some (replicate n 0, e\<lparr>ext := w\<rparr>)"
  by (simp add: generate_secure_random_bytes_def assms)

theorem random_failure_gives_zeros_witness:
  "generate_secure_random_bytes (demo_evp False) 12 demo_env =
     Some (replicate 12 0, demo_env\<lparr>ext := 0\<rparr>)"
  by (rule random_failure_gives_zeros [where rc = 0]) (simp add: demo_evp_def demo_env_def)

end
