(* ===== verification/Pipeline_Properties.thy ===== *)
theory Pipeline_Properties
  imports Mock_Readings Gateway_Properties Security_Properties
begin

text \<open>
  Properties that follow a value through several components: a sample of the mock publisher, from its
  JSON text through the cipher and the parser into the queue of the gateway, and a battery reading from
  the frame into the published message.
\<close>

section \<open>The text of an object\<close>

definition json_faithful ::
  "'j json_api \<Rightarrow> ('j \<Rightarrow> string \<Rightarrow> 'j) \<Rightarrow> (string \<times> json_scalar) list \<Rightarrow> 'j \<Rightarrow> bool" where
  \<comment> \<open>documented of the JSON library: the document parsed from the text of an object has its members,
      with their values; the text of a finite double reads back as the double\<close>
  "json_faithful json member ms j \<longleftrightarrow>
     (\<forall>k. j_contains json j k \<longleftrightarrow> k \<in> fst ` set ms) \<and>
     (\<forall>k s. (k, J_String s) \<in> set ms \<longrightarrow> j_get_string json (member j k) = Inr s) \<and>
     (\<forall>k n. (k, J_Unsigned n) \<in> set ms \<longrightarrow> j_get_uint64 json (member j k) = Inr n) \<and>
     (\<forall>k i. (k, J_Integer i) \<in> set ms \<longrightarrow> 0 \<le> i \<longrightarrow>
        j_get_uint64 json (member j k) = Inr (word_of_int i)) \<and>
     (\<forall>k f. (k, J_Double f) \<in> set ms \<longrightarrow> dbl_is_finite f \<longrightarrow>
        (\<exists>v. map_of (j_items json j) k = Some v \<and> number_of json v = Some f))"

section \<open>A sample of the mock publisher\<close>

definition mock_category :: "u64 \<Rightarrow> string" where
  \<comment> \<open>the category the parser gives the sample with this number\<close>
  "mock_category n =
     (if n mod 3 = 0 then ''battery'' else if n mod 3 = 1 then ''temperature'' else ''velocity'')"

lemma mock_payload_members:
  "(''client_id'', J_String ''amr_robot_01'') \<in> set (mock_payload n t)"
  "(''sequence_id'', J_Unsigned n) \<in> set (mock_payload n t)"
  "(''timestamp_ns'', J_Integer t) \<in> set (mock_payload n t)"
  by (simp_all add: mock_payload_def)

lemma mock_payload_category:
  assumes "json_faithful json member (mock_payload n t) j"
  shows "sensor_category json j = mock_category n"
proof -
  have has: "j_contains json j k \<longleftrightarrow> k \<in> fst ` set (mock_payload n t)" for k
    using assms by (simp add: json_faithful_def)
  show ?thesis
    unfolding sensor_category_def mock_category_def has
    by (simp add: mock_payload_def)
qed

lemma mock_payload_parses:
  assumes laws: "json_error_law json" "json_member_law json member" "json_number_law json"
    and parsed: "j_parse json s = Inr j" and faithful: "json_faithful json member (mock_payload n t) j"
    and time: "0 \<le> t"
  shows "\<exists>d. parse_and_validate json clock_ns s out = (Inr SUCCESS, d) \<and>
           robot_id d = ''amr_robot_01'' \<and> sequence_id d = n \<and> timestamp_ns d = word_of_int t \<and>
           sensor_type d = mock_category n \<and>
           (\<forall>k f. (k, J_Double f) \<in> set (mock_payload n t) \<longrightarrow> map_of (payload_values d) k = Some f)"
proof -
  note member = mock_payload_members [where n = n and t = t]
  have has: "j_contains json j ''client_id''" "j_contains json j ''sequence_id''"
    "j_contains json j ''timestamp_ns''"
    using faithful member unfolding json_faithful_def by (metis fst_conv imageI)+
  have get: "j_get_string json (member j ''client_id'') = Inr ''amr_robot_01''"
    "j_get_uint64 json (member j ''sequence_id'') = Inr n"
    "j_get_uint64 json (member j ''timestamp_ns'') = Inr (word_of_int t)"
    using faithful member time unfolding json_faithful_def by blast+
  let ?d0 = "out\<lparr>robot_id := ''amr_robot_01'', sequence_id := n, timestamp_ns := word_of_int t, payload_values := []\<rparr>"
  obtain d4 where collected: "collect_numbers json (j_items json j) ?d0 = (Inr (), d4)"
    using collect_numbers_total [OF laws(3)] by blast
  let ?d = "d4\<lparr>sensor_type := sensor_category json j\<rparr>"
  have read: "read_fields json clock_ns (j, out) = (Inr (), j, ?d)"
    unfolding read_fields_Inr [OF laws(2)]
    by (rule exI [of _ "''amr_robot_01''"], rule exI [of _ n], rule exI [of _ "word_of_int t"],
        rule exI [of _ d4])
      (simp add: collected robot_id_of_json_def uint64_of_json_def has get)
  then have run: "parse_and_validate json clock_ns s out = (Inr SUCCESS, ?d)"
    unfolding parse_and_validate_SUCCESS [OF laws(1)] using parsed by blast
  have frame: "frame_of_json json member clock_ns j ?d"
    by (rule read_fields_frame_of_json [OF laws(2) read])
  have "map_of (payload_values ?d) k = Some f"
    if reading: "(k, J_Double f) \<in> set (mock_payload n t)" for k f
  proof -
    have "dbl_is_finite f"
      using mock_readings [OF reading] by simp
    then obtain v where "map_of (j_items json j) k = Some v" "number_of json v = Some f"
      using faithful reading unfolding json_faithful_def by blast
    then show ?thesis
      using frame unfolding frame_of_json_def by simp
  qed
  then show ?thesis
    using run collect_numbers_frame [OF collected] mock_payload_category [OF faithful] by auto
qed

text \<open>C17. The mock publisher and the gateway fit together but for the order of the arguments: the packet
  the publisher makes of its sample number \<open>n\<close>, decrypted under the key of the gateway with the arguments
  in the order of the definition, is the text of the sample; the rest of the callback parses it and
  enqueues one frame, with the identifier, the number and the time stamp of the sample, the category
  that belongs to \<open>n mod 3\<close>, and every reading of the sample, to the bit.\<close>

theorem mock_packet_ingested:
  fixes g :: "('w, 'h, 's) gateway" and e :: "('w, 'm) env_scheme"
  assumes evp: "evp_gcm_laws evp seal unseal"
    and ctx: "fst (evp_ctx_new evp (ext e)) \<noteq> None" "fst (evp_ctx_new evp (ext g)) \<noteq> None"
    and sizes: "length iv = 12" "length (dump (mock_payload n t)) < 2 ^ 31"
    and laws: "json_error_law json" "json_member_law json member" "json_number_law json"
    and parsed: "j_parse json (dump (mock_payload n t)) = Inr j"
      "json_faithful json member (mock_payload n t) j" "0 \<le> t"
    and room: "cq_size (telemetry_queue g) < max_capacity (telemetry_queue g)"
  shows "\<exists>ct tag e' g1 d.
           encrypt_aes_gcm evp (bytes_of_string (dump (mock_payload n t))) MOCK_KEY iv [] [] e =
             Some (True, ct, tag, e') \<and>
           decrypt_aes_gcm evp ct PRE_SHARED_KEY iv tag [] g =
             Some (True, bytes_of_string (dump (mock_payload n t)), g1) \<and>
           fst (accept_plaintext json clock_ns (bytes_of_string (dump (mock_payload n t))) g1) = Inr True \<and>
           queue_items (telemetry_queue
             (snd (accept_plaintext json clock_ns (bytes_of_string (dump (mock_payload n t))) g1))) =
             queue_items (telemetry_queue g) @ [d] \<and>
           robot_id d = ''amr_robot_01'' \<and> sequence_id d = n \<and> timestamp_ns d = word_of_int t \<and>
           sensor_type d = mock_category n \<and>
           (\<forall>k f. (k, J_Double f) \<in> set (mock_payload n t) \<longrightarrow> map_of (payload_values d) k = Some f)"
proof -
  let ?pt = "bytes_of_string (dump (mock_payload n t))"
  have key: "MOCK_KEY = PRE_SHARED_KEY"
    by (simp add: MOCK_KEY_def PRE_SHARED_KEY_def)
  have short: "length ?pt < 2 ^ 31"
    using sizes(2) by simp
  obtain ct tag e' g1 where enc: "encrypt_aes_gcm evp ?pt PRE_SHARED_KEY iv [] [] e = Some (True, ct, tag, e')"
    and dec: "decrypt_aes_gcm evp ct PRE_SHARED_KEY iv tag [] g = Some (True, ?pt, g1)"
    and same: "telemetry_queue g1 = telemetry_queue g"
    using encrypted_then_decrypted [OF evp ctx length_PRE_SHARED_KEY sizes(1) short] by blast
  obtain d where run: "parse_and_validate json clock_ns (dump (mock_payload n t)) empty_telemetry = (Inr SUCCESS, d)"
    and fields: "robot_id d = ''amr_robot_01''" "sequence_id d = n" "timestamp_ns d = word_of_int t"
      "sensor_type d = mock_category n"
      "\<forall>k f. (k, J_Double f) \<in> set (mock_payload n t) \<longrightarrow> map_of (payload_values d) k = Some f"
    using mock_payload_parses [OF laws parsed] by blast
  have acc: "accept_plaintext json clock_ns ?pt g1 =
      (Inr True, g1\<lparr>telemetry_queue := snd (cq_push d (telemetry_queue g))\<rparr>)"
    by (simp add: accept_plaintext_def run same)
  show ?thesis
    unfolding key
    by (rule exI [of _ ct], rule exI [of _ tag], rule exI [of _ e'], rule exI [of _ g1], rule exI [of _ d])
      (use room fields in \<open>simp add: enc dec acc cq_push_items\<close>)
qed

definition demo_node :: "(nat, unit, unit) gateway" where
  "demo_node =
     \<lparr>ext = 0, logs = [], db_path = ''t.db'', db = None, insert_stmt = None, init_done = True,
      is_initialized = False, init_failed = False, rate_limiter = \<lparr>buckets = []\<rparr>,
      telemetry_queue = cq_new 1000, running = True, published = []\<rparr>"

definition demo_sample :: demo_json where
  \<comment> \<open>the second sample, taken at the time 5\<close>
  "demo_sample = JObject
     [(''client_id'', JString ''amr_robot_01''),
      (''sequence_id'', JNumber 0x4000000000000000 2),
      (''timestamp_ns'', JNumber 0x4014000000000000 5),
      (''velocity_x'', JNumber 0x3FE8000000000000 0),
      (''velocity_y'', JNumber 0 0)]"

abbreviation demo_sample_api :: "demo_json json_api" where
  "demo_sample_api \<equiv> demo_json_api [(''sample-json'', demo_sample)]"

lemma demo_payload_2:
  "mock_payload 2 5 =
     [(''client_id'', J_String ''amr_robot_01''), (''sequence_id'', J_Unsigned 2),
      (''timestamp_ns'', J_Integer 5), (''velocity_x'', J_Double 0x3FE8000000000000),
      (''velocity_y'', J_Double 0)]"
  by (simp add: mock_payload_def)

lemma demo_sample_faithful: "json_faithful demo_sample_api demo_member (mock_payload 2 5) demo_sample"
  unfolding demo_payload_2 json_faithful_def
  by (auto simp: demo_json_api_def demo_sample_def number_of_def split: if_splits)

theorem mock_packet_ingested_witness:
  "\<exists>ct tag g1 d.
     decrypt_aes_gcm (demo_evp True) ct PRE_SHARED_KEY demo_iv tag [] demo_node =
       Some (True, bytes_of_string ''sample-json'', g1) \<and>
     queue_items (telemetry_queue
       (snd (accept_plaintext demo_sample_api 9 (bytes_of_string ''sample-json'') g1))) = [d] \<and>
     robot_id d = ''amr_robot_01'' \<and> sequence_id d = 2 \<and> sensor_type d = ''velocity'' \<and>
     map_of (payload_values d) ''velocity_x'' = Some 0x3FE8000000000000"
proof -
  have ctx: "fst (evp_ctx_new (demo_evp True) (ext demo_env)) \<noteq> None"
    "fst (evp_ctx_new (demo_evp True) (ext demo_node)) \<noteq> None"
    by (simp_all add: demo_evp_def)
  have room: "cq_size (telemetry_queue demo_node) < max_capacity (telemetry_queue demo_node)"
    and empty: "queue_items (telemetry_queue demo_node) = []"
    by (simp_all add: demo_node_def cq_new_def cq_size_def)
  have sizes: "length demo_iv = 12" "length ''sample-json'' < 2 ^ 31"
    by (simp_all add: demo_iv_def)
  have parsed: "j_parse demo_sample_api ''sample-json'' = Inr demo_sample" "(0 :: int) \<le> 5"
    by (simp_all add: demo_json_api_def)
  have x: "(''velocity_x'', J_Double 0x3FE8000000000000) \<in> set (mock_payload 2 5)"
    by (simp add: demo_payload_2)
  have category: "mock_category 2 = ''velocity''"
    by (simp add: mock_category_def)
  obtain ct tag g1 d where
    "decrypt_aes_gcm (demo_evp True) ct PRE_SHARED_KEY demo_iv tag [] demo_node =
       Some (True, bytes_of_string ''sample-json'', g1)"
    "queue_items (telemetry_queue
       (snd (accept_plaintext demo_sample_api 9 (bytes_of_string ''sample-json'') g1))) = [d]"
    "robot_id d = ''amr_robot_01''" "sequence_id d = 2" "sensor_type d = mock_category 2"
    "map_of (payload_values d) ''velocity_x'' = Some 0x3FE8000000000000"
    using mock_packet_ingested [where dump = "\<lambda>ms. ''sample-json''" and clock_ns = 9, OF demo_evp_laws ctx
        sizes demo_json_error_law demo_json_member_law demo_number_law parsed(1) demo_sample_faithful
        parsed(2) room] x unfolding empty append_Nil by blast
  then show ?thesis
    unfolding category by blast
qed

section \<open>A battery reading\<close>

text \<open>C23. The published percentage is the battery reading correctly rounded: for a finite reading the
  message carries a float that is a number, and no float that is a number is nearer to the reading
  (the values are compared exactly, in units of \<open>2 ^ -1074\<close>).\<close>

theorem published_percentage_nearest:
  assumes "sensor_type d = ''battery''" and "map_of (payload_values d) ''battery'' = Some v"
    and "dbl_is_finite v" and "\<not> flt_is_nan f"
  shows "\<exists>p. ros_message_of now d =
             Some (Battery_Msg \<lparr>battery_stamp = now, battery_frame_id = robot_id d, percentage = p\<rparr>) \<and>
           \<not> flt_is_nan p \<and>
           \<bar>flt_units p * 2 ^ 925 - dbl_signed_units v\<bar> \<le> \<bar>flt_units f * 2 ^ 925 - dbl_signed_units v\<bar>"
  by (rule exI [of _ "double_to_float v"], intro conjI double_to_float_nearest
      double_to_float_not_nan assms(3,4))
    (simp add: ros_message_of_def assms(1,2))

theorem published_percentage_nearest_witness:
  "\<exists>p. ros_message_of 9 demo_battery_frame =
         Some (Battery_Msg \<lparr>battery_stamp = 9, battery_frame_id = ''amr_01'', percentage = p\<rparr>) \<and>
       flt_units p * 2 ^ 925 = dbl_signed_units 0x4058A00000000000"
proof -
  have type: "sensor_type demo_battery_frame = ''battery''"
    "map_of (payload_values demo_battery_frame) ''battery'' = Some 0x4058A00000000000"
    by (simp_all add: demo_battery_frame_def)
  have finite: "dbl_is_finite 0x4058A00000000000" "\<not> flt_is_nan 0x42C50000"
    by (simp_all add: dbl_is_finite_def dbl_exponent_def flt_is_nan_def flt_magnitude_def)
  have exact: "flt_units 0x42C50000 * 2 ^ 925 = dbl_signed_units 0x4058A00000000000"
    by (simp add: flt_units_def flt_magnitude_def mag_units_def grid_units_def dbl_signed_units_def dbl_units_def
        dbl_negative_def dbl_mantissa_def dbl_scale_def dbl_exponent_def dbl_fraction_def)
  have "robot_id demo_battery_frame = ''amr_01''"
    by (simp add: demo_battery_frame_def)
  then show ?thesis
    using published_percentage_nearest [OF type finite, of 9] unfolding exact by auto
qed

text \<open>C34. The battery of the mock publisher drains for ever: its reading is a finite number for every
  counter, positive or zero up to sample 984 and negative from then on. Nothing in the gateway minds: the
  check of the bounds accepts every frame, and the published percentage is a negative number exactly for
  these samples.\<close>

theorem mock_battery_below_zero:
  assumes "(''battery'', J_Double v) \<in> set (mock_payload n t)"
    and "sensor_type d = ''battery''" and "map_of (payload_values d) ''battery'' = Some v"
  shows "dbl_is_finite v \<and> validate_field_bounds d \<and>
    (\<exists>p. ros_message_of now d =
           Some (Battery_Msg \<lparr>battery_stamp = now, battery_frame_id = robot_id d, percentage = p\<rparr>) \<and>
         \<not> flt_is_nan p \<and> (flt_units p < 0 \<longleftrightarrow> 984 < unat n))"
proof -
  have finite: "dbl_is_finite v" and negative: "dbl_negative v \<longleftrightarrow> 984 < unat n"
    using mock_readings [OF assms(1)] by simp_all
  have "flt_units (double_to_float v) < 0 \<longleftrightarrow> dbl_negative v"
    by (rule double_to_float_negative_value [OF finite]) (use mock_battery_size [OF assms(1)] negative in blast)
  moreover have "ros_message_of now d = Some (Battery_Msg
      \<lparr>battery_stamp = now, battery_frame_id = robot_id d, percentage = double_to_float v\<rparr>)"
    by (simp add: ros_message_of_def assms(2,3))
  ultimately show ?thesis
    using finite negative double_to_float_not_nan [OF finite] by (simp add: validate_field_bounds_def)
qed

theorem mock_battery_below_zero_witness:
  "\<exists>v p. (''battery'', J_Double v) \<in> set (mock_payload 987 5) \<and>
     ros_message_of 9 (demo_battery_frame\<lparr>payload_values := [(''battery'', v)]\<rparr>) =
       Some (Battery_Msg \<lparr>battery_stamp = 9, battery_frame_id = ''amr_01'', percentage = p\<rparr>) \<and>
     flt_units p < 0"
proof -
  let ?v = "dbl_sub 0x4058A00000000000 (dbl_mul (dbl_of_nat 987) 0x3FB999999999999A)"
  let ?d = "demo_battery_frame\<lparr>payload_values := [(''battery'', ?v)]\<rparr>"
  have v: "(''battery'', J_Double ?v) \<in> set (mock_payload 987 5)"
    by (simp add: mock_payload_def)
  have d: "sensor_type ?d = ''battery''" "map_of (payload_values ?d) ''battery'' = Some ?v" "robot_id ?d = ''amr_01''"
    by (simp_all add: demo_battery_frame_def)
  show ?thesis
    using mock_battery_below_zero [OF v d(1,2), of 9] v d(3) by auto
qed

end
