(* ===== verification/Startup.thy ===== *)
theory Startup
  imports Storage_Threads
begin

text \<open>
  The gateway program (main.cpp): it opens the storage engine and lets four threads insert one frame
  each. A thread takes the steps of its call of \<^verbatim>\<open>insert_telemetry\<close> (theory \<open>Storage_Threads\<close>) and then, when
  the call has failed, prints a line. An execution is a schedule, the list of the thread numbers in the
  order of the steps; the joins hold the main thread until every thread has returned. Standard output
  and standard error are the two lists of the program state. The engine is destroyed, and with it
  closed, when \<^verbatim>\<open>main\<close> returns.
\<close>

section \<open>The threads\<close>

record ('w, 'h, 's) program =
  engine :: "('w, 'h, 's) storage"
  cout_lines :: "string list"
  cerr_lines :: "string list"

definition sample_frame :: telemetry_data where
  "sample_frame =
     empty_telemetry
       \<lparr>robot_id := ''robot_1'', sensor_type := ''lidar'', timestamp_ns := 1700000000000000000,
        sequence_id := 101\<rparr>"

datatype thread_pc = Thread_Call call_pc | Thread_Returned

definition thread_line :: "nat \<Rightarrow> string" where
  "thread_line thread_id = ''[Thread '' @ nat_digits thread_id @ ''] Failed to insert telemetry.''"

fun thread_step ::
  "('w, 'h, 's) store_api \<Rightarrow> nat \<Rightarrow> thread_pc \<times> ('w, 'h, 's) program \<Rightarrow>
   thread_pc \<times> ('w, 'h, 's) program" where
  \<comment> \<open>one step of \<open>workerThreadFunction\<close> in the thread with the given number; a call that has crashed
      never returns\<close>
  "thread_step api i (Thread_Call (Call_Done ok), p) =
     (Thread_Returned, if \<not> ok then p\<lparr>cerr_lines := cerr_lines p @ [thread_line i]\<rparr> else p)"
| "thread_step api i (Thread_Call pc, p) =
     (let (pc, s) = call_step api (pc, engine p) in (Thread_Call pc, p\<lparr>engine := s\<rparr>))"
| "thread_step api i (Thread_Returned, p) = (Thread_Returned, p)"

definition threads_start :: "thread_pc list" where
  \<comment> \<open>the four threads of \<open>main\<close>\<close>
  "threads_start = replicate 4 (Thread_Call (call_start (Cmd_Insert sample_frame)))"

fun program_step ::
  "('w, 'h, 's) store_api \<Rightarrow> nat \<Rightarrow> thread_pc list \<times> ('w, 'h, 's) program \<Rightarrow>
   thread_pc list \<times> ('w, 'h, 's) program" where
  "program_step api i (ts, p) =
     (if i < length ts
      then let (pc, p) = thread_step api i (ts ! i, p) in (ts[i := pc], p)
      else (ts, p))"

definition program_run ::
  "('w, 'h, 's) store_api \<Rightarrow> nat list \<Rightarrow> thread_pc list \<times> ('w, 'h, 's) program \<Rightarrow>
   thread_pc list \<times> ('w, 'h, 's) program" where
  "program_run api schedule st = fold (program_step api) schedule st"

definition main_program ::
  "('w, 'h, 's) store_api \<Rightarrow> nat list \<Rightarrow> 'w env \<Rightarrow> (int \<times> ('w, 'h, 's) program) option" where
  \<comment> \<open>the exit code and the program after the destruction of the engine; \<open>None\<close>: the schedule leaves
      a thread running, and \<open>main\<close> waits for it\<close>
  "main_program api schedule e =
     (let (ok, s) = init_engine api (storage_new ''data/telemetry_history.db'' e);
          p = \<lparr>engine = s, cout_lines = [''[Gateway Startup] Initializing components...''], cerr_lines = []\<rparr>
      in if \<not> ok
         then Some (1, p\<lparr>engine := storage_destroy api (engine p),
                         cerr_lines := [''[Fatal] Could not initialize StorageEngine. Halting startup.'']\<rparr>)
         else let p = p\<lparr>cout_lines := cout_lines p @ [''[Gateway Startup] Starting worker threads...'']\<rparr>;
                  (ts, p) = program_run api schedule (threads_start, p)
              in if list_all (\<lambda>t. t = Thread_Returned) ts
                 then Some (0, p\<lparr>engine := storage_destroy api (engine p)\<rparr>)
                 else None)"

section \<open>A thread by itself\<close>

definition worker_thread_function ::
  "('w, 'h, 's) store_api \<Rightarrow> nat \<Rightarrow> ('w, 'h, 's) program \<Rightarrow> ('w, 'h, 's) program" where
  \<comment> \<open>the whole thread, when nothing interrupts it\<close>
  "worker_thread_function api thread_id p =
     (let (ok, s) = insert_telemetry api sample_frame (engine p); p = p\<lparr>engine := s\<rparr>
      in if \<not> ok then p\<lparr>cerr_lines := cerr_lines p @ [thread_line thread_id]\<rparr> else p)"

lemma program_update_engine [simp]: "p\<lparr>engine := engine p\<rparr> = p"
  by simp

lemma thread_alone:
  assumes "stmt_live (ensure_initialized api (engine p))"
  shows "(thread_step api i ^^ 4) (Thread_Call (call_start (Cmd_Insert sample_frame)), p) =
     (Thread_Returned, worker_thread_function api i p)"
  using assms
  by (auto simp: numeral_eq_Suc worker_thread_function_def insert_telemetry_def stmt_live_def Let_def
      split: prod.splits)

section \<open>Every schedule that is long enough ends\<close>

fun thread_rank :: "thread_pc \<Rightarrow> nat" where
  \<comment> \<open>how many steps the thread is from its return\<close>
  "thread_rank (Thread_Call (Call_Ensure c)) = 4"
| "thread_rank (Thread_Call (Call_Test c)) = 3"
| "thread_rank (Thread_Call (Call_Section c)) = 2"
| "thread_rank (Thread_Call (Call_Done ok)) = 1"
| "thread_rank Thread_Returned = 0"
| "thread_rank (Thread_Call Call_Crashed) = 0"

lemma thread_rank_zero: "thread_rank t = 0 \<longleftrightarrow> t = Thread_Returned \<or> t = Thread_Call Call_Crashed"
  by (cases t rule: thread_rank.cases) simp_all

lemma flag_test_rank: "flag_test c s = (pc, s') \<Longrightarrow> thread_rank (Thread_Call pc) \<le> 2"
  by (cases c) (auto split: if_splits)

lemma thread_step_rank:
  "thread_step api i (t, p) = (t', p') \<Longrightarrow> thread_rank t' \<le> thread_rank t - 1"
  by (cases t rule: thread_rank.cases)
    (auto split: prod.splits option.splits dest: flag_test_rank)

lemma program_run_rank:
  "program_run api schedule (ts, p) = (ts', p') \<Longrightarrow>
   length ts' = length ts \<and>
   (\<forall>i<length ts. thread_rank (ts' ! i) \<le> thread_rank (ts ! i) - count_list schedule i)"
proof (induction schedule arbitrary: ts p)
  case Nil
  then show ?case by (simp add: program_run_def)
next
  case (Cons j schedule)
  obtain ts1 p1 where step: "program_step api j (ts, p) = (ts1, p1)"
    by (cases "program_step api j (ts, p)")
  have "program_run api schedule (ts1, p1) = (ts', p')"
    using Cons.prems step by (simp add: program_run_def)
  note IH = Cons.IH [OF this]
  have one: "length ts1 = length ts \<and>
      (\<forall>i<length ts. thread_rank (ts1 ! i) \<le> thread_rank (ts ! i) - (if i = j then 1 else 0))"
    using step thread_step_rank
    by (auto simp: nth_list_update Let_def split: if_splits prod.splits)
  show ?case
  proof (intro conjI allI impI)
    show "length ts' = length ts"
      using IH one by simp
    fix i
    assume i: "i < length ts"
    then have "thread_rank (ts' ! i) \<le> thread_rank (ts1 ! i) - count_list schedule i"
      using IH one by simp
    moreover have "thread_rank (ts1 ! i) \<le> thread_rank (ts ! i) - (if i = j then 1 else 0)"
      using one i by simp
    ultimately show "thread_rank (ts' ! i) \<le> thread_rank (ts ! i) - count_list (j # schedule) i"
      by (auto split: if_splits)
  qed
qed

section \<open>What the threads do to the table\<close>

fun thread_valid :: "thread_pc \<Rightarrow> bool" where
  "thread_valid (Thread_Call (Call_Ensure c)) = (c = Cmd_Insert sample_frame)"
| "thread_valid (Thread_Call (Call_Test c)) = (c = Cmd_Insert sample_frame)"
| "thread_valid (Thread_Call (Call_Section c)) = (c = Cmd_Insert sample_frame)"
| "thread_valid (Thread_Call Call_Crashed) = False"
| "thread_valid _ = True"

fun thread_finished :: "thread_pc \<Rightarrow> bool" where
  \<comment> \<open>the insert has returned\<close>
  "thread_finished (Thread_Call (Call_Done ok)) = True"
| "thread_finished Thread_Returned = True"
| "thread_finished _ = False"

abbreviation thread_failed :: "thread_pc \<Rightarrow> bool" where
  \<comment> \<open>the insert has failed and the line is not printed yet\<close>
  "thread_failed t \<equiv> t = Thread_Call (Call_Done False)"

definition count_pred :: "('a \<Rightarrow> bool) \<Rightarrow> 'a list \<Rightarrow> nat" where
  "count_pred P ts = length (filter P ts)"

definition program_inv ::
  "('w, 'h, 's) store_api \<Rightarrow> ('w \<Rightarrow> ('h, 's) db_view) \<Rightarrow> row list \<Rightarrow>
   thread_pc list \<times> ('w, 'h, 's) program \<Rightarrow> bool" where
  \<comment> \<open>a row for each insert that succeeded, a line for each thread that failed and has returned\<close>
  "program_inv api view rows st \<longleftrightarrow>
     (case st of (ts, p) \<Rightarrow>
        store_inv api view (engine p) \<and> list_all thread_valid ts \<and>
        (\<exists>n ids. stored_rows view (engine p) = rows @ replicate n (telemetry_row (map_order api) sample_frame) \<and>
           cerr_lines p = map thread_line ids \<and> distinct ids \<and>
           (\<forall>i\<in>set ids. i < length ts \<and> ts ! i = Thread_Returned) \<and>
           n + length ids + count_pred thread_failed ts = count_pred thread_finished ts))"

lemma count_pred_update:
  "i < length ts \<Longrightarrow>
   count_pred P (ts[i := t]) + (if P (ts ! i) then 1 else 0) = count_pred P ts + (if P t then 1 else 0)"
  unfolding count_pred_def using length_filter_update [of i ts P t] by simp

lemma store_inv_live:
  "store_inv api view s \<Longrightarrow> init_done s \<and> is_initialized s \<and> insert_stmt s \<noteq> None"
  by (auto simp: store_inv_def engine_ready_def)

text \<open>On a live engine an insert goes straight to its section.\<close>

lemma thread_step_live:
  assumes inv: "store_inv api view (engine p)" and valid: "thread_valid t"
    and step: "thread_step api i (t, p) = (t', p')"
  shows "thread_valid t' \<and> store_inv api view (engine p') \<and>
    (\<exists>ok. stored_rows view (engine p') = stored_rows view (engine p) @
            (if ok then [telemetry_row (map_order api) sample_frame] else []) \<and>
          (if thread_failed t then cerr_lines p' = cerr_lines p @ [thread_line i]
           else cerr_lines p' = cerr_lines p) \<and>
          (if thread_finished t then t' = Thread_Returned \<and> \<not> ok
           else t' = Thread_Call (Call_Done ok) \<or> \<not> thread_finished t' \<and> \<not> ok))"
proof -
  have live: "init_done (engine p)" "is_initialized (engine p)" "insert_stmt (engine p) \<noteq> None"
    using store_inv_live [OF inv] by simp_all
  show ?thesis
  proof (cases t rule: thread_rank.cases)
    case (3 c)
    obtain ok s where run: "insert_section api sample_frame (engine p) = (ok, s)"
      by (cases "insert_section api sample_frame (engine p)")
    then have "insert_telemetry api sample_frame (engine p) = (ok, s)"
      using live by (simp add: insert_telemetry_def ensure_initialized_def)
    from store.insert_inv [OF inv this] store.insert_rows [OF inv this] show ?thesis
      using 3 valid step run live(3) by (auto intro!: exI [of _ ok])
  next
    case (1 c)
    then have "t' = Thread_Call (Call_Test c)" "p' = p"
      using step live by (simp_all add: ensure_initialized_def)
    then show ?thesis
      using inv valid 1 by (intro conjI exI [of _ False]) simp_all
  next
    case (2 c)
    then have "t' = Thread_Call (Call_Section c)" "p' = p"
      using step valid live by simp_all
    then show ?thesis
      using inv valid 2 by (intro conjI exI [of _ False]) simp_all
  next
    case (4 ok)
    then have "t' = Thread_Returned" "engine p' = engine p"
      "cerr_lines p' = (if ok then cerr_lines p else cerr_lines p @ [thread_line i])"
      using step by auto
    then show ?thesis
      using inv 4 by (intro conjI exI [of _ False]) simp_all
  next
    case 5
    then show ?thesis
      using inv step by (intro conjI exI [of _ False]) simp_all
  next
    case 6
    then show ?thesis
      using valid by simp
  qed
qed

lemma program_step_inv:
  assumes inv: "program_inv api view rows (ts, p)" and step: "program_step api i (ts, p) = (ts', p')"
  shows "program_inv api view rows (ts', p')"
proof (cases "i < length ts")
  case False
  then show ?thesis using assms by simp
next
  case True
  obtain t where t: "thread_step api i (ts ! i, p) = (t, p')" and ts': "ts' = ts[i := t]"
    using step True by (auto simp: Let_def split: prod.splits)
  obtain n ids where I: "store_inv api view (engine p)" "list_all thread_valid ts"
    "stored_rows view (engine p) = rows @ replicate n (telemetry_row (map_order api) sample_frame)"
    "cerr_lines p = map thread_line ids" "distinct ids"
    "\<forall>i\<in>set ids. i < length ts \<and> ts ! i = Thread_Returned"
    "n + length ids + count_pred thread_failed ts = count_pred thread_finished ts"
    using inv by (auto simp: program_inv_def)
  have "thread_valid (ts ! i)"
    using I(2) True by (simp add: list_all_length)
  from thread_step_live [OF I(1) this t] obtain ok where
    new: "thread_valid t" "store_inv api view (engine p')"
      "stored_rows view (engine p') = stored_rows view (engine p) @
         (if ok then [telemetry_row (map_order api) sample_frame] else [])"
      "if thread_failed (ts ! i) then cerr_lines p' = cerr_lines p @ [thread_line i]
       else cerr_lines p' = cerr_lines p"
      "if thread_finished (ts ! i) then t = Thread_Returned \<and> \<not> ok
       else t = Thread_Call (Call_Done ok) \<or> \<not> thread_finished t \<and> \<not> ok"
    by blast
  define m where "m = n + (if ok then 1 else 0)"
  define jds where "jds = ids @ (if thread_failed (ts ! i) then [i] else [])"
  have "list_all thread_valid ts'"
    using I(2) new(1) set_update_subset_insert [of ts i t] by (auto simp: ts' list_all_iff)
  moreover have "stored_rows view (engine p') = rows @ replicate m (telemetry_row (map_order api) sample_frame)"
    using new(3) I(3) by (simp add: m_def replicate_append_same)
  moreover have "cerr_lines p' = map thread_line jds"
    using new(4) I(4) by (simp add: jds_def split: if_splits)
  moreover have "distinct jds" "\<forall>j\<in>set jds. j < length ts' \<and> ts' ! j = Thread_Returned"
    using I(5,6) new(5) True by (auto simp: jds_def ts' nth_list_update split: if_splits)
  moreover have "m + length jds + count_pred thread_failed ts' = count_pred thread_finished ts'"
    using I(7) new(5) count_pred_update [OF True, of thread_failed t] count_pred_update [OF True, of thread_finished t]
    unfolding ts' m_def jds_def by (auto split: if_splits)
  ultimately show ?thesis
    using new(2) unfolding program_inv_def by blast
qed

lemma program_run_inv:
  "program_inv api view rows (ts, p) \<Longrightarrow> program_run api schedule (ts, p) = (ts', p') \<Longrightarrow>
   program_inv api view rows (ts', p')"
proof (induction schedule arbitrary: ts p)
  case Nil
  then show ?case by (simp add: program_run_def)
next
  case (Cons j schedule)
  obtain ts1 p1 where step: "program_step api j (ts, p) = (ts1, p1)"
    by (cases "program_step api j (ts, p)")
  then show ?case
    using Cons.IH [OF program_step_inv [OF Cons.prems(1) step]] Cons.prems(2)
    by (simp add: program_run_def)
qed

lemma program_inv_start:
  assumes "store_inv api view (engine p)" "cerr_lines p = []"
  shows "program_inv api view (stored_rows view (engine p)) (threads_start, p)"
  unfolding program_inv_def prod.case
  by (intro conjI exI [of _ 0] exI [of _ "[]"])
    (simp_all add: assms threads_start_def count_pred_def numeral_eq_Suc)

lemma program_run_ends:
  assumes "\<forall>i<4. 4 \<le> count_list schedule i" and "program_run api schedule (threads_start, p) = (ts, p')"
    and "list_all thread_valid ts"
  shows "ts = replicate 4 Thread_Returned"
proof -
  have "length threads_start = 4" "\<forall>i<4. thread_rank (threads_start ! i) = 4"
    by (simp_all add: threads_start_def)
  then have "length ts = 4" "\<forall>i<4. thread_rank (ts ! i) \<le> 4 - count_list schedule i"
    using program_run_rank [OF assms(2)] by auto
  moreover from this have "ts ! i = Thread_Returned" if "i < 4" for i
  proof -
    have "thread_rank (ts ! i) = 0"
      using assms(1) calculation(2) that by (metis diff_is_0_eq le_zero_eq)
    moreover have "thread_valid (ts ! i)"
      using assms(3) calculation(1) that \<open>length ts = 4\<close> by (simp add: list_all_length)
    ultimately show ?thesis
      by (auto simp: thread_rank_zero)
  qed
  ultimately show ?thesis
    by (intro nth_equalityI) simp_all
qed

end
