(* ===== verification/Program_Properties.thy ===== *)
theory Program_Properties
  imports Startup Mock_Publisher Storage_Properties Security_Properties
begin

text \<open>The properties of the two programs: the gateway program and the mock publisher.\<close>

section \<open>The gateway program\<close>

text \<open>C33. The program ends, under every schedule that gives each of its four threads four turns, and it
  exits with 0 exactly when the database could be opened. Then, however the steps of the threads
  interleave, the table has grown by one copy of the sample row for each insert that succeeded, and each
  other thread has printed one line with its number: rows and lines add up to four. Otherwise no row is
  touched and one line is printed. In both cases the handles are released.\<close>

theorem main_program_outcome:
  assumes "sqlite_laws api view" and "v_txn (view (ext e)) = None"
    and "\<forall>i<4. 4 \<le> count_list schedule i"
  shows "\<exists>code p. main_program api schedule e = Some (code, p) \<and> handles_released (engine p) \<and>
    (if fst (init_engine api (storage_new ''data/telemetry_history.db'' e))
     then code = 0 \<and>
          (\<exists>n ids. stored_rows view (engine p) =
                 v_rows (view (ext e)) @ replicate n (telemetry_row (map_order api) sample_frame) \<and>
               cerr_lines p = map thread_line ids \<and> distinct ids \<and> set ids \<subseteq> {..<4} \<and>
               n + length ids = 4)
     else code = 1 \<and> stored_rows view (engine p) = v_rows (view (ext e)) \<and> length (cerr_lines p) = 1)"
proof -
  let ?s0 = "storage_new ''data/telemetry_history.db'' e"
  obtain ok s where i: "init_engine api ?s0 = (ok, s)"
    by (cases "init_engine api ?s0")
  have new: "\<not> is_initialized ?s0" "\<not> init_done ?s0" "stored_rows view ?s0 = v_rows (view (ext e))"
    "open_txn view ?s0 = None"
    using assms(2) by (simp_all add: storage_new_def storage.defs env.defs stored_rows_def open_txn_def)
  note eff = init_engine_effect [OF assms(1) new(1,2) i]
  show ?thesis
  proof (cases ok)
    case True
    then have inv: "store_inv api view s" and rows: "stored_rows view s = v_rows (view (ext e))"
      using eff new(3,4) assms(1) by (simp_all add: store_inv_def)
    let ?p = "\<lparr>engine = s, cout_lines = [''[Gateway Startup] Initializing components...'',
      ''[Gateway Startup] Starting worker threads...''], cerr_lines = []\<rparr>"
    obtain ts p where run: "program_run api schedule (threads_start, ?p) = (ts, p)"
      by (cases "program_run api schedule (threads_start, ?p)")
    have start: "program_inv api view (stored_rows view (engine ?p)) (threads_start, ?p)"
      by (rule program_inv_start) (simp_all add: inv)
    have inv': "program_inv api view (v_rows (view (ext e))) (ts, p)"
      using program_run_inv [OF start run] by (simp add: rows)
    then have ts: "ts = replicate 4 Thread_Returned"
      by (intro program_run_ends [OF assms(3) run]) (simp add: program_inv_def)
    from inv' obtain n ids where I: "store_inv api view (engine p)"
      "stored_rows view (engine p) =
         v_rows (view (ext e)) @ replicate n (telemetry_row (map_order api) sample_frame)"
      "cerr_lines p = map thread_line ids" "distinct ids" "set ids \<subseteq> {..<4}" "n + length ids = 4"
      by (auto simp: program_inv_def ts count_pred_def)
    have main: "main_program api schedule e = Some (0, p\<lparr>engine := close_engine api (engine p)\<rparr>)"
      using i True run ts by (simp add: main_program_def storage_destroy_def Let_def numeral_eq_Suc)
    have "engine_sound api view (engine p)"
      using I(1) by (simp add: engine_sound_def)
    from close_engine_sound [OF this] show ?thesis
      using main I(2-6) i True by auto
  next
    case False
    then have "engine_sound api view s"
      using eff by (simp add: engine_sound_def engine_dead_def handles_released_def)
    then show ?thesis
      using i False close_engine_sound eff new(3)
      by (auto simp: main_program_def storage_destroy_def)
  qed
qed

lemma demo_main_init:
  "fst (init_engine (demo_store False False ''mallory'') (storage_new ''data/telemetry_history.db'' demo_world))"
  by (simp add: init_engine_def ensure_initialized_def init_internal_def open_database_def
      enable_wal_mode_def create_schema_def prepare_insert_def run_exec_def schema_sql_def
      demo_store_def demo_exec_def SQLITE_OK_def storage_new_def storage.defs env.defs Let_def
      split: prod.splits)

theorem main_program_outcome_witness:
  "\<exists>p. main_program (demo_store False False ''mallory'') [2, 0, 3, 1, 2, 2, 0, 2, 1, 1, 1, 0, 0, 3, 3, 3] demo_world =
         Some (0, p) \<and>
       length (stored_rows demo_view (engine p)) + length (cerr_lines p) = 4"
proof -
  let ?schedule = "[2, 0, 3, 1, 2, 2, 0, 2, 1, 1, 1, 0, 0, 3, 3, 3 :: nat]"
  have turns: "\<forall>i<4. 4 \<le> count_list ?schedule i"
    by (simp add: numeral_eq_Suc All_less_Suc)
  have txn: "v_txn (demo_view (ext demo_world)) = None" and rows: "v_rows (demo_view (ext demo_world)) = []"
    by (simp_all add: demo_view_def demo_world_def)
  show ?thesis
    using main_program_outcome [OF demo_sqlite_laws txn turns, of False False "''mallory''"] demo_main_init
    unfolding rows by auto
qed

section \<open>The mock publisher\<close>

text \<open>With a working generator and cipher, a tick of the mock publisher counts, seals the text of its
  sample under the key and a nonce it has just drawn, and logs the size of the packet, which is the
  length of the text.\<close>

definition sealed_packet ::
  "(bytes \<Rightarrow> bytes \<Rightarrow> bytes \<Rightarrow> bytes \<times> bytes) \<Rightarrow> bytes \<Rightarrow> bytes \<Rightarrow> mock_packet" where
  "sealed_packet seal iv pt =
     \<lparr>packet_iv = iv, packet_ciphertext = fst (seal MOCK_KEY iv pt), packet_tag = snd (seal MOCK_KEY iv pt)\<rparr>"

lemma mock_sample_logged:
  assumes "evp_gcm_laws evp seal unseal"
    and "rand_bytes evp 12 (ext m) = (1, out, w)" "length out = 12"
    and "fst (evp_ctx_new evp w) \<noteq> None"
    and "length (dump (mock_payload (counter m + 1) clock_ns)) < 2 ^ 31"
  shows "\<exists>w'. publish_telemetry_sample evp dump clock_ns m =
           Some (Some (sealed_packet seal out (bytes_of_string (dump (mock_payload (counter m + 1) clock_ns)))),
                 log_msg Info ''Successfully generated encrypted telemetry packet #%lu (size: %zu bytes)''
                   [nat_digits (unat (counter m + 1)),
                    nat_digits (length (dump (mock_payload (counter m + 1) clock_ns)))]
                   (m\<lparr>counter := counter m + 1, ext := w'\<rparr>))"
proof -
  let ?m1 = "m\<lparr>counter := counter m + 1, ext := w\<rparr>"
  let ?pt = "bytes_of_string (dump (mock_payload (counter m + 1) clock_ns))"
  have "int_of_size 12 = 12"
    by (simp add: int_of_size_small)
  then have rnd: "generate_secure_random_bytes evp 12 (m\<lparr>counter := counter m + 1\<rparr>) = Some (out, ?m1)"
    using assms(2,3) by (simp add: generate_secure_random_bytes_def buf_write_all)
  obtain c w1 where ctx: "evp_ctx_new evp (ext ?m1) = (Some c, w1)"
    using assms(4) by (cases "evp_ctx_new evp w") auto
  have "length ?pt < 2 ^ 31"
    using assms(5) by simp
  from encrypt_under_laws [OF assms(1) length_MOCK_KEY assms(3) this ctx, of "[]" "[]"]
  obtain w' where enc: "encrypt_aes_gcm evp ?pt MOCK_KEY out [] [] ?m1 =
      Some (True, fst (seal MOCK_KEY out ?pt), snd (seal MOCK_KEY out ?pt), ?m1\<lparr>ext := w'\<rparr>)"
    by blast
  have "length (fst (seal MOCK_KEY out ?pt)) = length ?pt"
    using assms(1) by (simp add: evp_gcm_laws_def seal_laws_def)
  then have "publish_telemetry_sample evp dump clock_ns m =
      Some (Some (sealed_packet seal out ?pt),
        log_msg Info ''Successfully generated encrypted telemetry packet #%lu (size: %zu bytes)''
        [nat_digits (unat (counter m + 1)),
         nat_digits (length (dump (mock_payload (counter m + 1) clock_ns)))]
        (m\<lparr>counter := counter m + 1, ext := w'\<rparr>))"
    by (simp add: publish_telemetry_sample_def rnd enc sealed_packet_def)
  then show ?thesis ..
qed

fun mock_log ::
  "((string \<times> json_scalar) list \<Rightarrow> string) \<Rightarrow> u64 \<Rightarrow> int list \<Rightarrow> (log_level \<times> string \<times> string list) list" where
  \<comment> \<open>one line for each tick after sample number \<open>n\<close>\<close>
  "mock_log dump n [] = []"
| "mock_log dump n (t # ts) =
     (Info, ''Successfully generated encrypted telemetry packet #%lu (size: %zu bytes)'',
      [nat_digits (unat (n + 1)), nat_digits (length (dump (mock_payload (n + 1) t)))])
     # mock_log dump (n + 1) ts"

definition mock_works ::
  "('w, 'c) evp_api \<Rightarrow> ((string \<times> json_scalar) list \<Rightarrow> string) \<Rightarrow> bool" where
  \<comment> \<open>no call of the library fails, and the texts of the samples are shorter than \<open>2 ^ 31\<close>\<close>
  "mock_works evp dump \<longleftrightarrow>
     (\<forall>w. \<exists>iv w'. rand_bytes evp 12 w = (1, iv, w') \<and> length iv = 12) \<and>
     (\<forall>w. fst (evp_ctx_new evp w) \<noteq> None) \<and> (\<forall>n t. length (dump (mock_payload n t)) < 2 ^ 31)"

definition mock_ticks ::
  "('w, 'c) evp_api \<Rightarrow> (bytes \<Rightarrow> bytes \<Rightarrow> bytes \<Rightarrow> bytes \<times> bytes) \<Rightarrow>
   ((string \<times> json_scalar) list \<Rightarrow> string) \<Rightarrow> u64 \<Rightarrow> int list \<Rightarrow> mock_packet option list \<Rightarrow>
   'w mock_publisher list \<Rightarrow> bool" where
  \<comment> \<open>the states before the ticks and after the last one: each tick draws a nonce from the generator as it
      stands then, and seals under it the text of the sample with the next number\<close>
  "mock_ticks evp seal dump n clocks ps ms \<longleftrightarrow>
     length ps = length clocks \<and> length ms = Suc (length clocks) \<and>
     (\<forall>i<length clocks.
        publish_telemetry_sample evp dump (clocks ! i) (ms ! i) = Some (ps ! i, ms ! Suc i) \<and>
        (\<exists>iv w. rand_bytes evp 12 (ext (ms ! i)) = (1, iv, w) \<and>
           ps ! i = Some (sealed_packet seal iv
             (bytes_of_string (dump (mock_payload (n + of_nat (Suc i)) (clocks ! i)))))))"

lemma mock_ticks_Cons:
  assumes "publish_telemetry_sample evp dump t m = Some (p, m1)"
    and "rand_bytes evp 12 (ext m) = (1, iv, w)"
    and "p = Some (sealed_packet seal iv (bytes_of_string (dump (mock_payload (n + 1) t))))"
    and "mock_ticks evp seal dump (n + 1) ts ps ms" and "ms ! 0 = m1"
  shows "mock_ticks evp seal dump n (t # ts) (p # ps) (m # ms)"
  unfolding mock_ticks_def
proof (intro conjI allI impI)
  fix i
  assume i: "i < length (t # ts)"
  show "publish_telemetry_sample evp dump ((t # ts) ! i) ((m # ms) ! i) = Some ((p # ps) ! i, (m # ms) ! Suc i)"
    using assms(1,4,5) i by (cases i) (simp_all add: mock_ticks_def)
  show "\<exists>iv w. rand_bytes evp 12 (ext ((m # ms) ! i)) = (1, iv, w) \<and>
      (p # ps) ! i = Some (sealed_packet seal iv
        (bytes_of_string (dump (mock_payload (n + of_nat (Suc i)) ((t # ts) ! i)))))"
    using assms(2-4) i by (cases i) (simp_all add: mock_ticks_def add.assoc)
qed (use assms(4) in \<open>simp_all add: mock_ticks_def\<close>)

lemma mock_spin_logs:
  assumes laws: "evp_gcm_laws evp seal unseal" and works: "mock_works evp dump"
  shows "\<exists>ps ms. mock_spin evp dump clocks m = Some (ps, ms ! length clocks) \<and> ms ! 0 = m \<and>
           mock_ticks evp seal dump (counter m) clocks ps ms \<and>
           counter (ms ! length clocks) = counter m + of_nat (length clocks) \<and>
           logs (ms ! length clocks) = logs m @ mock_log dump (counter m) clocks"
proof (induction clocks arbitrary: m)
  case Nil
  then show ?case
    by (intro exI [of _ "[]"] exI [of _ "[m]"]) (simp add: mock_ticks_def)
next
  case (Cons t ts)
  obtain iv w where rnd: "rand_bytes evp 12 (ext m) = (1, iv, w)" "length iv = 12"
    and ctx: "fst (evp_ctx_new evp w) \<noteq> None"
    and short: "length (dump (mock_payload (counter m + 1) t)) < 2 ^ 31"
    using works unfolding mock_works_def by blast
  let ?p = "Some (sealed_packet seal iv (bytes_of_string (dump (mock_payload (counter m + 1) t))))"
  obtain w' where tick: "publish_telemetry_sample evp dump t m =
      Some (?p, log_msg Info ''Successfully generated encrypted telemetry packet #%lu (size: %zu bytes)''
              [nat_digits (unat (counter m + 1)),
               nat_digits (length (dump (mock_payload (counter m + 1) t)))]
              (m\<lparr>counter := counter m + 1, ext := w'\<rparr>))" (is "_ = Some (_, ?m1)")
    using mock_sample_logged [where dump = dump and clock_ns = t, OF laws rnd ctx short] by blast
  have m1: "counter ?m1 = counter m + 1" "logs ?m1 = logs m @ [hd (mock_log dump (counter m) (t # ts))]"
    by (simp_all add: log_msg_def)
  from Cons.IH [of ?m1] obtain ps ms where IH: "mock_spin evp dump ts ?m1 = Some (ps, ms ! length ts)"
    "ms ! 0 = ?m1" "mock_ticks evp seal dump (counter ?m1) ts ps ms"
    "counter (ms ! length ts) = counter ?m1 + of_nat (length ts)"
    "logs (ms ! length ts) = logs ?m1 @ mock_log dump (counter ?m1) ts"
    by blast
  show ?case
  proof (intro exI [of _ "?p # ps"] exI [of _ "m # ms"] conjI)
    show "mock_spin evp dump (t # ts) m = Some (?p # ps, (m # ms) ! length (t # ts))"
      using IH(1) by (simp only: mock_spin.simps tick option.case prod.case option.map) simp
    show "mock_ticks evp seal dump (counter m) (t # ts) (?p # ps) (m # ms)"
      by (rule mock_ticks_Cons [OF tick rnd(1) refl _ IH(2)]) (use IH(3) m1(1) in \<open>simp only:\<close>)
    show "counter ((m # ms) ! length (t # ts)) = counter m + of_nat (length (t # ts))"
      using IH(4) unfolding m1 by simp
    show "logs ((m # ms) ! length (t # ts)) = logs m @ mock_log dump (counter m) (t # ts)"
      using IH(5) unfolding m1 by simp
  qed simp
qed

text \<open>C39. The mock publisher, over its whole run: when no call of the cipher library fails it survives any
  number of ticks of its timer, exits with 0, and its counter is the number of ticks (modulo \<open>2 ^ 64\<close>). The
  packet of each tick is the text of the sample with the number of the tick and the clock of the tick, sealed
  under the pre-shared key and a nonce that this tick has drawn from the generator; each packet is one line in
  the log, with its number and its size, which is the length of the text.\<close>

theorem mock_main_history:
  assumes "evp_gcm_laws evp seal unseal" and "mock_works evp dump"
  shows "\<exists>ps ms m. mock_main evp dump clocks e = Some (0, ps, m) \<and>
           ms ! 0 = mock_new e \<and> ms ! length clocks = m \<and> mock_ticks evp seal dump 0 clocks ps ms \<and>
           counter m = of_nat (length clocks) \<and>
           logs m = logs e @ (Info, ''Starting Mock Telemetry Publisher...'', []) # mock_log dump 0 clocks"
proof -
  have new: "counter (mock_new e) = 0"
    "logs (mock_new e) = logs e @ [(Info, ''Starting Mock Telemetry Publisher...'', [])]"
    by (simp_all add: mock_new_def log_msg_def env.defs mock_publisher.defs)
  show ?thesis
    using mock_spin_logs [OF assms, of clocks "mock_new e"] unfolding mock_main_def new by auto
qed

theorem mock_main_history_witness:
  "\<exists>ps m. mock_main (demo_evp True) (\<lambda>ms. ''{}'') [5, 8] demo_env = Some (0, ps, m) \<and> counter m = 2 \<and>
     length ps = 2 \<and> list_all (\<lambda>p. \<exists>iv. p = Some (sealed_packet demo_seal iv (bytes_of_string ''{}''))) ps \<and>
     logs m = [(Info, ''Starting Mock Telemetry Publisher...'', []),
       (Info, ''Successfully generated encrypted telemetry packet #%lu (size: %zu bytes)'',
        [nat_digits (unat (1 :: u64)), nat_digits 2]),
       (Info, ''Successfully generated encrypted telemetry packet #%lu (size: %zu bytes)'',
        [nat_digits (unat (2 :: u64)), nat_digits 2])]"
proof -
  have "mock_works (demo_evp True) (\<lambda>ms. ''{}'')"
    by (simp add: mock_works_def demo_evp_def)
  from mock_main_history [OF demo_evp_laws this, of "[5, 8]" demo_env] obtain ps ms m where
    run: "mock_main (demo_evp True) (\<lambda>ms. ''{}'') [5, 8] demo_env = Some (0, ps, m)"
      "mock_ticks (demo_evp True) demo_seal (\<lambda>ms. ''{}'') 0 [5, 8] ps ms" "counter m = of_nat (length [5, 8 :: int])"
      "logs m = logs demo_env @ (Info, ''Starting Mock Telemetry Publisher...'', []) # mock_log (\<lambda>ms. ''{}'') 0 [5, 8]"
    by blast
  have "list_all (\<lambda>p. \<exists>iv. p = Some (sealed_packet demo_seal iv (bytes_of_string ''{}''))) ps"
    using run(2) by (auto simp: mock_ticks_def list_all_length)
  moreover have "length ps = 2"
    using run(2) by (simp add: mock_ticks_def)
  moreover have "logs demo_env = []"
    by (simp add: demo_env_def)
  moreover have two: "nat_digits 2 = nat_digits (Suc (Suc 0))"
    by (simp only: numeral_2_eq_2)
  ultimately show ?thesis
    using run(1,3,4) unfolding two by (simp del: nat_digits.simps)
qed

end
