(* ===== verification/Blocking_Queue.thy ===== *)
theory Blocking_Queue
  imports Bounded_Queue
begin

text \<open>
  \<^verbatim>\<open>utils::ConcurrentQueue\<close> (utils/concurrent_queue.hpp), the bounded queue whose operations wait on two
  condition variables, with a shutdown that wakes everybody.

  The sections under the mutex are functions on the queue: \<open>None\<close> means that the predicate of the wait
  is false. The monitor is a step relation over the program counters of any number of calls: a call
  enters its section, sleeps on its condition variable when the predicate is false, is woken by a
  notification, spuriously or by its timeout, takes the mutex again and tests the predicate again; a
  call that has changed the queue releases the mutex and notifies one sleeper afterwards, in a step of
  its own.
\<close>

section \<open>The sections\<close>

record 'a bqueue =
  bq_items :: "'a list"
  bq_capacity :: nat
  shutdown_requested :: bool

definition bq_new :: "nat \<Rightarrow> 'a bqueue" where
  "bq_new cap = \<lparr>bq_items = [], bq_capacity = cap, shutdown_requested = False\<rparr>"

definition bq_push :: "'a \<Rightarrow> 'a bqueue \<Rightarrow> (bool \<times> 'a bqueue) option" where
  "bq_push x q =
     (if \<not> (length (bq_items q) < bq_capacity q \<or> shutdown_requested q) then None
      else if shutdown_requested q then Some (False, q)
      else Some (True, q\<lparr>bq_items := bq_items q @ [x]\<rparr>))"

definition bq_take :: "'a bqueue \<Rightarrow> 'a option \<times> 'a bqueue" where
  \<comment> \<open>what \<open>pop\<close> and \<open>pop_for\<close> do once they no longer wait\<close>
  "bq_take q =
     (case bq_items q of [] \<Rightarrow> (None, q) | x # xs \<Rightarrow> (Some x, q\<lparr>bq_items := xs\<rparr>))"

definition bq_pop :: "'a bqueue \<Rightarrow> ('a option \<times> 'a bqueue) option" where
  "bq_pop q =
     (if \<not> (bq_items q \<noteq> [] \<or> shutdown_requested q) then None else Some (bq_take q))"

definition bq_shutdown :: "'a bqueue \<Rightarrow> 'a bqueue" where
  "bq_shutdown q = q\<lparr>shutdown_requested := True\<rparr>"

definition bq_size :: "'a bqueue \<Rightarrow> nat" where
  "bq_size q = length (bq_items q)"

definition bq_empty :: "'a bqueue \<Rightarrow> bool" where
  "bq_empty q \<longleftrightarrow> bq_items q = []"

interpretation bq: bounded_fifo bq_items bq_capacity bq_push bq_pop
  by unfold_locales (auto simp: bq_push_def bq_pop_def bq_take_def split: if_splits list.splits)

lemma bq_take_pop:
  "bq_take q = (got, q') \<Longrightarrow>
   bq_items q = (case got of None \<Rightarrow> [] | Some x \<Rightarrow> [x]) @ bq_items q' \<and>
   bq_capacity q' = bq_capacity q \<and> shutdown_requested q' = shutdown_requested q \<and>
   (got = None \<longleftrightarrow> bq_items q = [])"
  by (auto simp: bq_take_def split: list.splits)

section \<open>The monitor\<close>

datatype 'a bq_pc =
    Push_Enter 'a | Push_Wait 'a | Push_Woken 'a | Push_Notify | Push_Done bool
  | Pop_Enter bool | Pop_Wait bool | Pop_Woken bool | Pop_Timed_Out | Pop_Notify 'a
  | Pop_Done "'a option"
  | Shut_Enter | Shut_Notify_Empty | Shut_Notify_Full | Shut_Done

text \<open>The flag of a pop says whether it is a \<^verbatim>\<open>pop_for\<close>, which may time out.\<close>

fun wants_push :: "'a bq_pc \<Rightarrow> 'a option" where
  \<comment> \<open>the call is about to take the mutex and test the predicate of \<open>push\<close>\<close>
  "wants_push (Push_Enter x) = Some x"
| "wants_push (Push_Woken x) = Some x"
| "wants_push _ = None"

fun wants_pop :: "'a bq_pc \<Rightarrow> bool option" where
  "wants_pop (Pop_Enter t) = Some t"
| "wants_pop (Pop_Woken t) = Some t"
| "wants_pop _ = None"

fun_cases wants_pushE: "wants_push pc = Some x"
fun_cases wants_popE: "wants_pop pc = Some t"

fun wake_pop :: "'a bq_pc \<Rightarrow> 'a bq_pc" where
  "wake_pop (Pop_Wait t) = Pop_Woken t"
| "wake_pop pc = pc"

fun wake_push :: "'a bq_pc \<Rightarrow> 'a bq_pc" where
  "wake_push (Push_Wait x) = Push_Woken x"
| "wake_push pc = pc"

fun pop_waiting :: "'a bq_pc \<Rightarrow> bool" where
  "pop_waiting (Pop_Wait t) = True"
| "pop_waiting _ = False"

fun push_waiting :: "'a bq_pc \<Rightarrow> bool" where
  "push_waiting (Push_Wait x) = True"
| "push_waiting _ = False"

definition notify_one ::
  "('a bq_pc \<Rightarrow> bool) \<Rightarrow> ('a bq_pc \<Rightarrow> 'a bq_pc) \<Rightarrow> nat \<Rightarrow> 'a bq_pc list \<Rightarrow> 'a bq_pc list" where
  \<comment> \<open>wake the sleeper \<open>j\<close>, when it is one\<close>
  "notify_one sleeping wake j ts =
     (if j < length ts \<and> sleeping (ts ! j) then ts[j := wake (ts ! j)] else ts)"

definition may_notify :: "('a bq_pc \<Rightarrow> bool) \<Rightarrow> nat \<Rightarrow> 'a bq_pc list \<Rightarrow> bool" where
  \<comment> \<open>the choice is a sleeper, unless nobody sleeps\<close>
  "may_notify sleeping j ts \<longleftrightarrow>
     j < length ts \<and> sleeping (ts ! j) \<or> list_all (\<lambda>t. \<not> sleeping t) ts"

inductive bq_step ::
  "'a bqueue \<times> 'a bq_pc list \<Rightarrow> 'a list \<times> 'a list \<Rightarrow> 'a bqueue \<times> 'a bq_pc list \<Rightarrow> bool" where
  push_wait: "i < length ts \<Longrightarrow> wants_push (ts ! i) = Some x \<Longrightarrow> bq_push x q = None \<Longrightarrow>
     bq_step (q, ts) ([], []) (q, ts[i := Push_Wait x])"
| push_ok: "i < length ts \<Longrightarrow> wants_push (ts ! i) = Some x \<Longrightarrow> bq_push x q = Some (True, q') \<Longrightarrow>
     bq_step (q, ts) ([x], []) (q', ts[i := Push_Notify])"
| push_refused: "i < length ts \<Longrightarrow> wants_push (ts ! i) = Some x \<Longrightarrow> bq_push x q = Some (False, q') \<Longrightarrow>
     bq_step (q, ts) ([], []) (q', ts[i := Push_Done False])"
| push_notify: "i < length ts \<Longrightarrow> ts ! i = Push_Notify \<Longrightarrow> may_notify pop_waiting j ts \<Longrightarrow>
     bq_step (q, ts) ([], []) (q, (notify_one pop_waiting wake_pop j ts)[i := Push_Done True])"
| pop_wait: "i < length ts \<Longrightarrow> wants_pop (ts ! i) = Some t \<Longrightarrow> bq_pop q = None \<Longrightarrow>
     bq_step (q, ts) ([], []) (q, ts[i := Pop_Wait t])"
| pop_item: "i < length ts \<Longrightarrow> wants_pop (ts ! i) = Some t \<Longrightarrow> bq_pop q = Some (Some x, q') \<Longrightarrow>
     bq_step (q, ts) ([], [x]) (q', ts[i := Pop_Notify x])"
| pop_none: "i < length ts \<Longrightarrow> wants_pop (ts ! i) = Some t \<Longrightarrow> bq_pop q = Some (None, q') \<Longrightarrow>
     bq_step (q, ts) ([], []) (q', ts[i := Pop_Done None])"
| pop_notify: "i < length ts \<Longrightarrow> ts ! i = Pop_Notify x \<Longrightarrow> may_notify push_waiting j ts \<Longrightarrow>
     bq_step (q, ts) ([], []) (q, (notify_one push_waiting wake_push j ts)[i := Pop_Done (Some x)])"
| timeout: "i < length ts \<Longrightarrow> ts ! i = Pop_Wait True \<Longrightarrow>
     bq_step (q, ts) ([], []) (q, ts[i := Pop_Timed_Out])"
| timeout_item: "i < length ts \<Longrightarrow> ts ! i = Pop_Timed_Out \<Longrightarrow> bq_take q = (Some x, q') \<Longrightarrow>
     bq_step (q, ts) ([], [x]) (q', ts[i := Pop_Notify x])"
| timeout_none: "i < length ts \<Longrightarrow> ts ! i = Pop_Timed_Out \<Longrightarrow> bq_take q = (None, q') \<Longrightarrow>
     bq_step (q, ts) ([], []) (q', ts[i := Pop_Done None])"
| spurious_pop: "i < length ts \<Longrightarrow> pop_waiting (ts ! i) \<Longrightarrow>
     bq_step (q, ts) ([], []) (q, ts[i := wake_pop (ts ! i)])"
| spurious_push: "i < length ts \<Longrightarrow> push_waiting (ts ! i) \<Longrightarrow>
     bq_step (q, ts) ([], []) (q, ts[i := wake_push (ts ! i)])"
| shut_set: "i < length ts \<Longrightarrow> ts ! i = Shut_Enter \<Longrightarrow>
     bq_step (q, ts) ([], []) (bq_shutdown q, ts[i := Shut_Notify_Empty])"
| shut_empty: "i < length ts \<Longrightarrow> ts ! i = Shut_Notify_Empty \<Longrightarrow>
     bq_step (q, ts) ([], []) (q, map wake_pop (ts[i := Shut_Notify_Full]))"
| shut_full: "i < length ts \<Longrightarrow> ts ! i = Shut_Notify_Full \<Longrightarrow>
     bq_step (q, ts) ([], []) (q, map wake_push (ts[i := Shut_Done]))"

inductive bq_run ::
  "'a bqueue \<times> 'a bq_pc list \<Rightarrow> 'a list \<times> 'a list \<Rightarrow> 'a bqueue \<times> 'a bq_pc list \<Rightarrow> bool" for s where
  run_none: "bq_run s ([], []) s"
| run_more: "bq_run s (ins, outs) t \<Longrightarrow> bq_step t (i, out) u \<Longrightarrow> bq_run s (ins @ i, outs @ out) u"

definition bq_destructor :: "'a bq_pc" where
  \<comment> \<open>the destructor is a call of \<open>shutdown\<close>\<close>
  "bq_destructor = Shut_Enter"

fun call_starts :: "'a bq_pc \<Rightarrow> bool" where
  \<comment> \<open>a call that has not begun\<close>
  "call_starts (Push_Enter x) = True"
| "call_starts (Pop_Enter t) = True"
| "call_starts Shut_Enter = True"
| "call_starts _ = False"

section \<open>The queue under interleaving\<close>

lemma bq_pop_take: "bq_pop q = Some r \<Longrightarrow> bq_take q = r"
  by (auto simp: bq_pop_def split: if_splits)

lemma step_queue:
  assumes "bq_step (q, ts) (i, out) (q', ts')" and "length (bq_items q) \<le> bq_capacity q"
  shows "bq_items q @ i = out @ bq_items q' \<and> length (bq_items q') \<le> bq_capacity q' \<and>
         bq_capacity q' = bq_capacity q \<and> (shutdown_requested q \<longrightarrow> shutdown_requested q' \<and> i = [])"
  using assms
  by (cases rule: bq_step.cases)
    (auto simp: bq_push_def bq_pop_def bq_take_def bq_shutdown_def split: if_splits list.splits)

lemma run_queue:
  assumes "bq_run (q, ts) io s'" and "length (bq_items q) \<le> bq_capacity q"
  shows "bq_items q @ fst io = snd io @ bq_items (fst s') \<and>
         length (bq_items (fst s')) \<le> bq_capacity (fst s') \<and>
         bq_capacity (fst s') = bq_capacity q \<and> (shutdown_requested q \<longrightarrow> shutdown_requested (fst s') \<and> fst io = [])"
  using assms
proof (induction rule: bq_run.induct)
  case run_none
  then show ?case by simp
next
  case (run_more ins outs t i out u)
  obtain q1 ts1 q2 ts2 where tu: "t = (q1, ts1)" "u = (q2, ts2)"
    by (cases t, cases u)
  have IH: "bq_items q @ ins = outs @ bq_items q1" "length (bq_items q1) \<le> bq_capacity q1"
    "bq_capacity q1 = bq_capacity q" "shutdown_requested q \<longrightarrow> shutdown_requested q1 \<and> ins = []"
    using run_more.IH run_more.prems tu by auto
  note step = step_queue [OF run_more.hyps(2) [unfolded tu] IH(2)]
  have "bq_items q @ ins @ i = (outs @ out) @ bq_items q2"
    using IH(1) step by (metis append_assoc)
  then show ?case
    using IH step tu by auto
qed

section \<open>No wake-up is lost\<close>

abbreviation count_pcs :: "('a bq_pc \<Rightarrow> bool) \<Rightarrow> 'a bq_pc list \<Rightarrow> nat" where
  "count_pcs P ts \<equiv> length (filter P ts)"

fun pop_alert :: "'a bq_pc \<Rightarrow> bool" where
  \<comment> \<open>the call will look at the queue again, or wake a sleeper that will\<close>
  "pop_alert (Pop_Woken t) = True"
| "pop_alert Pop_Timed_Out = True"
| "pop_alert Push_Notify = True"
| "pop_alert _ = False"

fun push_alert :: "'a bq_pc \<Rightarrow> bool" where
  "push_alert (Push_Woken x) = True"
| "push_alert (Pop_Notify x) = True"
| "push_alert _ = False"

definition wake_inv ::
  "nat \<Rightarrow> ('a bq_pc \<Rightarrow> bool) \<Rightarrow> ('a bq_pc \<Rightarrow> bool) \<Rightarrow> 'a bq_pc list \<Rightarrow> bool" where
  \<comment> \<open>while somebody sleeps, each of the \<open>n\<close> things to be had has an alert call of its own\<close>
  "wake_inv n sleeping alert ts \<longleftrightarrow> (0 < count_pcs sleeping ts \<longrightarrow> n \<le> count_pcs alert ts)"

lemma wake_inv_update:
  assumes "wake_inv n sleeping alert ts" "i < length ts"
    and "n' = 0 \<or> \<not> sleeping pc' \<and>
         n' + (if alert (ts ! i) then 1 else 0) \<le> n + (if alert pc' then 1 else 0)"
  shows "wake_inv n' sleeping alert (ts[i := pc'])"
  using assms(1,3) length_filter_update [OF assms(2), of sleeping pc']
    length_filter_update [OF assms(2), of alert pc']
  unfolding wake_inv_def by (auto split: if_splits)

lemma wake_inv_notify:
  assumes inv: "wake_inv n sleeping alert ts" and i: "i < length ts" "\<not> sleeping (ts ! i)"
    and wake: "\<And>pc. sleeping pc \<Longrightarrow> \<not> sleeping (wake pc) \<and> alert (wake pc) \<and> \<not> alert pc"
    and choice: "may_notify sleeping j ts" and out: "\<not> sleeping pc'"
  shows "wake_inv n sleeping alert ((notify_one sleeping wake j ts)[i := pc'])"
proof (cases "j < length ts \<and> sleeping (ts ! j)")
  case True
  let ?ts = "ts[j := wake (ts ! j)]"
  have "wake_inv (n + 1) sleeping alert ?ts"
  proof (cases "0 < count_pcs sleeping ts")
    case pos: True
    then show ?thesis
      using inv True wake [of "ts ! j"] length_filter_update [of j ts alert "wake (ts ! j)"]
      by (auto simp: wake_inv_def)
  next
    case False
    then show ?thesis
      using True length_filter_pos [of j ts sleeping] by simp
  qed
  then show ?thesis
    using True i out wake_inv_update [of "n + 1" sleeping alert ?ts i n pc']
    by (simp add: notify_one_def split: if_splits)
next
  case False
  then have "count_pcs sleeping ts = 0"
    using choice by (auto simp: may_notify_def list_all_iff)
  then have "count_pcs sleeping (ts[i := pc']) = 0"
    using length_filter_update [OF i(1), of sleeping pc'] i(2) out by simp
  then show ?thesis
    using False by (auto simp: notify_one_def wake_inv_def)
qed

lemma wake_inv_notify_other:
  assumes inv: "wake_inv n sleeping alert ts" and i: "i < length ts"
    and other: "\<And>pc. slp pc \<Longrightarrow> \<not> sleeping (wake pc) \<and> \<not> alert pc"
    and out: "\<not> sleeping pc'" "\<not> alert (ts ! i) \<or> n = 0"
    and self: "\<not> slp (ts ! i)"
  shows "wake_inv n sleeping alert ((notify_one slp wake j ts)[i := pc'])"
proof -
  have "wake_inv n sleeping alert (notify_one slp wake j ts)"
    using wake_inv_update [OF inv, of j n "wake (ts ! j)"] other [of "ts ! j"] inv
    by (auto simp: notify_one_def)
  moreover have "notify_one slp wake j ts ! i = ts ! i"
    using self i by (auto simp: notify_one_def nth_list_update)
  ultimately show ?thesis
    using wake_inv_update [of n sleeping alert "notify_one slp wake j ts" i n pc'] out i
    by (auto simp: notify_one_def)
qed

definition shut_inv :: "'a bq_pc list \<Rightarrow> bool" where
  \<comment> \<open>after the flag is set, a sleeper sleeps only as long as a shutdown has not notified it\<close>
  "shut_inv ts \<longleftrightarrow>
     ((\<exists>pc\<in>set ts. pop_waiting pc) \<longrightarrow> Shut_Notify_Empty \<in> set ts) \<and>
     ((\<exists>pc\<in>set ts. push_waiting pc) \<longrightarrow> Shut_Notify_Empty \<in> set ts \<or> Shut_Notify_Full \<in> set ts)"

lemma set_update_keeps:
  "x \<in> set ts \<Longrightarrow> i < length ts \<Longrightarrow> ts ! i \<noteq> x \<Longrightarrow> x \<in> set (ts[i := y])"
  by (metis in_set_conv_nth length_list_update nth_list_update_neq)

lemma shut_inv_update:
  assumes "shut_inv ts" "i < length ts" "\<not> pop_waiting y" "\<not> push_waiting y"
    and "ts ! i \<noteq> Shut_Notify_Empty" "ts ! i \<noteq> Shut_Notify_Full"
  shows "shut_inv (ts[i := y])"
proof -
  have "pc = y \<or> pc \<in> set ts" if "pc \<in> set (ts[i := y])" for pc
    using that set_update_subset_insert by fastforce
  then show ?thesis
    using assms set_update_keeps [OF _ assms(2)] unfolding shut_inv_def by metis
qed

lemma shut_inv_notify [invariant_intros]:
  assumes "shut_inv ts" "i < length ts" "\<not> pop_waiting y" "\<not> push_waiting y"
    and "ts ! i \<noteq> Shut_Notify_Empty" "ts ! i \<noteq> Shut_Notify_Full"
    and "\<And>pc. slp pc \<Longrightarrow> \<not> pop_waiting (wake pc) \<and> \<not> push_waiting (wake pc) \<and>
         pc \<noteq> Shut_Notify_Empty \<and> pc \<noteq> Shut_Notify_Full"
    and "\<not> slp (ts ! i)"
  shows "shut_inv ((notify_one slp wake j ts)[i := y])"
proof -
  have "shut_inv (notify_one slp wake j ts)"
    using shut_inv_update [OF assms(1), of j "wake (ts ! j)"] assms(1) assms(7) [of "ts ! j"]
    by (auto simp: notify_one_def)
  moreover have "notify_one slp wake j ts ! i = ts ! i"
    using assms(2,8) by (auto simp: notify_one_def nth_list_update)
  ultimately show ?thesis
    using shut_inv_update [of "notify_one slp wake j ts" i y] assms(2-6) by (auto simp: notify_one_def)
qed

definition shut_done_inv :: "'a bq_pc list \<Rightarrow> bool" where
  \<comment> \<open>a shutdown that has notified a condition variable has left no sleeper on it\<close>
  "shut_done_inv ts \<longleftrightarrow>
     (Shut_Notify_Full \<in> set ts \<or> Shut_Done \<in> set ts \<longrightarrow> (\<forall>pc\<in>set ts. \<not> pop_waiting pc)) \<and>
     (Shut_Done \<in> set ts \<longrightarrow> (\<forall>pc\<in>set ts. \<not> push_waiting pc))"

lemma set_update_source: "pc \<in> set (ts[i := y]) \<Longrightarrow> pc = y \<or> pc \<in> set ts"
  using set_update_subset_insert by fastforce

lemma shut_done_inv_update:
  assumes "shut_done_inv ts" "\<not> pop_waiting y" "\<not> push_waiting y"
    and "y \<noteq> Shut_Notify_Full" "y \<noteq> Shut_Done"
  shows "shut_done_inv (ts[i := y])"
  using assms set_update_source [of _ ts i y] unfolding shut_done_inv_def by metis

lemma shut_done_inv_notify [invariant_intros]:
  assumes "shut_done_inv ts" "\<not> pop_waiting y" "\<not> push_waiting y"
    and "y \<noteq> Shut_Notify_Full" "y \<noteq> Shut_Done"
    and "\<And>pc. slp pc \<Longrightarrow> \<not> pop_waiting (wake pc) \<and> \<not> push_waiting (wake pc) \<and>
         wake pc \<noteq> Shut_Notify_Full \<and> wake pc \<noteq> Shut_Done"
  shows "shut_done_inv ((notify_one slp wake j ts)[i := y])"
  using assms shut_done_inv_update [of ts "wake (ts ! j)" j]
    shut_done_inv_update [of "notify_one slp wake j ts" y i]
  by (auto simp: notify_one_def)

fun shut_begun :: "'a bq_pc \<Rightarrow> bool" where
  "shut_begun Shut_Notify_Empty = True"
| "shut_begun Shut_Notify_Full = True"
| "shut_begun Shut_Done = True"
| "shut_begun _ = False"

definition monitor_inv :: "'a bqueue \<times> 'a bq_pc list \<Rightarrow> bool" where
  "monitor_inv s \<longleftrightarrow>
     (case s of (q, ts) \<Rightarrow>
        if shutdown_requested q then shut_inv ts \<and> shut_done_inv ts
        else wake_inv (length (bq_items q)) pop_waiting pop_alert ts \<and>
             wake_inv (bq_capacity q - length (bq_items q)) push_waiting push_alert ts \<and>
             (\<forall>pc\<in>set ts. \<not> shut_begun pc))"

lemma monitor_inv_start:
  assumes "list_all call_starts ts"
  shows "monitor_inv (q, ts)"
proof -
  have pcs: "\<not> pop_waiting pc \<and> \<not> push_waiting pc \<and> \<not> shut_begun pc \<and> pc \<noteq> Shut_Notify_Full \<and> pc \<noteq> Shut_Done"
    if "pc \<in> set ts" for pc
    using assms that by (cases pc) (auto simp: list_all_iff)
  then have "filter pop_waiting ts = []" "filter push_waiting ts = []"
    by (simp_all add: filter_empty_conv)
  then show ?thesis
    using pcs by (auto simp: monitor_inv_def wake_inv_def shut_inv_def shut_done_inv_def)
qed

lemma wants_pc:
  "wants_push pc = Some x \<Longrightarrow> pc = Push_Enter x \<or> pc = Push_Woken x"
  "wants_pop pc = Some t \<Longrightarrow> pc = Pop_Enter t \<or> pc = Pop_Woken t"
  by (auto elim: wants_pushE wants_popE)

lemma sleepers:
  "pop_waiting pc \<Longrightarrow> \<exists>t. pc = Pop_Wait t" "push_waiting pc \<Longrightarrow> \<exists>x. pc = Push_Wait x"
  by (cases pc; simp)+

text \<open>One call moves from \<open>ts ! i\<close> to \<open>y\<close>, and the queue from \<open>q\<close> to \<open>q'\<close>.\<close>

lemma monitor_inv_update [invariant_intros]:
  assumes "monitor_inv (q, ts)" "i < length ts"
    and "shutdown_requested q' = shutdown_requested q"
    and "shutdown_requested q \<Longrightarrow> \<not> pop_waiting y \<and> \<not> push_waiting y"
    and "\<not> shut_begun y" "\<not> shut_begun (ts ! i)"
    and "\<not> shutdown_requested q \<Longrightarrow> length (bq_items q') = 0 \<or> \<not> pop_waiting y \<and>
         length (bq_items q') + (if pop_alert (ts ! i) then 1 else 0)
           \<le> length (bq_items q) + (if pop_alert y then 1 else 0)"
    and "\<not> shutdown_requested q \<Longrightarrow> bq_capacity q' - length (bq_items q') = 0 \<or> \<not> push_waiting y \<and>
         bq_capacity q' - length (bq_items q') + (if push_alert (ts ! i) then 1 else 0)
           \<le> bq_capacity q - length (bq_items q) + (if push_alert y then 1 else 0)"
  shows "monitor_inv (q', ts[i := y])"
proof (cases "shutdown_requested q")
  case True
  have "y \<noteq> Shut_Notify_Full" "y \<noteq> Shut_Done" "ts ! i \<noteq> Shut_Notify_Empty" "ts ! i \<noteq> Shut_Notify_Full"
    using assms(5,6) by auto
  then show ?thesis
    using True assms shut_inv_update [of ts i y] shut_done_inv_update [of ts y i]
    by (simp add: monitor_inv_def)
next
  case False
  then show ?thesis
    using assms(1,3,5)
      wake_inv_update [of "length (bq_items q)" pop_waiting pop_alert ts i, OF _ assms(2) assms(7) [OF False]]
      wake_inv_update [of "bq_capacity q - length (bq_items q)" push_waiting push_alert ts i,
        OF _ assms(2) assms(8) [OF False]]
      set_update_source [of _ ts i y]
    by (auto simp: monitor_inv_def)
qed

lemma monitor_inv_notify_pop:
  assumes "monitor_inv (q, ts)" "i < length ts" "ts ! i = Push_Notify" "may_notify pop_waiting j ts"
  shows "monitor_inv (q, (notify_one pop_waiting wake_pop j ts)[i := Push_Done True])"
proof (cases "shutdown_requested q")
  case True
  then show ?thesis
    using assms by (auto simp: monitor_inv_def intro!: invariant_intros dest!: sleepers)
next
  case False
  have "wake_inv (length (bq_items q)) pop_waiting pop_alert
      ((notify_one pop_waiting wake_pop j ts)[i := Push_Done True])"
    using False assms by (intro wake_inv_notify) (auto simp: monitor_inv_def dest!: sleepers)
  moreover have "wake_inv (bq_capacity q - length (bq_items q)) push_waiting push_alert
      ((notify_one pop_waiting wake_pop j ts)[i := Push_Done True])"
    using False assms by (intro wake_inv_notify_other) (auto simp: monitor_inv_def dest!: sleepers)
  moreover have "\<not> shut_begun pc"
    if pc: "pc \<in> set ((notify_one pop_waiting wake_pop j ts)[i := Push_Done True])" for pc
  proof -
    have "pc \<in> set ts \<or> pc = Push_Done True \<or> (\<exists>t. pc = Pop_Woken t)"
      using set_update_source [OF pc]
      by (auto simp: notify_one_def dest!: set_update_source sleepers split: if_splits)
    then show ?thesis
      using False assms(1) by (auto simp: monitor_inv_def)
  qed
  ultimately show ?thesis
    using False by (simp add: monitor_inv_def)
qed

lemma monitor_inv_notify_push:
  assumes "monitor_inv (q, ts)" "i < length ts" "ts ! i = Pop_Notify x" "may_notify push_waiting j ts"
  shows "monitor_inv (q, (notify_one push_waiting wake_push j ts)[i := Pop_Done (Some x)])"
proof (cases "shutdown_requested q")
  case True
  then show ?thesis
    using assms by (auto simp: monitor_inv_def intro!: invariant_intros dest!: sleepers)
next
  case False
  have "wake_inv (bq_capacity q - length (bq_items q)) push_waiting push_alert
      ((notify_one push_waiting wake_push j ts)[i := Pop_Done (Some x)])"
    using False assms by (intro wake_inv_notify) (auto simp: monitor_inv_def dest!: sleepers)
  moreover have "wake_inv (length (bq_items q)) pop_waiting pop_alert
      ((notify_one push_waiting wake_push j ts)[i := Pop_Done (Some x)])"
    using False assms by (intro wake_inv_notify_other) (auto simp: monitor_inv_def dest!: sleepers)
  moreover have "\<not> shut_begun pc"
    if pc: "pc \<in> set ((notify_one push_waiting wake_push j ts)[i := Pop_Done (Some x)])" for pc
  proof -
    have "pc \<in> set ts \<or> pc = Pop_Done (Some x) \<or> (\<exists>y. pc = Push_Woken y)"
      using set_update_source [OF pc]
      by (auto simp: notify_one_def dest!: set_update_source sleepers split: if_splits)
    then show ?thesis
      using False assms(1) by (auto simp: monitor_inv_def)
  qed
  ultimately show ?thesis
    using False by (simp add: monitor_inv_def)
qed

lemma monitor_inv_shutdown:
  assumes "monitor_inv (q, ts)" "i < length ts" "ts ! i = Shut_Enter"
  shows "monitor_inv (bq_shutdown q, ts[i := Shut_Notify_Empty])"
proof -
  have "Shut_Notify_Empty \<in> set (ts[i := Shut_Notify_Empty])"
    using assms(2) by (simp add: set_update_memI)
  then have "shut_inv (ts[i := Shut_Notify_Empty])"
    by (simp add: shut_inv_def)
  moreover have "shut_done_inv (ts[i := Shut_Notify_Empty])"
  proof (cases "shutdown_requested q")
    case True
    then show ?thesis
      using assms by (auto simp: monitor_inv_def intro!: shut_done_inv_update)
  next
    case False
    then have "\<not> shut_begun pc" if "pc \<in> set ts" for pc
      using assms(1) that by (simp add: monitor_inv_def)
    then show ?thesis
      unfolding shut_done_inv_def by (fastforce dest!: set_update_source)
  qed
  ultimately show ?thesis
    by (simp add: monitor_inv_def bq_shutdown_def)
qed

lemma monitor_inv_begun:
  assumes "monitor_inv (q, ts)" "i < length ts" "shut_begun (ts ! i)"
  shows "shutdown_requested q" "shut_inv ts" "shut_done_inv ts"
  using assms nth_mem [OF assms(2)] by (auto simp: monitor_inv_def split: if_splits)

lemma wake_simps [simp]:
  "\<not> pop_waiting (wake_pop pc)" "\<not> push_waiting (wake_push pc)"
  "push_waiting (wake_pop pc) = push_waiting pc" "pop_waiting (wake_push pc) = pop_waiting pc"
  "wake_pop pc = Shut_Notify_Empty \<longleftrightarrow> pc = Shut_Notify_Empty" "wake_pop pc = Shut_Notify_Full \<longleftrightarrow> pc = Shut_Notify_Full"
  "wake_push pc = Shut_Notify_Empty \<longleftrightarrow> pc = Shut_Notify_Empty" "wake_push pc = Shut_Notify_Full \<longleftrightarrow> pc = Shut_Notify_Full"
  "Shut_Done = wake_pop pc \<longleftrightarrow> pc = Shut_Done" "Shut_Done = wake_push pc \<longleftrightarrow> pc = Shut_Done"
  by (cases pc; auto)+

lemma monitor_inv_notify_all_pop:
  assumes "monitor_inv (q, ts)" "i < length ts" "ts ! i = Shut_Notify_Empty"
  shows "monitor_inv (q, map wake_pop (ts[i := Shut_Notify_Full]))"
proof -
  let ?ts = "map wake_pop (ts[i := Shut_Notify_Full])"
  note inv = monitor_inv_begun [OF assms(1,2)]
  have "wake_pop Shut_Notify_Full \<in> set ?ts"
    unfolding set_map using assms(2) by (intro imageI) (simp add: set_update_memI)
  moreover have no_pop: "\<not> pop_waiting pc" if "pc \<in> set ?ts" for pc
    using that by auto
  ultimately have "shut_inv ?ts"
    by (auto simp: shut_inv_def)
  moreover have "shut_done_inv ?ts"
    using inv(3) assms(3) no_pop unfolding shut_done_inv_def
    by (auto dest!: set_update_source)
  ultimately show ?thesis
    using inv(1) assms(3) by (simp add: monitor_inv_def)
qed

lemma monitor_inv_notify_all_push:
  assumes "monitor_inv (q, ts)" "i < length ts" "ts ! i = Shut_Notify_Full"
  shows "monitor_inv (q, map wake_push (ts[i := Shut_Done]))"
proof -
  let ?ts = "map wake_push (ts[i := Shut_Done])"
  note inv = monitor_inv_begun [OF assms(1,2)]
  have full: "Shut_Notify_Full \<in> set ts"
    using assms(2,3) nth_mem by fastforce
  have no_push: "\<not> push_waiting pc" if "pc \<in> set ?ts" for pc
    using that by auto
  have no_pop: "\<not> pop_waiting pc" if "pc \<in> set ?ts" for pc
    using that inv(3) assms(3) full unfolding shut_done_inv_def by (auto dest!: set_update_source)
  have "shut_inv ?ts" "shut_done_inv ?ts"
    unfolding shut_inv_def shut_done_inv_def using no_push no_pop by blast+
  then show ?thesis
    using inv(1) assms(3) by (simp add: monitor_inv_def)
qed

lemma take_effect:
  "bq_take q = (Some x, q') \<Longrightarrow>
   length (bq_items q) = Suc (length (bq_items q')) \<and> bq_capacity q' = bq_capacity q \<and>
   shutdown_requested q' = shutdown_requested q"
  "bq_take q = (None, q') \<Longrightarrow> q' = q \<and> bq_items q = []"
  by (auto simp: bq_take_def split: list.splits)

lemma step_monitor_inv:
  assumes "bq_step s io s'" and "monitor_inv s"
  shows "monitor_inv s'"
  using assms
proof (cases rule: bq_step.cases)
  case (push_wait i ts x q)
  then show ?thesis
    using assms(2) wants_pc(1) [OF push_wait(5)]
    by (auto simp: bq_push_def split: if_splits intro!: invariant_intros)
next
  case (push_ok i ts x q q')
  then show ?thesis
    using assms(2) wants_pc(1) [OF push_ok(5)]
    by (auto simp: bq_push_def split: if_splits intro!: invariant_intros)
next
  case (push_refused i ts x q q')
  then show ?thesis
    using assms(2) wants_pc(1) [OF push_refused(5)]
    by (auto simp: bq_push_def split: if_splits intro!: invariant_intros)
next
  case (push_notify i ts j q)
  then show ?thesis
    using assms(2) monitor_inv_notify_pop by auto
next
  case (pop_wait i ts t q)
  then show ?thesis
    using assms(2) wants_pc(2) [OF pop_wait(5)]
    by (auto simp: bq_pop_def split: if_splits intro!: invariant_intros)
next
  case (pop_item i ts t q x q')
  note eff = take_effect(1) [OF bq_pop_take [OF pop_item(6)]]
  then show ?thesis
    using pop_item assms(2) wants_pc(2) [OF pop_item(5)] by (auto intro!: invariant_intros)
next
  case (pop_none i ts t q q')
  note eff = take_effect(2) [OF bq_pop_take [OF pop_none(6)]]
  then show ?thesis
    using pop_none assms(2) wants_pc(2) [OF pop_none(5)] by (auto intro!: invariant_intros)
next
  case (pop_notify i ts x j q)
  then show ?thesis
    using assms(2) monitor_inv_notify_push by auto
next
  case (timeout i ts q)
  then show ?thesis
    using assms(2) by (auto intro!: invariant_intros)
next
  case (timeout_item i ts q x q')
  then show ?thesis
    using assms(2) take_effect(1) [OF timeout_item(6)] by (auto intro!: invariant_intros)
next
  case (timeout_none i ts q q')
  then show ?thesis
    using assms(2) take_effect(2) [OF timeout_none(6)] by (auto intro!: invariant_intros)
next
  case (spurious_pop i ts q)
  then show ?thesis
    using assms(2) by (auto dest!: sleepers intro!: invariant_intros)
next
  case (spurious_push i ts q)
  then show ?thesis
    using assms(2) by (auto dest!: sleepers intro!: invariant_intros)
next
  case (shut_set i ts q)
  then show ?thesis
    using assms(2) monitor_inv_shutdown by auto
next
  case (shut_empty i ts q)
  then show ?thesis
    using assms(2) monitor_inv_notify_all_pop by auto
next
  case (shut_full i ts q)
  then show ?thesis
    using assms(2) monitor_inv_notify_all_push by auto
qed

lemma run_monitor_inv: "bq_run s io s' \<Longrightarrow> monitor_inv s \<Longrightarrow> monitor_inv s'"
  by (induction rule: bq_run.induct) (auto intro: step_monitor_inv)

section \<open>Shutdown\<close>

fun bq_rank :: "'a bq_pc \<Rightarrow> nat" where
  \<comment> \<open>how many steps of its own a call is from its return, once nobody needs to sleep\<close>
  "bq_rank (Push_Enter x) = 2"
| "bq_rank (Push_Wait x) = 3"
| "bq_rank (Push_Woken x) = 2"
| "bq_rank Push_Notify = 1"
| "bq_rank (Push_Done b) = 0"
| "bq_rank (Pop_Enter t) = 2"
| "bq_rank (Pop_Wait t) = 3"
| "bq_rank (Pop_Woken t) = 2"
| "bq_rank Pop_Timed_Out = 2"
| "bq_rank (Pop_Notify x) = 1"
| "bq_rank (Pop_Done r) = 0"
| "bq_rank Shut_Enter = 3"
| "bq_rank Shut_Notify_Empty = 2"
| "bq_rank Shut_Notify_Full = 1"
| "bq_rank Shut_Done = 0"

definition bq_work :: "'a bq_pc list \<Rightarrow> nat" where
  "bq_work ts = sum_list (map bq_rank ts)"

definition nobody_sleeps :: "'a bq_pc list \<Rightarrow> bool" where
  "nobody_sleeps ts \<longleftrightarrow> (\<forall>pc\<in>set ts. \<not> pop_waiting pc \<and> \<not> push_waiting pc)"

lemma bq_work_update: "i < length ts \<Longrightarrow> bq_work (ts[i := y]) + bq_rank (ts ! i) = bq_work ts + bq_rank y"
proof (induction ts arbitrary: i)
  case Nil
  then show ?case by simp
next
  case (Cons t ts)
  then show ?case by (cases i) (auto simp: bq_work_def)
qed

lemma bq_work_less:
  "i < length ts \<Longrightarrow> bq_rank y < bq_rank (ts ! i) \<Longrightarrow> bq_work (ts[i := y]) < bq_work ts"
  using bq_work_update [of i ts y] by simp

lemma nobody_sleeps_update [invariant_intros]:
  "nobody_sleeps ts \<Longrightarrow> \<not> pop_waiting y \<Longrightarrow> \<not> push_waiting y \<Longrightarrow> nobody_sleeps (ts[i := y])"
  unfolding nobody_sleeps_def by (blast dest: set_update_source)

lemma wake_all_id:
  assumes "nobody_sleeps ts"
  shows "map wake_pop ts = ts" "map wake_push ts = ts"
proof -
  have "wake_pop pc = pc" "wake_push pc = pc" if "\<not> pop_waiting pc" "\<not> push_waiting pc" for pc :: "'a bq_pc"
    using that by (cases pc; simp)+
  then show "map wake_pop ts = ts" "map wake_push ts = ts"
    using assms by (simp_all add: nobody_sleeps_def map_idI)
qed

lemma notify_one_id:
  assumes "nobody_sleeps ts"
  shows "notify_one pop_waiting wk j ts = ts" "notify_one push_waiting wk j ts = ts"
  using assms by (auto simp: notify_one_def nobody_sleeps_def)

lemma nobody_sleeps_nth: "nobody_sleeps ts \<Longrightarrow> i < length ts \<Longrightarrow> \<not> pop_waiting (ts ! i) \<and> \<not> push_waiting (ts ! i)"
  by (simp add: nobody_sleeps_def)

text \<open>Once the flag is set and nobody sleeps, every step brings some call nearer to its return.\<close>

lemma shutdown_step:
  assumes "bq_step (q, ts) io (q', ts')" "shutdown_requested q" "nobody_sleeps ts"
  shows "nobody_sleeps ts' \<and> bq_work ts' < bq_work ts"
  using assms(1)
proof (cases rule: bq_step.cases)
  case (push_wait i x)
  then show ?thesis using assms(2) by (simp add: bq_push_def)
next
  case (push_ok i x)
  then show ?thesis using assms(2) by (simp add: bq_push_def)
next
  case (push_refused i x)
  then show ?thesis
    using assms(3) wants_pc(1) [OF push_refused(4)]
    by (auto intro!: invariant_intros bq_work_less)
next
  case (push_notify i j)
  then show ?thesis
    using assms(3) by (auto simp: notify_one_id intro!: invariant_intros bq_work_less)
next
  case (pop_wait i t)
  then show ?thesis using assms(2) by (simp add: bq_pop_def)
next
  case (pop_item i t x)
  then show ?thesis
    using assms(3) wants_pc(2) [OF pop_item(4)] by (auto intro!: invariant_intros bq_work_less)
next
  case (pop_none i t)
  then show ?thesis
    using assms(3) wants_pc(2) [OF pop_none(4)] by (auto intro!: invariant_intros bq_work_less)
next
  case (pop_notify i x j)
  then show ?thesis
    using assms(3) by (auto simp: notify_one_id intro!: invariant_intros bq_work_less)
next
  case (timeout i)
  then show ?thesis using nobody_sleeps_nth [OF assms(3)] by fastforce
next
  case (timeout_item i x)
  then show ?thesis
    using assms(3) by (auto intro!: invariant_intros bq_work_less)
next
  case (timeout_none i)
  then show ?thesis
    using assms(3) by (auto intro!: invariant_intros bq_work_less)
next
  case (spurious_pop i)
  then show ?thesis using nobody_sleeps_nth [OF assms(3)] by fastforce
next
  case (spurious_push i)
  then show ?thesis using nobody_sleeps_nth [OF assms(3)] by fastforce
next
  case (shut_set i)
  then show ?thesis
    using assms(3) by (auto intro!: invariant_intros bq_work_less)
next
  case (shut_empty i)
  have "nobody_sleeps (ts[i := Shut_Notify_Full])"
    using assms(3) by (auto intro!: invariant_intros)
  then show ?thesis
    using shut_empty by (auto simp: wake_all_id intro!: bq_work_less)
next
  case (shut_full i)
  have "nobody_sleeps (ts[i := Shut_Done])"
    using assms(3) by (auto intro!: invariant_intros)
  then show ?thesis
    using shut_full by (auto simp: wake_all_id intro!: bq_work_less)
qed

lemma shutdown_progress:
  assumes "shutdown_requested q" "nobody_sleeps ts" "i < length ts" "0 < bq_rank (ts ! i)"
  shows "\<exists>io s'. bq_step (q, ts) io s'"
proof -
  have none: "list_all (\<lambda>t. \<not> pop_waiting t) ts" "list_all (\<lambda>t. \<not> push_waiting t) ts"
    using assms(2) by (auto simp: nobody_sleeps_def list_all_iff)
  obtain got q' where taken: "bq_take q = (got, q')"
    by (cases "bq_take q")
  have pop: "bq_pop q = Some (got, q')"
    using assms(1) taken by (simp add: bq_pop_def)
  have push: "bq_push x q = Some (False, q)" for x
    using assms(1) by (simp add: bq_push_def)
  consider (push) x where "wants_push (ts ! i) = Some x" | (pop) t where "wants_pop (ts ! i) = Some t"
    | (timed) "ts ! i = Pop_Timed_Out" | (note_pop) "ts ! i = Push_Notify"
    | (note_push) x where "ts ! i = Pop_Notify x" | (shut) "ts ! i = Shut_Enter"
    | (empty) "ts ! i = Shut_Notify_Empty" | (full) "ts ! i = Shut_Notify_Full"
    using assms(4) nobody_sleeps_nth [OF assms(2,3)] by (cases "ts ! i") auto
  then show ?thesis
  proof cases
    case push
    then show ?thesis using bq_step.push_refused [OF assms(3)] \<open>bq_push _ q = _\<close> by blast
  next
    case pop
    then show ?thesis
      using bq_step.pop_item [OF assms(3)] bq_step.pop_none [OF assms(3)] \<open>bq_pop q = _\<close> by (cases got) blast+
  next
    case timed
    then show ?thesis
      using bq_step.timeout_item [OF assms(3)] bq_step.timeout_none [OF assms(3)] taken by (cases got) blast+
  next
    case note_pop
    then show ?thesis using bq_step.push_notify [OF assms(3)] none by (fastforce simp: may_notify_def)
  next
    case note_push
    then show ?thesis using bq_step.pop_notify [OF assms(3)] none by (fastforce simp: may_notify_def)
  next
    case shut
    then show ?thesis using bq_step.shut_set [OF assms(3)] by blast
  next
    case empty
    then show ?thesis using bq_step.shut_empty [OF assms(3)] by blast
  next
    case full
    then show ?thesis using bq_step.shut_full [OF assms(3)] by blast
  qed
qed

end
