(* ===== verification/Queue_Properties.thy ===== *)
theory Queue_Properties
  imports Blocking_Queue
begin

text \<open>
  The properties of the two queues: \<^verbatim>\<open>containers::ConcurrentQueue\<close> over sequential histories of its
  operations, \<^verbatim>\<open>utils::ConcurrentQueue\<close> over every interleaving of any number of calls.
\<close>

section \<open>containers::ConcurrentQueue\<close>

text \<open>Whatever the history of pushes and pops on a new queue, the items that came out are a prefix
  of the items that were accepted, in the same order, and the rest is in the queue, whose size never
  exceeds its capacity.\<close>

theorem cq_history_fifo:
  assumes "fifo_run (\<lambda>x q. Some (cq_push x q)) (\<lambda>q. Some (cq_pop q)) ops (cq_new cap) = (ins, outs, q)"
  shows "ins = outs @ queue_items q \<and> cq_size q \<le> cap"
  using cq.run_fifo [OF assms] cq.run_bounded [OF assms] by (simp add: cq_new_def cq_size_def)

theorem cq_history_fifo_witness:
  "fifo_run (\<lambda>x q. Some (cq_push x q)) (\<lambda>q. Some (cq_pop q)) [Push 1, Push 2, Push 3, Pop] (cq_new 2) =
     ([1, 2], [1 :: nat], \<lparr>queue_items = [2], max_capacity = 2\<rparr>) \<and>
   [1, 2] = [1] @ [2 :: nat]"
proof -
  have run: "fifo_run (\<lambda>x q. Some (cq_push x q)) (\<lambda>q. Some (cq_pop q)) [Push 1, Push 2, Push 3, Pop] (cq_new 2) =
     ([1, 2], [1 :: nat], \<lparr>queue_items = [2], max_capacity = 2\<rparr>)"
    by (simp add: cq_push_def cq_pop_def cq_new_def)
  from cq_history_fifo [OF run] run show ?thesis by simp
qed

text \<open>A push is refused exactly when the queue is full, and then changes nothing; popping as often
  as the queue has items empties it, in order.\<close>

theorem cq_push_refused_iff_full:
  "(fst (cq_push x q) \<longleftrightarrow> cq_size q < max_capacity q) \<and>
   (\<not> fst (cq_push x q) \<longrightarrow> snd (cq_push x q) = q) \<and>
   fst (snd (fifo_run (\<lambda>x q. Some (cq_push x q)) (\<lambda>q. Some (cq_pop q)) (replicate (cq_size q) Pop) q)) =
     queue_items q"
proof -
  obtain ins outs r where run:
    "fifo_run (\<lambda>x q. Some (cq_push x q)) (\<lambda>q. Some (cq_pop q)) (replicate (length (queue_items q)) Pop) q =
       (ins, outs, r)"
    by (metis prod_cases3)
  from cq.drain [OF this] show ?thesis
    using run by (simp add: cq_push_def cq_size_def)
qed

theorem cq_push_refused_iff_full_witness:
  "\<not> fst (cq_push 3 \<lparr>queue_items = [1, 2 :: nat], max_capacity = 2\<rparr>) \<and>
   snd (cq_push 3 \<lparr>queue_items = [1, 2 :: nat], max_capacity = 2\<rparr>) =
     \<lparr>queue_items = [1, 2], max_capacity = 2\<rparr>"
  using cq_push_refused_iff_full [of 3 "\<lparr>queue_items = [1, 2 :: nat], max_capacity = 2\<rparr>"]
  by (simp add: cq_size_def)

section \<open>utils::ConcurrentQueue\<close>

text \<open>C15. Under every interleaving of any number of pushes, pops, timed pops and shutdowns, spurious
  wake-ups included: the items handed out are a prefix of those accepted, in the same order, the rest is
  in the queue, within its capacity; and a queue that is shut down accepts nothing more.\<close>

theorem bq_interleavings_fifo:
  assumes "bq_run (bq_new cap, calls) (ins, outs) (q, ts)"
    and "bq_run (q, ts) (ins2, outs2) (q2, ts2)"
  shows "ins = outs @ bq_items q \<and> bq_size q \<le> cap \<and>
         (shutdown_requested q \<longrightarrow> ins2 = [] \<and> bq_items q = outs2 @ bq_items q2)"
  using run_queue [OF assms(1)] run_queue [OF assms(2)] by (auto simp: bq_new_def bq_size_def)

lemma bq_run_step:
  "bq_run s (ins, outs) t \<Longrightarrow> bq_step t (i, out) u \<Longrightarrow> ins' = ins @ i \<Longrightarrow> outs' = outs @ out \<Longrightarrow>
   bq_run s (ins', outs') u"
  using run_more by blast

definition demo_calls :: "nat bq_pc list" where
  "demo_calls = [Push_Enter 7, Pop_Enter False, Shut_Enter]"

definition demo_full :: "nat bqueue" where
  "demo_full = \<lparr>bq_items = [7], bq_capacity = 1, shutdown_requested = False\<rparr>"

text \<open>The pop goes to sleep on the empty queue, and the push adds its item.\<close>

lemma demo_run_pushed:
  "bq_run (bq_new 1, demo_calls) ([7], []) (demo_full, [Push_Notify, Pop_Wait False, Shut_Enter])"
proof -
  have "bq_run (bq_new 1, demo_calls) ([], []) (bq_new 1, [Push_Enter 7, Pop_Wait False, Shut_Enter])"
    using bq_step.pop_wait [of 1 demo_calls False "bq_new 1"]
    by (intro bq_run_step [OF run_none]) (simp_all add: demo_calls_def bq_pop_def bq_new_def)
  moreover have "bq_step (bq_new 1, [Push_Enter 7, Pop_Wait False, Shut_Enter]) ([7], [])
      (demo_full, [Push_Notify, Pop_Wait False, Shut_Enter])"
    using bq_step.push_ok [of 0 "[Push_Enter 7, Pop_Wait False, Shut_Enter]" 7 "bq_new 1" demo_full]
    by (simp add: bq_push_def bq_new_def demo_full_def)
  ultimately show ?thesis
    by (rule bq_run_step) simp_all
qed

theorem bq_interleavings_fifo_witness:
  "bq_run (bq_new 1, demo_calls) ([7], []) (demo_full, [Push_Notify, Pop_Wait False, Shut_Enter]) \<and>
   [7] = [] @ bq_items demo_full"
  using demo_run_pushed bq_interleavings_fifo [OF demo_run_pushed run_none] by simp

text \<open>C14. No wake-up is lost: whenever a call sleeps although what it waits for is there (an item for a
  pop, room for a push, or the shutdown), some other call has been woken and will test the queue again,
  or is about to notify.\<close>

theorem bq_no_lost_wakeup:
  assumes "bq_run (q0, calls) io (q, ts)" and "list_all call_starts calls"
  shows "((\<exists>pc\<in>set ts. pop_waiting pc) \<longrightarrow> bq_items q \<noteq> [] \<or> shutdown_requested q \<longrightarrow>
            (\<exists>pc\<in>set ts. pop_alert pc \<or> pc = Shut_Notify_Empty)) \<and>
         ((\<exists>pc\<in>set ts. push_waiting pc) \<longrightarrow> bq_size q < bq_capacity q \<or> shutdown_requested q \<longrightarrow>
            (\<exists>pc\<in>set ts. push_alert pc \<or> pc = Shut_Notify_Empty \<or> pc = Shut_Notify_Full))"
proof -
  have inv: "monitor_inv (q, ts)"
    using run_monitor_inv [OF assms(1)] monitor_inv_start [OF assms(2)] by blast
  have counted: "0 < count_pcs P ts \<longleftrightarrow> (\<exists>pc\<in>set ts. P pc)" for P
    by (auto simp: filter_empty_conv)
  show ?thesis
  proof (cases "shutdown_requested q")
    case True
    then show ?thesis
      using inv by (auto simp: monitor_inv_def shut_inv_def)
  next
    case False
    then have "(\<exists>pc\<in>set ts. pop_waiting pc) \<longrightarrow> length (bq_items q) \<le> count_pcs pop_alert ts"
      "(\<exists>pc\<in>set ts. push_waiting pc) \<longrightarrow> bq_capacity q - length (bq_items q) \<le> count_pcs push_alert ts"
      using inv by (auto simp: monitor_inv_def wake_inv_def filter_empty_conv)
    then show ?thesis
      using False counted [of pop_alert] counted [of push_alert] by (auto simp: bq_size_def)
  qed
qed

theorem bq_no_lost_wakeup_witness:
  "bq_run (bq_new 1, demo_calls) ([7], []) (demo_full, [Push_Notify, Pop_Wait False, Shut_Enter]) \<and>
   (\<exists>pc\<in>set [Push_Notify, Pop_Wait False, Shut_Enter :: nat bq_pc]. pop_alert pc \<or> pc = Shut_Notify_Empty)"
  using demo_run_pushed bq_no_lost_wakeup [OF demo_run_pushed]
  by (simp add: demo_calls_def demo_full_def)

text \<open>C16. A shutdown unblocks everybody: once one call of \<^verbatim>\<open>shutdown\<close> has returned, nobody sleeps, every
  step of any call brings some call nearer to its return (none can go back to sleep), and only when all
  calls have returned is no step possible; so all pending calls return.\<close>

theorem bq_shutdown_unblocks:
  assumes "bq_run (q0, calls) io (q, ts)" and "list_all call_starts calls" and "Shut_Done \<in> set ts"
  shows "nobody_sleeps ts \<and>
         (\<forall>io' q' ts'. bq_step (q, ts) io' (q', ts') \<longrightarrow> bq_work ts' < bq_work ts) \<and>
         ((\<nexists>io' s'. bq_step (q, ts) io' s') \<longrightarrow> (\<forall>pc\<in>set ts. bq_rank pc = 0))"
proof -
  have inv: "monitor_inv (q, ts)"
    using run_monitor_inv [OF assms(1)] monitor_inv_start [OF assms(2)] by blast
  have down: "shutdown_requested q" and "shut_done_inv ts"
    using inv assms(3) by (auto simp: monitor_inv_def split: if_splits)
  then have sleep: "nobody_sleeps ts"
    using assms(3) by (simp add: shut_done_inv_def nobody_sleeps_def)
  have "\<exists>io' s'. bq_step (q, ts) io' s'" if "pc \<in> set ts" "bq_rank pc \<noteq> 0" for pc
    using that shutdown_progress [OF down sleep] by (metis in_set_conv_nth neq0_conv)
  then show ?thesis
    using sleep shutdown_step [OF _ down sleep] by blast
qed

text \<open>The pop sleeps, and a shutdown wakes it.\<close>

lemma demo_run_shutdown:
  "bq_run (bq_new 1, [Pop_Enter False, Shut_Enter]) ([], [])
     (bq_shutdown (bq_new 1), [Pop_Woken False, Shut_Done])"
proof -
  let ?run = "bq_run (bq_new 1, [Pop_Enter False, Shut_Enter]) ([], [])"
  have "?run (bq_new 1, [Pop_Wait False, Shut_Enter])"
    using bq_step.pop_wait [of 0 "[Pop_Enter False, Shut_Enter]" False "bq_new 1"]
    by (intro bq_run_step [OF run_none]) (simp_all add: bq_pop_def bq_new_def)
  then have "?run (bq_shutdown (bq_new 1), [Pop_Wait False, Shut_Notify_Empty])"
    using bq_step.shut_set [of 1 "[Pop_Wait False, Shut_Enter]" "bq_new 1"] by (auto elim: bq_run_step)
  then have "?run (bq_shutdown (bq_new 1), [Pop_Woken False, Shut_Notify_Full])"
    using bq_step.shut_empty [of 1 "[Pop_Wait False, Shut_Notify_Empty]" "bq_shutdown (bq_new 1)"]
    by (auto elim: bq_run_step)
  then show ?thesis
    using bq_step.shut_full [of 1 "[Pop_Woken False, Shut_Notify_Full]" "bq_shutdown (bq_new 1)"]
    by (auto elim: bq_run_step)
qed

theorem bq_shutdown_unblocks_witness:
  "bq_run (bq_new 1, [Pop_Enter False, Shut_Enter]) ([], [])
     (bq_shutdown (bq_new 1), [Pop_Woken False, Shut_Done]) \<and>
   nobody_sleeps [Pop_Woken False, Shut_Done :: nat bq_pc]"
  using demo_run_shutdown bq_shutdown_unblocks [OF demo_run_shutdown] by auto

end
