(* ===== verification/Telemetry_Properties.thy ===== *)
theory Telemetry_Properties
  imports Telemetry
begin

text \<open>
  The property of the unified telemetry packet: the test for a critical packet.
\<close>

text \<open>C38. A packet is critical exactly when the robot reports an emergency stop or a fault, or its
  battery reading is a number below ten percent, compared by value (\<open>10 * 2 ^ 149\<close> in units of
  \<open>2 ^ -149\<close>); a reading that is not a number never makes it critical, and the packet as constructed is
  critical, because its battery reads zero.\<close>

theorem is_critical_by_value:
  "(is_critical p \<longleftrightarrow>
      current_state p = 5 \<or> current_state p = 6 \<or>
      (\<not> flt_is_nan (battery_percentage (hardware p)) \<and>
       flt_units (battery_percentage (hardware p)) < 10 * 2 ^ 149)) \<and>
   is_critical default_packet"
proof -
  have ten: "flt_units float_ten = 10 * 2 ^ 149" "\<not> flt_is_nan float_ten"
    by (simp_all add: flt_units_def float_ten_def flt_magnitude_def mag_units_def grid_units_def flt_is_nan_def)
  have "is_critical p \<longleftrightarrow>
      current_state p = 5 \<or> current_state p = 6 \<or>
      (\<not> flt_is_nan (battery_percentage (hardware p)) \<and>
       flt_units (battery_percentage (hardware p)) < 10 * 2 ^ 149)"
    by (simp add: is_critical_def flt_less_def flt_order_units ten)
  then show ?thesis
    using is_critical_default by (rule conjI)
qed

end
