(* ===== verification/Unit_Tests.thy ===== *)
theory Unit_Tests
  imports Storage_Properties Security_Properties
begin

text \<open>
  The unit tests of the repository (test/test_security_engine.cpp, test/test_storage_engine.cpp) as
  programs over the model. A test yields the list of the checks that fail, in order; it passes when the
  list is empty. A failed \<^verbatim>\<open>ASSERT_\<close> leaves the test, a failed \<^verbatim>\<open>EXPECT_\<close> does not; a failed assertion of
  \<^verbatim>\<open>SetUp\<close> skips the body, and \<^verbatim>\<open>TearDown\<close> and the destructors run in any case.
\<close>

section \<open>The security engine\<close>

definition TEST_KEY :: bytes where
  "TEST_KEY =
     [0x60, 0x3d, 0xeb, 0x10, 0x15, 0xca, 0x71, 0xbe, 0x2b, 0x73, 0xae, 0xf0, 0x85, 0x7d, 0x77, 0x81,
      0x1f, 0x35, 0x2c, 0x07, 0x3b, 0x61, 0x08, 0xd7, 0x2d, 0x98, 0x10, 0xa3, 0x09, 0x14, 0xdf, 0xf4]"

definition TEST_IV :: bytes where
  "TEST_IV = [0x11, 0x22, 0x33, 0x44, 0x55, 0x66, 0x77, 0x88, 0x99, 0xAA, 0xBB, 0xCC]"

definition quoted :: "string \<Rightarrow> string" where
  "quoted s = CHR 0x22 # s @ [CHR 0x22]"

definition ROUNDTRIP_TEXT :: string where
  "ROUNDTRIP_TEXT =
     ''{'' @ quoted ''robot_id'' @ '':'' @ quoted ''amr_01'' @ '','' @ quoted ''battery'' @ '':98.5}''"

definition TAMPER_TEXT :: string where
  "TAMPER_TEXT =
     ''{'' @ quoted ''robot_id'' @ '':'' @ quoted ''amr_01'' @ '','' @ quoted ''temperature'' @ '':42.0}''"

definition occurs_in :: "string \<Rightarrow> string \<Rightarrow> bool" where
  \<comment> \<open>\<open>find\<close> finds the first text in the second\<close>
  "occurs_in p s \<longleftrightarrow> list_ex (\<lambda>i. take (length p) (drop i s) = p) [0..<Suc (length s)]"

definition test_encrypt_decrypt_roundtrip ::
  "('w, 'c) evp_api \<Rightarrow> ('w, 'm) env_scheme \<Rightarrow> (string list \<times> ('w, 'm) env_scheme) option" where
  "test_encrypt_decrypt_roundtrip evp e =
     (let plaintext = bytes_of_string ROUNDTRIP_TEXT
      in case encrypt_aes_gcm evp plaintext TEST_KEY TEST_IV (replicate (length plaintext) 0)
                (replicate 16 0) e of
           None \<Rightarrow> None
         | Some (encrypt_ok, ciphertext, tag, e) \<Rightarrow>
             if \<not> encrypt_ok then Some ([''Encryption failed entirely.''], e)
             else case decrypt_aes_gcm evp ciphertext TEST_KEY TEST_IV tag
                         (replicate (length ciphertext) 0) e of
                    None \<Rightarrow> None
                  | Some (decrypt_ok, decrypted, e) \<Rightarrow>
                      if \<not> decrypt_ok then Some ([''Decryption failed on valid data.''], e)
                      else Some (if occurs_in ''amr_01'' (string_of_bytes decrypted) then []
                                 else [''decrypted_text.find''], e))"

definition test_rejects_tampered_tag ::
  "('w, 'c) evp_api \<Rightarrow> ('w, 'm) env_scheme \<Rightarrow> (string list \<times> ('w, 'm) env_scheme) option" where
  "test_rejects_tampered_tag evp e =
     (let plaintext = bytes_of_string TAMPER_TEXT
      in case encrypt_aes_gcm evp plaintext TEST_KEY TEST_IV (replicate (length plaintext) 0)
                (replicate 16 0) e of
           None \<Rightarrow> None
         | Some (encrypt_ok, ciphertext, tag, e) \<Rightarrow>
             if \<not> encrypt_ok then Some ([''encrypt_aes_gcm''], e)
             else let tag = tag[0 := xor (tag ! 0) 0xFF]
                  in case decrypt_aes_gcm evp ciphertext TEST_KEY TEST_IV tag
                            (replicate (length ciphertext) 0) e of
                       None \<Rightarrow> None
                     | Some (decrypt_ok, decrypted, e) \<Rightarrow>
                         Some (if decrypt_ok
                               then [''Decryption should have failed due to tampered tag!''] else [], e))"

lemma length_TEST_KEY: "length TEST_KEY = 32" "length TEST_IV = 12"
  by (simp_all add: TEST_KEY_def TEST_IV_def)

lemma xor_FF_changes: "xor b 0xFF \<noteq> (b :: byte)"
proof
  assume "xor b 0xFF = b"
  then have "xor b (xor b 0xFF) = xor b b"
    by simp
  then show False
    by (simp add: xor.assoc [symmetric])
qed

lemma roundtrip_test_passes:
  assumes "evp_gcm_laws evp seal unseal" and "\<forall>w. fst (evp_ctx_new evp w) \<noteq> None"
  shows "\<exists>e'. test_encrypt_decrypt_roundtrip evp e = Some ([], e')"
proof -
  let ?pt = "bytes_of_string ROUNDTRIP_TEXT"
  have ready: "evp_gcm_laws evp seal unseal \<and> fst (evp_ctx_new evp (ext e)) \<noteq> None" for e :: "('a, 'c) env_scheme"
    using assms by simp
  have small: "length ?pt < 2 ^ 31"
    by (simp add: ROUNDTRIP_TEXT_def TAMPER_TEXT_def quoted_def)
  obtain ct tag e1 where enc: "encrypt_aes_gcm evp ?pt TEST_KEY TEST_IV (replicate (length ?pt) 0)
      (replicate 16 0) e = Some (True, ct, tag, e1)" "length tag = 16"
    using aes.enc_ready [OF ready length_TEST_KEY small] by blast
  obtain e2 where dec: "decrypt_aes_gcm evp ct TEST_KEY TEST_IV tag (replicate (length ct) 0) e1 =
      Some (True, ?pt, e2)"
    using aes.dec_enc [OF ready ready length_TEST_KEY small enc] by auto
  have found: "occurs_in ''amr_01'' (string_of_bytes ?pt)"
    unfolding string_of_bytes_of_string by (simp add: ROUNDTRIP_TEXT_def quoted_def occurs_in_def upt_rec numeral_eq_Suc)
  show ?thesis
    unfolding test_encrypt_decrypt_roundtrip_def Let_def enc by (simp add: dec found [simplified])
qed

lemma tampered_test_passes:
  assumes "evp_gcm_laws evp seal unseal" and "\<forall>w. fst (evp_ctx_new evp w) \<noteq> None"
  shows "\<exists>e'. test_rejects_tampered_tag evp e = Some ([], e')"
proof -
  let ?pt = "bytes_of_string TAMPER_TEXT"
  have ready: "evp_gcm_laws evp seal unseal \<and> fst (evp_ctx_new evp (ext e)) \<noteq> None" for e :: "('a, 'c) env_scheme"
    using assms by simp
  have small: "length ?pt < 2 ^ 31"
    by (simp add: ROUNDTRIP_TEXT_def TAMPER_TEXT_def quoted_def)
  obtain ct tag e1 where enc: "encrypt_aes_gcm evp ?pt TEST_KEY TEST_IV (replicate (length ?pt) 0)
      (replicate 16 0) e = Some (True, ct, tag, e1)" "length tag = 16"
    using aes.enc_ready [OF ready length_TEST_KEY small] by blast
  have "tag[0 := xor (tag ! 0) 0xFF] ! 0 \<noteq> tag ! 0"
    using enc(2) xor_FF_changes by simp
  then have "tag[0 := xor (tag ! 0) 0xFF] \<noteq> tag"
    by metis
  then obtain pt' e2 where dec: "decrypt_aes_gcm evp ct TEST_KEY TEST_IV (tag[0 := xor (tag ! 0) 0xFF])
      (replicate (length ct) 0) e1 = Some (False, pt', e2)"
    using aes.altered_tag_refused [OF ready ready length_TEST_KEY small enc(1)] by blast
  show ?thesis
    unfolding test_rejects_tampered_tag_def Let_def enc by (simp add: dec)
qed

section \<open>The storage engine\<close>

definition storage_test ::
  "('w, 'h, 's) store_api \<Rightarrow> (('w, 'h, 's) storage \<Rightarrow> string list \<times> ('w, 'h, 's) storage) \<Rightarrow> 'w env \<Rightarrow>
   string list \<times> ('w, 'h, 's) storage" where
  \<comment> \<open>the fixture: \<open>SetUp\<close>, the body, \<open>TearDown\<close> and the destructor\<close>
  "storage_test api body e =
     (let (ok, s) = init_engine api (storage_new '':memory:'' e);
          (failed, s) = (if ok then body s else ([''Failed to initialize SQLite database.''], s))
      in (failed, storage_destroy api (close_engine api s)))"

definition test_frame :: telemetry_data where
  "test_frame =
     \<lparr>robot_id = ''amr_test_node'', sensor_type = ''battery'', timestamp_ns = 1700000000000000000,
      sequence_id = 42, payload_values = [(''voltage'', 0x4038800000000000)]\<rparr>"

definition insert_and_query ::
  "('w, 'h, 's) store_api \<Rightarrow> ('w, 'h, 's) storage \<Rightarrow> string list \<times> ('w, 'h, 's) storage" where
  "insert_and_query api s =
     (let (insert_ok, s) = insert_telemetry api test_frame s;
          failed = (if insert_ok then [] else [''insert_ok'']);
          (results, s) = query_telemetry api ''amr_test_node'' 10 s
      in if length results \<noteq> 1 then (failed @ [''results.size()''], s)
         else (failed @ (if robot_id (results ! 0) = ''amr_test_node'' then [] else [''robot_id'']) @
               (if sequence_id (results ! 0) = 42 then [] else [''sequence_id'']), s))"

definition test_insert_and_query ::
  "('w, 'h, 's) store_api \<Rightarrow> 'w env \<Rightarrow> string list \<times> ('w, 'h, 's) storage" where
  "test_insert_and_query api e = storage_test api (insert_and_query api) e"

lemma query_ready:
  "init_done s \<Longrightarrow> is_initialized s \<Longrightarrow> query_telemetry api r n s = ([], s)"
  by (simp add: query_telemetry_def ensure_initialized_def)

lemma storage_test_result:
  assumes laws: "engine_laws api view" and txn: "v_txn (view (ext e)) = None"
    and alone: "no_connection (view (ext e))"
    and run: "test_insert_and_query api e = (failed, s')"
  shows "\<exists>ok s1 body s2. init_engine api (storage_new '':memory:'' e) = (ok, s1) \<and>
           insert_and_query api s1 = (body, s2) \<and>
           (if ok
            then failed = body \<and>
              (body = [''results.size()''] \<and>
                 stored_rows view s2 = v_rows (view (ext e)) @ [telemetry_row (map_order api) test_frame] \<or>
               body = [''insert_ok'', ''results.size()''] \<and> stored_rows view s2 = v_rows (view (ext e)))
            else failed = [''Failed to initialize SQLite database.''])"
proof -
  let ?s0 = "storage_new '':memory:'' e"
  obtain ok s1 where i: "init_engine api ?s0 = (ok, s1)"
    by (cases "init_engine api ?s0")
  obtain body s2 where b: "insert_and_query api s1 = (body, s2)"
    by (cases "insert_and_query api s1")
  have new: "no_connection (view (ext ?s0))" "\<not> is_initialized ?s0" "\<not> init_done ?s0"
    "stored_rows view ?s0 = v_rows (view (ext e))" "open_txn view ?s0 = None"
    using txn alone by (simp_all add: storage_new_def storage.defs env.defs stored_rows_def open_txn_def)
  have failed: "failed = (if ok then body else [''Failed to initialize SQLite database.''])"
    using run i b by (cases ok) (simp_all add: test_insert_and_query_def storage_test_def)
  moreover have "body = [''results.size()''] \<and>
        stored_rows view s2 = v_rows (view (ext e)) @ [telemetry_row (map_order api) test_frame] \<or>
      body = [''insert_ok'', ''results.size()''] \<and> stored_rows view s2 = v_rows (view (ext e))" if ok
  proof -
    have "open_laws_in no_connection api view"
      using laws by (simp add: engine_laws_def)
    from init_engine_success [OF this new(1-3)] i that
    have inv: "live_inv api view s1" and rows: "stored_rows view s1 = v_rows (view (ext e))"
      using laws new(4,5) by (simp_all add: live_inv_def)
    obtain ok2 s3 where ins: "insert_telemetry api test_frame s1 = (ok2, s3)"
      by (cases "insert_telemetry api test_frame s1")
    have "init_done s3" "is_initialized s3"
      using live_store.insert_inv [OF inv ins] by (simp_all add: live_inv_def engine_ready_def)
    then have "body = (if ok2 then [] else [''insert_ok'']) @ [''results.size()'']" "s2 = s3"
      using b ins by (auto simp: insert_and_query_def query_ready Let_def)
    then show ?thesis
      using live_store.insert_rows [OF inv ins] rows by (cases ok2) simp_all
  qed
  ultimately show ?thesis
    using i b by (intro exI [of _ ok] exI [of _ s1] exI [of _ body] exI [of _ s2]) simp
qed

section \<open>The property\<close>

text \<open>C35. What the unit tests of the repository yield. Under the documented behaviour of OpenSSL both
  tests of the security engine pass. The test of the storage engine, on a database in memory, never
  passes, whatever SQLite does. Only the check of the query's result fails exactly when the engine came up
  and the insert has stored the row: it is in the table at the end of the test's body, before \<^verbatim>\<open>TearDown\<close>
  closes the engine, and yet the query, which is always empty, does not return it.\<close>

theorem unit_tests_outcome:
  fixes e :: "'w env" and e2 :: "'v env"
  assumes "evp_gcm_laws evp seal unseal" and "\<forall>w. fst (evp_ctx_new evp w) \<noteq> None"
    and "engine_laws api view" and "v_txn (view (ext e2)) = None" and "no_connection (view (ext e2))"
    and "test_insert_and_query api e2 = (failed, s')"
  shows "(\<exists>e'. test_encrypt_decrypt_roundtrip evp e = Some ([], e')) \<and>
         (\<exists>e'. test_rejects_tampered_tag evp e = Some ([], e')) \<and>
         failed \<noteq> [] \<and>
         (failed = [''results.size()''] \<longleftrightarrow>
            (\<exists>s1 s2. init_engine api (storage_new '':memory:'' e2) = (True, s1) \<and>
               insert_and_query api s1 = (failed, s2) \<and>
               stored_rows view s2 = v_rows (view (ext e2)) @ [telemetry_row (map_order api) test_frame]))"
proof -
  obtain ok s1 body s2 where run: "init_engine api (storage_new '':memory:'' e2) = (ok, s1)"
    "insert_and_query api s1 = (body, s2)"
    and outcome: "if ok
        then failed = body \<and>
          (body = [''results.size()''] \<and>
             stored_rows view s2 = v_rows (view (ext e2)) @ [telemetry_row (map_order api) test_frame] \<or>
           body = [''insert_ok'', ''results.size()''] \<and> stored_rows view s2 = v_rows (view (ext e2)))
        else failed = [''Failed to initialize SQLite database.'']"
    using storage_test_result [OF assms(3-6)] by blast
  have "failed \<noteq> [] \<and>
      (failed = [''results.size()''] \<longleftrightarrow>
         ok \<and> stored_rows view s2 = v_rows (view (ext e2)) @ [telemetry_row (map_order api) test_frame])"
    using outcome by (cases ok) auto
  moreover have "failed = body" if ok
    using outcome that by simp
  ultimately show ?thesis
    using roundtrip_test_passes [OF assms(1,2)] tampered_test_passes [OF assms(1,2)] run by auto
qed

theorem unit_tests_outcome_witness:
  "(\<exists>e'. test_rejects_tampered_tag (demo_evp True) demo_env = Some ([], e')) \<and>
   fst (test_insert_and_query (demo_store False False ''mallory'') demo_world) \<noteq> []"
proof -
  have ctx: "\<forall>w. fst (evp_ctx_new (demo_evp True) w) \<noteq> None"
    by (simp add: demo_evp_def)
  have world: "v_txn (demo_view (ext demo_world)) = None" "no_connection (demo_view (ext demo_world))"
    by (simp_all add: demo_world_def demo_view_def no_connection_def)
  show ?thesis
    using unit_tests_outcome [OF demo_evp_laws ctx sqlite_laws_engine [OF demo_sqlite_laws] world
        surjective_pairing] by blast
qed

end
