(* ===== verification/Config_Manager.thy ===== *)
theory Config_Manager
  imports Prelude
begin

text \<open>
  \<^verbatim>\<open>utils::ConfigManager\<close> (utils/config_manager.hpp and .cpp): a YAML document in memory and the
  retrieval of parameters by a dotted path.

  The YAML library and the file system are parameters: \<open>yaml_api\<close> has one function per call of the
  source, on an opaque node type \<open>'y\<close> and the opaque world \<open>'w\<close>. The template parameter of \<^verbatim>\<open>get\<close> is
  the conversion \<^verbatim>\<open>as<T>()\<close>, a function that can throw. The clone of the root that \<^verbatim>\<open>navigate_path\<close> takes,
  so that indexing a missing key does not change the document, is the value itself. Every member
  function holds \<^verbatim>\<open>mutex_\<close> to its end, so a history is a sequence of these operations.
\<close>

section \<open>The YAML library, as a parameter\<close>

datatype load_error = Yaml_Exception string | General_Exception string

record ('w, 'y) yaml_api =
  file_text :: "string \<Rightarrow> 'w \<Rightarrow> string option"
  yaml_load :: "string \<Rightarrow> load_error + 'y"
  node_defined :: "'y \<Rightarrow> bool"
  node_is_map :: "'y \<Rightarrow> bool"
  node_is_null :: "'y \<Rightarrow> bool"
  node_index :: "'y \<Rightarrow> string \<Rightarrow> exn + 'y"
  node_new :: 'y

section \<open>The manager\<close>

record ('w, 'y) config = "'w env" +
  root_node :: 'y
  is_loaded :: bool

definition config_new :: "('w, 'y) yaml_api \<Rightarrow> 'w env \<Rightarrow> ('w, 'y) config" where
  "config_new api e = env.extend e (config.fields (node_new api) False)"

definition load_file :: "('w, 'y) yaml_api \<Rightarrow> string \<Rightarrow> ('w, 'y) config \<Rightarrow> bool \<times> ('w, 'y) config" where
  "load_file api path c =
     (case file_text api path (ext c) of
        None \<Rightarrow>
          (False,
           (log_msg Error (''ConfigManager: Failed to open configuration file at '{}'' @ [CHR 0x27])
              [path] c)\<lparr>is_loaded := False\<rparr>)
      | Some text \<Rightarrow>
          (case yaml_load api text of
             Inr node \<Rightarrow>
               (True,
                log_msg Info
                  (''ConfigManager: Successfully loaded configuration file from '{}'' @ [CHR 0x27]) [path]
                  (c\<lparr>root_node := node, is_loaded := True\<rparr>))
           | Inl (Yaml_Exception what) \<Rightarrow>
               (False,
                (log_msg Error ''ConfigManager: YAML parsing exception in '{}': {}'' [path, what] c)
                  \<lparr>is_loaded := False\<rparr>)
           | Inl (General_Exception what) \<Rightarrow>
               (False,
                (log_msg Error ''ConfigManager: General error loading configuration file: {}'' [what] c)
                  \<lparr>is_loaded := False\<rparr>)))"

function path_segments :: "string \<Rightarrow> string list" where
  \<comment> \<open>the results of \<open>std::getline(ss, segment, '.')\<close> until it fails: the text up to the next dot,
      which is consumed; nothing when the stream is at its end\<close>
  "path_segments s =
     (if s = [] then []
      else takeWhile (\<lambda>c. c \<noteq> CHR ''.'') s # path_segments (drop 1 (dropWhile (\<lambda>c. c \<noteq> CHR ''.'') s)))"
  by pat_completeness auto

termination
proof (relation "measure length")
  fix s :: string
  assume s: "s \<noteq> []"
  have "length (drop 1 (dropWhile (\<lambda>c. c \<noteq> CHR ''.'') s)) < length s"
  proof (cases "dropWhile (\<lambda>c. c \<noteq> CHR ''.'') s")
    case Nil
    then show ?thesis using s unfolding Nil by simp
  next
    case (Cons c rest)
    then have "length (c # rest) \<le> length s"
      using length_dropWhile_le [of "\<lambda>c. c \<noteq> CHR ''.''" s] by simp
    then show ?thesis by (simp add: Cons)
  qed
  then show "(drop 1 (dropWhile (\<lambda>c. c \<noteq> CHR ''.'') s), s) \<in> measure length"
    by simp
qed simp

declare path_segments.simps [simp del]

fun navigate_segments :: "('w, 'y) yaml_api \<Rightarrow> string list \<Rightarrow> 'y \<Rightarrow> exn + 'y" where
  "navigate_segments api [] node = Inr node"
| "navigate_segments api (segment # rest) node =
     (if \<not> node_defined api node \<or> \<not> node_is_map api node then Inr (node_new api)
      else case node_index api node segment of
             Inl x \<Rightarrow> Inl x
           | Inr node \<Rightarrow> navigate_segments api rest node)"

definition navigate_path :: "('w, 'y) yaml_api \<Rightarrow> string \<Rightarrow> ('w, 'y) config \<Rightarrow> exn + 'y" where
  "navigate_path api key_path c = navigate_segments api (path_segments key_path) (root_node c)"

definition config_get ::
  "('w, 'y) yaml_api \<Rightarrow> ('y \<Rightarrow> exn + 'a) \<Rightarrow> string \<Rightarrow> 'a \<Rightarrow> ('w, 'y) config \<Rightarrow> 'a" where
  "config_get api as_T key_path fallback c =
     (if \<not> is_loaded c then fallback
      else case navigate_path api key_path c of
             Inl x \<Rightarrow> fallback
           | Inr node \<Rightarrow>
               if node_defined api node \<and> \<not> node_is_null api node
               then (case as_T node of Inl x \<Rightarrow> fallback | Inr v \<Rightarrow> v)
               else fallback)"

definition config_is_loaded :: "('w, 'y) config \<Rightarrow> bool" where
  \<comment> \<open>the member function \<open>is_loaded\<close>\<close>
  "config_is_loaded c = is_loaded c"

section \<open>Dotted paths\<close>

fun join_path :: "string list \<Rightarrow> string" where
  "join_path [] = []"
| "join_path [k] = k"
| "join_path (k # ks) = k @ ''.'' @ join_path ks"

definition plain_key :: "string \<Rightarrow> bool" where
  "plain_key k \<longleftrightarrow> k \<noteq> [] \<and> CHR ''.'' \<notin> set k"

lemma path_segments_nil [simp]: "path_segments [] = []"
  by (simp add: path_segments.simps)

lemma path_segments_key: "plain_key k \<Longrightarrow> path_segments k = [k]"
proof -
  assume k: "plain_key k"
  have "takeWhile (\<lambda>c. c \<noteq> CHR ''.'') k = k" "dropWhile (\<lambda>c. c \<noteq> CHR ''.'') k = []"
    using k by (auto simp: plain_key_def)
  then show "path_segments k = [k]"
    using k by (subst path_segments.simps) (simp only: plain_key_def if_False drop_Nil path_segments_nil)
qed

lemma path_segments_dot:
  assumes "CHR ''.'' \<notin> set k"
  shows "path_segments (k @ ''.'' @ rest) = k # path_segments rest"
proof -
  have "takeWhile (\<lambda>c. c \<noteq> CHR ''.'') (k @ CHR ''.'' # rest) = k"
    "dropWhile (\<lambda>c. c \<noteq> CHR ''.'') (k @ CHR ''.'' # rest) = CHR ''.'' # rest"
    using assms by (induction k) auto
  then show ?thesis
    by (subst path_segments.simps) simp
qed

lemma path_segments_join: "list_all plain_key ks \<Longrightarrow> path_segments (join_path ks) = ks"
proof (induction ks rule: join_path.induct)
  case 1
  then show ?case by simp
next
  case (2 k)
  then show ?case by (simp add: path_segments_key)
next
  case (3 k k2 ks)
  then have "CHR ''.'' \<notin> set k" by (simp add: plain_key_def)
  with path_segments_dot [OF this, of "join_path (k2 # ks)"] 3 show ?case by simp
qed

section \<open>The documents\<close>

text \<open>
  A YAML document as the program sees it: scalars, sequences and maps. \<open>lookup\<close> is the meaning of a
  path. \<open>yaml_laws\<close> states what yaml-cpp documents of the calls: \<open>rep\<close> relates its nodes to documents,
  \<open>None\<close> being the node of a missing key, which is not defined; a new node is null, which is defined.
\<close>

datatype yaml = Y_Null | Y_Scalar string | Y_Seq "yaml list" | Y_Map "(string \<times> yaml) list"

fun lookup_path :: "string list \<Rightarrow> yaml \<Rightarrow> yaml option" where
  "lookup_path [] doc = Some doc"
| "lookup_path (k # ks) (Y_Map ms) = (case map_of ms k of None \<Rightarrow> None | Some doc \<Rightarrow> lookup_path ks doc)"
| "lookup_path (k # ks) _ = None"

definition yaml_laws :: "('w, 'y) yaml_api \<Rightarrow> ('y \<Rightarrow> yaml option) \<Rightarrow> bool" where
  "yaml_laws api rep \<longleftrightarrow>
     (\<forall>n. node_defined api n = (rep n \<noteq> None)) \<and>
     (\<forall>n. node_is_map api n = (\<exists>ms. rep n = Some (Y_Map ms))) \<and>
     (\<forall>n. node_is_null api n = (rep n = None \<or> rep n = Some Y_Null)) \<and>
     (\<forall>n ms k. rep n = Some (Y_Map ms) \<longrightarrow> (\<exists>m. node_index api n k = Inr m \<and> rep m = map_of ms k)) \<and>
     rep (node_new api) = Some Y_Null"

lemma navigate_lookup:
  assumes laws: "yaml_laws api rep"
  shows "rep node = Some doc \<Longrightarrow>
    \<exists>m. navigate_segments api ks node = Inr m \<and>
        (case lookup_path ks doc of None \<Rightarrow> rep m = None \<or> rep m = Some Y_Null | Some d \<Rightarrow> rep m = Some d)"
proof (induction ks arbitrary: node doc)
  case Nil
  then show ?case by simp
next
  case (Cons k ks)
  have new: "rep (node_new api) = Some Y_Null"
    using laws by (simp add: yaml_laws_def)
  show ?case
  proof (cases "\<exists>ms. doc = Y_Map ms")
    case False
    then have "navigate_segments api (k # ks) node = Inr (node_new api)" "lookup_path (k # ks) doc = None"
      using laws Cons.prems by (auto simp: yaml_laws_def split: yaml.splits) (cases doc; simp)
    with new show ?thesis by simp
  next
    case True
    then obtain ms where ms: "doc = Y_Map ms" by blast
    then obtain m where m: "node_index api node k = Inr m" "rep m = map_of ms k"
      using laws Cons.prems unfolding yaml_laws_def by blast
    have step: "navigate_segments api (k # ks) node = navigate_segments api ks m"
      using laws Cons.prems ms m(1) by (auto simp: yaml_laws_def)
    show ?thesis
    proof (cases "map_of ms k")
      case (Some d)
      with Cons.IH [of m d] m(2) step ms show ?thesis by simp
    next
      case None
      then have "navigate_segments api ks m \<in> {Inr m, Inr (node_new api)}"
        using laws m(2) by (cases ks) (auto simp: yaml_laws_def)
      with None m(2) step ms new show ?thesis by auto
    qed
  qed
qed

lemma config_get_lookup:
  assumes laws: "yaml_laws api rep" and loaded: "is_loaded c" "rep (root_node c) = Some doc"
    and as_T: "\<And>n. rep n \<noteq> None \<Longrightarrow> as_T n = conv (the (rep n))"
  shows "config_get api as_T path fallback c =
    (case lookup_path (path_segments path) doc of
       None \<Rightarrow> fallback
     | Some d \<Rightarrow> if d = Y_Null then fallback else (case conv d of Inl x \<Rightarrow> fallback | Inr v \<Rightarrow> v))"
proof -
  obtain m where m: "navigate_segments api (path_segments path) (root_node c) = Inr m"
    "case lookup_path (path_segments path) doc of None \<Rightarrow> rep m = None \<or> rep m = Some Y_Null | Some d \<Rightarrow> rep m = Some d"
    using navigate_lookup [OF laws loaded(2)] by blast
  have flags: "node_defined api m = (rep m \<noteq> None)" "node_is_null api m = (rep m = None \<or> rep m = Some Y_Null)"
    using laws by (simp_all add: yaml_laws_def)
  show ?thesis
    using m as_T [of m] loaded(1) flags
    by (auto simp: config_get_def navigate_path_def split: option.splits)
qed

end
