(* ===== verification/Logger.thy ===== *)
theory Logger
  imports Prelude
begin

text \<open>
  \<^verbatim>\<open>utils::Logger\<close> (utils/logger.hpp and .cpp): the global logger, its lazy initialisation, and what a
  logging macro does with it. In the other theories a logging macro appends to the log of the
  environment; here is the condition under which it does.

  The spdlog library is a parameter: \<open>spdlog_api\<close> has one function per call, on opaque sinks \<open>'k\<close>,
  loggers \<open>'l\<close> and the opaque world \<open>'w\<close>; the constructors and the registration can throw.
\<close>

section \<open>spdlog, as a parameter\<close>

datatype spd_error = Spdlog_Ex string | Other_Error string

record ('w, 'k, 'l) spdlog_api =
  new_console_sink :: "'w \<Rightarrow> (spd_error + 'k) \<times> 'w"
  new_rotating_sink :: "string \<Rightarrow> u64 \<Rightarrow> u64 \<Rightarrow> 'w \<Rightarrow> (spd_error + 'k) \<times> 'w"
  sink_set_level :: "log_level \<Rightarrow> 'k \<Rightarrow> 'k"
  new_logger :: "string \<Rightarrow> 'k list \<Rightarrow> 'l"
  logger_set_pattern :: "string \<Rightarrow> 'l \<Rightarrow> 'l"
  logger_set_level :: "log_level \<Rightarrow> 'l \<Rightarrow> 'l"
  logger_flush_on :: "log_level \<Rightarrow> 'l \<Rightarrow> 'l"
  spd_register :: "'l \<Rightarrow> 'w \<Rightarrow> (spd_error + unit) \<times> 'w"
  logger_log :: "'l \<Rightarrow> log_level \<Rightarrow> string \<Rightarrow> string list \<Rightarrow> 'w \<Rightarrow> 'w"
  logger_do_flush :: "'l \<Rightarrow> 'w \<Rightarrow> 'w"

section \<open>The logger\<close>

record ('w, 'l) logger_state =
  log_world :: 'w
  logger_instance :: "'l option"
  cerr :: "string list"

definition max_bytes :: "u64 \<Rightarrow> u64" where
  "max_bytes max_file_size_mb = max_file_size_mb * 1024 * 1024"

definition log_pattern :: string where
  "log_pattern = ''[%Y-%m-%d %H:%M:%S.%e] [%n] [%^%l%$] [thread %t] %v''"

definition catch_spdlog :: "spd_error \<Rightarrow> ('w, 'l) logger_state \<Rightarrow> (spd_error + unit) \<times> ('w, 'l) logger_state" where
  \<comment> \<open>the catch clause: \<open>spdlog_ex\<close> is printed and swallowed, any other exception goes on\<close>
  "catch_spdlog x s =
     (case x of
        Spdlog_Ex what \<Rightarrow>
          (Inr (), s\<lparr>cerr := cerr s @ [''[CRITICAL] Logger initialization failed: '' @ what]\<rparr>)
      | Other_Error what \<Rightarrow> (Inl x, s))"

definition install_logger ::
  "('w, 'k, 'l) spdlog_api \<Rightarrow> string \<Rightarrow> 'k list \<Rightarrow> ('w, 'l) logger_state \<Rightarrow>
   (spd_error + unit) \<times> ('w, 'l) logger_state" where
  \<comment> \<open>from the construction of the logger to the end of the try block\<close>
  "install_logger api name sinks s =
     (let l = new_logger api name sinks;
          l = logger_set_pattern api log_pattern l;
          l = logger_set_level api Trace l;
          l = logger_flush_on api Error l;
          s = s\<lparr>logger_instance := Some l\<rparr>;
          (r, w) = spd_register api l (log_world s);
          s = s\<lparr>log_world := w\<rparr>
      in case r of Inl x \<Rightarrow> catch_spdlog x s | Inr _ \<Rightarrow> (Inr (), s))"

definition logger_init ::
  "('w, 'k, 'l) spdlog_api \<Rightarrow> string \<Rightarrow> string \<Rightarrow> u64 \<Rightarrow> u64 \<Rightarrow> ('w, 'l) logger_state \<Rightarrow>
   (spd_error + unit) \<times> ('w, 'l) logger_state" where
  "logger_init api logger_name log_file_path max_file_size_mb max_files s =
     (let (console, w) = new_console_sink api (log_world s); s = s\<lparr>log_world := w\<rparr>
      in case console of Inl x \<Rightarrow> catch_spdlog x s | Inr console_sink \<Rightarrow>
        let console_sink = sink_set_level api Trace console_sink;
            (rot, w) = new_rotating_sink api log_file_path (max_bytes max_file_size_mb) max_files
                          (log_world s);
            s = s\<lparr>log_world := w\<rparr>
        in case rot of Inl x \<Rightarrow> catch_spdlog x s | Inr file_sink \<Rightarrow>
             install_logger api logger_name [console_sink, sink_set_level api Trace file_sink] s)"

definition logger_init_default ::
  "('w, 'k, 'l) spdlog_api \<Rightarrow> ('w, 'l) logger_state \<Rightarrow> (spd_error + unit) \<times> ('w, 'l) logger_state" where
  \<comment> \<open>\<open>init()\<close> with its default arguments\<close>
  "logger_init_default api s = logger_init api ''gateway'' ''logs/gateway.log'' 10 5 s"

definition get_logger ::
  "('w, 'k, 'l) spdlog_api \<Rightarrow> ('w, 'l) logger_state \<Rightarrow>
   (spd_error + 'l option) \<times> ('w, 'l) logger_state" where
  \<comment> \<open>the pointer it returns may be null\<close>
  "get_logger api s =
     (case logger_instance s of
        Some l \<Rightarrow> (Inr (Some l), s)
      | None \<Rightarrow>
          (case logger_init_default api s of
             (Inl x, s) \<Rightarrow> (Inl x, s)
           | (Inr _, s) \<Rightarrow> (Inr (logger_instance s), s)))"

definition logger_flush :: "('w, 'k, 'l) spdlog_api \<Rightarrow> ('w, 'l) logger_state \<Rightarrow> ('w, 'l) logger_state" where
  "logger_flush api s =
     (case logger_instance s of
        None \<Rightarrow> s
      | Some l \<Rightarrow> s\<lparr>log_world := logger_do_flush api l (log_world s)\<rparr>)"

definition log_macro ::
  "('w, 'k, 'l) spdlog_api \<Rightarrow> log_level \<Rightarrow> string \<Rightarrow> string list \<Rightarrow> ('w, 'l) logger_state \<Rightarrow>
   ((spd_error + unit) \<times> ('w, 'l) logger_state) option" where
  \<comment> \<open>\<open>LOG_<level>(fmt, args)\<close>; \<open>None\<close>: a call through the null pointer\<close>
  "log_macro api level fmt args s =
     (case get_logger api s of
        (Inl x, s) \<Rightarrow> Some (Inl x, s)
      | (Inr None, s) \<Rightarrow> None
      | (Inr (Some l), s) \<Rightarrow>
          Some (Inr (), s\<lparr>log_world := logger_log api l level fmt args (log_world s)\<rparr>))"

section \<open>Lemmas\<close>

lemma catch_spdlog_instance:
  "catch_spdlog x s = (r, s') \<Longrightarrow> logger_instance s' = logger_instance s"
  by (auto simp: catch_spdlog_def split: spd_error.splits)

lemma install_logger_instance:
  "install_logger api name sinks s = (r, s') \<Longrightarrow> logger_instance s' \<noteq> None"
  by (auto simp: install_logger_def Let_def dest!: catch_spdlog_instance split: prod.splits sum.splits)

text \<open>A logger that exists stays: an initialisation that fails keeps the old one.\<close>

lemma logger_init_instance:
  "logger_init api name path mb files s = (r, s') \<Longrightarrow>
   logger_instance s \<noteq> None \<Longrightarrow> logger_instance s' \<noteq> None"
  by (auto simp: logger_init_def Let_def dest!: catch_spdlog_instance install_logger_instance
      split: prod.splits sum.splits)

lemma logger_flush_instance [simp]: "logger_instance (logger_flush api s) = logger_instance s"
  by (simp add: logger_flush_def split: option.splits)

datatype logger_cmd =
    Logger_Init string string u64 u64
  | Logger_Flush
  | Logger_Log log_level string "string list"

fun logger_cmd_run ::
  "('w, 'k, 'l) spdlog_api \<Rightarrow> logger_cmd \<Rightarrow> ('w, 'l) logger_state \<Rightarrow> ('w, 'l) logger_state option" where
  \<comment> \<open>the state after a command, exceptions included; \<open>None\<close>: the null pointer\<close>
  "logger_cmd_run api (Logger_Init name path mb files) s = Some (snd (logger_init api name path mb files s))"
| "logger_cmd_run api Logger_Flush s = Some (logger_flush api s)"
| "logger_cmd_run api (Logger_Log level fmt args) s = map_option snd (log_macro api level fmt args s)"

fun logger_history ::
  "('w, 'k, 'l) spdlog_api \<Rightarrow> logger_cmd list \<Rightarrow> ('w, 'l) logger_state \<Rightarrow> ('w, 'l) logger_state option" where
  "logger_history api [] s = Some s"
| "logger_history api (c # cs) s =
     (case logger_cmd_run api c s of None \<Rightarrow> None | Some s \<Rightarrow> logger_history api cs s)"

lemma logger_cmd_safe:
  assumes "logger_instance s \<noteq> None"
  shows "\<exists>s'. logger_cmd_run api c s = Some s' \<and> logger_instance s' \<noteq> None"
proof (cases c)
  case (Logger_Init name path mb files)
  then show ?thesis
    using logger_init_instance [OF surjective_pairing assms] by auto
qed (use assms in \<open>auto simp: log_macro_def get_logger_def logger_init_default_def\<close>)

lemma logger_history_safe:
  "logger_instance s \<noteq> None \<Longrightarrow> \<exists>s'. logger_history api cs s = Some s' \<and> logger_instance s' \<noteq> None"
proof (induction cs arbitrary: s)
  case Nil
  then show ?case by simp
next
  case (Cons c cs)
  then show ?case using logger_cmd_safe [OF Cons.prems, of api c] by auto
qed

end
