(* ===== verification/Utility_Properties.thy ===== *)
theory Utility_Properties
  imports Config_Manager Logger
begin

text \<open>The properties of the configuration manager and of the logger.\<close>

section \<open>The configuration manager\<close>

definition demo_yaml_api :: "(string \<times> string) list \<Rightarrow> (string \<times> yaml) list \<Rightarrow> (unit, yaml option) yaml_api" where
  \<comment> \<open>a file system of two tables: the texts of the files, and the documents of the texts\<close>
  "demo_yaml_api files docs =
     \<lparr>file_text = (\<lambda>path w. map_of files path),
      yaml_load = (\<lambda>text. case map_of docs text of
                     None \<Rightarrow> Inl (Yaml_Exception ''yaml-cpp: error'') | Some d \<Rightarrow> Inr (Some d)),
      node_defined = (\<lambda>n. n \<noteq> None),
      node_is_map = (\<lambda>n. case n of Some (Y_Map ms) \<Rightarrow> True | _ \<Rightarrow> False),
      node_is_null = (\<lambda>n. n = None \<or> n = Some Y_Null),
      node_index = (\<lambda>n k. case n of Some (Y_Map ms) \<Rightarrow> Inr (map_of ms k)
                                  | _ \<Rightarrow> Inl (Other_exception ''bad subscript'')),
      node_new = Some Y_Null\<rparr>"

lemma demo_yaml_laws: "yaml_laws (demo_yaml_api files docs) id"
proof -
  have "(case n of Some (Y_Map ms) \<Rightarrow> True | _ \<Rightarrow> False) = (\<exists>ms. n = Some (Y_Map ms))" for n
    by (auto split: option.splits yaml.splits)
  then show ?thesis
    by (simp add: yaml_laws_def demo_yaml_api_def)
qed

definition demo_doc :: yaml where
  \<comment> \<open>\<open>gateway: {telemetry: {queue_capacity: 500}, name: ~}\<close>\<close>
  "demo_doc = Y_Map [(''gateway'', Y_Map
     [(''telemetry'', Y_Map [(''queue_capacity'', Y_Scalar ''500'')]), (''name'', Y_Null)])]"

fun scalar_text :: "yaml \<Rightarrow> exn + string" where
  "scalar_text (Y_Scalar s) = Inr s"
| "scalar_text _ = Inl (Other_exception ''bad conversion'')"

abbreviation demo_yaml :: "(unit, yaml option) yaml_api" where
  "demo_yaml \<equiv> demo_yaml_api [(''gateway.yaml'', ''text''), (''broken.yaml'', ''{'')] [(''text'', demo_doc)]"

definition demo_config :: "(unit, yaml option) config" where
  "demo_config = config_new demo_yaml \<lparr>ext = (), logs = []\<rparr>"

text \<open>After a load, the value of a dotted path of non-empty keys is the converted scalar at the end
  of the path; a missing key anywhere on the way, a step through something that is no map, a null value
  and a failing conversion all give the default. Nothing else does, and nothing is ever thrown.\<close>

theorem config_get_meaning:
  assumes "yaml_laws api rep" and "is_loaded c" "rep (root_node c) = Some doc"
    and "\<And>n. rep n \<noteq> None \<Longrightarrow> as_T n = conv (the (rep n))"
    and "list_all plain_key keys"
  shows "config_get api as_T (join_path keys) fallback c =
    (case lookup_path keys doc of
       None \<Rightarrow> fallback
     | Some d \<Rightarrow> if d = Y_Null then fallback else (case conv d of Inl x \<Rightarrow> fallback | Inr v \<Rightarrow> v))"
  using config_get_lookup [of api rep c doc as_T conv, OF assms(1-4)] path_segments_join [OF assms(5)]
  by simp

theorem config_get_meaning_witness:
  "config_get demo_yaml (\<lambda>n. scalar_text (the n)) ''gateway.telemetry.queue_capacity'' ''1000''
     (snd (load_file demo_yaml ''gateway.yaml'' demo_config)) = ''500''"
proof -
  let ?c = "snd (load_file demo_yaml ''gateway.yaml'' demo_config)"
  have c: "is_loaded ?c" "id (root_node ?c) = Some demo_doc"
    by (simp_all add: load_file_def demo_yaml_api_def demo_config_def config_new_def env.defs
        config.defs log_msg_def)
  have keys: "list_all plain_key [''gateway'', ''telemetry'', ''queue_capacity'']"
    by (simp add: plain_key_def)
  show ?thesis
    using config_get_meaning [of demo_yaml id ?c demo_doc "\<lambda>n. scalar_text (the n)" scalar_text
        "[''gateway'', ''telemetry'', ''queue_capacity'']" "''1000''", OF demo_yaml_laws c _ keys]
    by (simp add: demo_doc_def)
qed

text \<open>A load that succeeds replaces the document by the parsed text of the file; one that fails, for
  whatever reason, reports it, keeps the old document but makes every later \<^verbatim>\<open>get\<close> return its default
  until a load succeeds.\<close>

theorem load_file_outcome:
  assumes "load_file api path c = (ok, c')"
  shows "is_loaded c' = ok \<and>
         (ok \<longleftrightarrow> (\<exists>text node. file_text api path (ext c) = Some text \<and> yaml_load api text = Inr node)) \<and>
         (if ok then yaml_load api (the (file_text api path (ext c))) = Inr (root_node c')
          else root_node c' = root_node c \<and> config_get api as_T key fallback c' = fallback)"
proof (cases "file_text api path (ext c)")
  case None
  then show ?thesis
    using assms by (auto simp: load_file_def config_get_def log_msg_def)
next
  case (Some content)
  show ?thesis
  proof (cases "yaml_load api content")
    case (Inl x)
    then show ?thesis
      using assms Some by (cases x) (auto simp: load_file_def config_get_def log_msg_def)
  next
    case (Inr node)
    then show ?thesis
      using assms Some by (auto simp: load_file_def log_msg_def)
  qed
qed

theorem load_file_outcome_witness:
  "\<exists>c1 c2. load_file demo_yaml ''gateway.yaml'' demo_config = (True, c1) \<and>
     load_file demo_yaml ''broken.yaml'' c1 = (False, c2) \<and>
     config_get demo_yaml (\<lambda>n. scalar_text (the n)) ''gateway.telemetry.queue_capacity'' ''1000'' c2 = ''1000''"
proof -
  let ?c1 = "snd (load_file demo_yaml ''gateway.yaml'' demo_config)"
  let ?c2 = "snd (load_file demo_yaml ''broken.yaml'' ?c1)"
  have one: "load_file demo_yaml ''gateway.yaml'' demo_config = (True, ?c1)"
    by (simp add: load_file_def demo_yaml_api_def)
  have two: "load_file demo_yaml ''broken.yaml'' ?c1 = (False, ?c2)"
    by (simp add: load_file_def demo_yaml_api_def)
  note outcome = load_file_outcome [OF two, where as_T = "\<lambda>n. scalar_text (the n)"
      and key = "''gateway.telemetry.queue_capacity''" and fallback = "''1000''", unfolded if_False]
  show ?thesis
    using one two outcome by (intro exI [of _ ?c1] exI [of _ ?c2] conjI) (elim conjE, assumption)+
qed

text \<open>Histories of loads: only the flag, the document and the log change.\<close>

definition config_loads ::
  "('w, 'y) yaml_api \<Rightarrow> string list \<Rightarrow> ('w, 'y) config \<Rightarrow> ('w, 'y) config" where
  "config_loads api paths c = fold (\<lambda>path c. snd (load_file api path c)) paths c"

lemma load_file_ext: "ext (snd (load_file api path c)) = ext c"
  by (auto simp: load_file_def log_msg_def split: option.splits sum.splits load_error.splits)

lemma config_loads_ext: "ext (config_loads api paths c) = ext c"
  unfolding config_loads_def by (induction paths arbitrary: c) (simp_all add: load_file_ext)

lemma config_loads_snoc:
  "config_loads api (paths @ [path]) c = snd (load_file api path (config_loads api paths c))"
  by (simp add: config_loads_def)

text \<open>C36. The last load decides. After any sequence of loads, failed ones among them, the value of a
  dotted path of non-empty keys is the default when nothing was loaded or the last file could not be read
  or parsed, however good the earlier ones were. Otherwise it is the converted scalar at the end of the
  path in the document of the last file; a missing key on the way, a step through something that is no
  map, a null value and a failing conversion give the default. Nothing is ever thrown.\<close>

theorem config_last_load_decides:
  assumes laws: "yaml_laws api rep"
    and conv: "\<And>n. rep n \<noteq> None \<Longrightarrow> as_T n = conv (the (rep n))"
    and docs: "\<And>source node. yaml_load api source = Inr node \<Longrightarrow> rep node \<noteq> None"
    and keys: "list_all plain_key keys"
  shows "config_get api as_T (join_path keys) fallback (config_loads api paths (config_new api e)) =
    (if paths = [] then fallback
     else case Option.bind (file_text api (last paths) (ext e))
                 (\<lambda>source. case yaml_load api source of Inl x \<Rightarrow> None | Inr node \<Rightarrow> lookup_path keys (the (rep node))) of
       None \<Rightarrow> fallback
     | Some d \<Rightarrow> if d = Y_Null then fallback else (case conv d of Inl x \<Rightarrow> fallback | Inr v \<Rightarrow> v))"
proof (cases paths rule: rev_cases)
  case Nil
  then show ?thesis
    by (simp add: config_loads_def config_get_def config_new_def config.defs env.defs)
next
  case (snoc ps path)
  let ?c0 = "config_loads api ps (config_new api e)"
  obtain ok c where load: "load_file api path ?c0 = (ok, c)"
    by (cases "load_file api path ?c0")
  have ext0: "ext ?c0 = ext e"
    by (simp add: config_loads_ext config_new_def env.defs config.defs)
  note outcome = load_file_outcome [OF load, of as_T "join_path keys" fallback, unfolded ext0]
  have c: "config_loads api paths (config_new api e) = c"
    using load by (simp add: snoc config_loads_snoc)
  show ?thesis
  proof (cases ok)
    case False
    then show ?thesis
      using outcome unfolding c by (auto simp: snoc split: option.splits sum.splits bind_splits)
  next
    case True
    then obtain source node where loaded: "file_text api path (ext e) = Some source" "yaml_load api source = Inr node"
      "root_node c = node" "is_loaded c"
      using outcome by auto
    then obtain doc where doc: "rep (root_node c) = Some doc"
      using docs by fastforce
    have "config_get api as_T (join_path keys) fallback c =
      (case lookup_path keys doc of
         None \<Rightarrow> fallback
       | Some d \<Rightarrow> if d = Y_Null then fallback else (case conv d of Inl x \<Rightarrow> fallback | Inr v \<Rightarrow> v))"
      by (rule config_get_meaning [where rep = rep and as_T = as_T and conv = conv, OF laws loaded(4) doc conv keys])
    then show ?thesis
      using loaded doc unfolding c by (simp add: snoc)
  qed
qed

theorem config_last_load_decides_witness:
  "config_get demo_yaml (\<lambda>n. scalar_text (the n)) ''gateway.telemetry.queue_capacity'' ''1000''
     (config_loads demo_yaml [''missing.yaml'', ''gateway.yaml''] demo_config) = ''500'' \<and>
   config_get demo_yaml (\<lambda>n. scalar_text (the n)) ''gateway.telemetry.queue_capacity'' ''1000''
     (config_loads demo_yaml [''gateway.yaml'', ''broken.yaml''] demo_config) = ''1000''"
proof -
  have docs: "id node \<noteq> None" if "yaml_load demo_yaml source = Inr node" for source node
    using that by (auto simp: demo_yaml_api_def split: if_splits)
  have keys: "list_all plain_key [''gateway'', ''telemetry'', ''queue_capacity'']"
    by (simp add: plain_key_def)
  note decides = config_last_load_decides [of demo_yaml id "\<lambda>n. scalar_text (the n)" scalar_text
      "[''gateway'', ''telemetry'', ''queue_capacity'']" "''1000''" _ "\<lparr>ext = (), logs = []\<rparr>",
      OF demo_yaml_laws _ docs keys, folded demo_config_def]
  show ?thesis
    using decides [where paths = "[''missing.yaml'', ''gateway.yaml'']"]
      decides [where paths = "[''gateway.yaml'', ''broken.yaml'']"]
    by (simp add: demo_yaml_api_def demo_doc_def)
qed

section \<open>The logger\<close>

text \<open>C37. The first use of a logging macro before any initialisation: when the default sinks can be
  built, the macro and every later sequence of initialisations, flushes and macros run without touching
  a null pointer, even if the registration or a later initialisation throws. When the log file cannot be
  opened (an \<^verbatim>\<open>spdlog_ex\<close>), the failure is swallowed, the pointer stays null and the macro
  dereferences it.\<close>

theorem logger_first_use:
  assumes "logger_instance s = None" and "new_console_sink api (log_world s) = (Inr k, w)"
  shows "case fst (new_rotating_sink api ''logs/gateway.log'' 10485760 5 w) of
           Inr f \<Rightarrow> \<exists>s'. logger_history api (Logger_Log level fmt args # cs) s = Some s' \<and>
                     logger_instance s' \<noteq> None
         | Inl (Spdlog_Ex what) \<Rightarrow> log_macro api level fmt args s = None
         | Inl (Other_Error what) \<Rightarrow>
             map_option fst (log_macro api level fmt args s) = Some (Inl (Other_Error what))"
proof -
  obtain rot w2 where rot: "new_rotating_sink api ''logs/gateway.log'' 10485760 5 w = (rot, w2)"
    by (cases "new_rotating_sink api ''logs/gateway.log'' 10485760 5 w")
  have mb: "max_bytes 10 = 10485760"
    by (simp add: max_bytes_def)
  show ?thesis
  proof (cases rot)
    case (Inl x)
    then show ?thesis
      using assms rot mb
      by (auto simp: log_macro_def get_logger_def logger_init_default_def logger_init_def catch_spdlog_def
          split: spd_error.splits)
  next
    case (Inr f)
    obtain r s1 where i: "install_logger api ''gateway'' [sink_set_level api Trace k, sink_set_level api Trace f]
        (s\<lparr>log_world := w2\<rparr>) = (r, s1)"
      by (cases "install_logger api ''gateway'' [sink_set_level api Trace k, sink_set_level api Trace f]
        (s\<lparr>log_world := w2\<rparr>)")
    obtain l where l: "logger_instance s1 = Some l"
      using install_logger_instance [OF i] by blast
    have "logger_init api ''gateway'' ''logs/gateway.log'' 10 5 s = (r, s1)"
      using assms rot mb Inr i by (simp add: logger_init_def)
    then have "\<exists>s2. logger_cmd_run api (Logger_Log level fmt args) s = Some s2 \<and> logger_instance s2 \<noteq> None"
      using assms(1) l by (cases r) (auto simp: log_macro_def get_logger_def logger_init_default_def)
    then obtain s2 where s2: "logger_cmd_run api (Logger_Log level fmt args) s = Some s2"
      "logger_instance s2 \<noteq> None" by blast
    have "logger_history api (Logger_Log level fmt args # cs) s = logger_history api cs s2"
      unfolding logger_history.simps s2(1) by simp
    with logger_history_safe [OF s2(2), of api cs] show ?thesis
      using rot Inr by simp
  qed
qed

definition demo_spdlog :: "bool \<Rightarrow> (nat, unit, unit) spdlog_api" where
  \<comment> \<open>the world counts the lines; the argument says whether the log file can be opened\<close>
  "demo_spdlog file_ok =
     \<lparr>new_console_sink = (\<lambda>w. (Inr (), w)),
      new_rotating_sink = (\<lambda>path mb n w.
        (if file_ok then Inr () else Inl (Spdlog_Ex ''Failed opening file''), w)),
      sink_set_level = (\<lambda>l k. k), new_logger = (\<lambda>name sinks. ()), logger_set_pattern = (\<lambda>p l. l),
      logger_set_level = (\<lambda>v l. l), logger_flush_on = (\<lambda>v l. l), spd_register = (\<lambda>l w. (Inr (), w)),
      logger_log = (\<lambda>l v fmt args w. w + 1), logger_do_flush = (\<lambda>l w. w)\<rparr>"

theorem logger_first_use_witness:
  "log_macro (demo_spdlog False) Info ''hello'' [] \<lparr>log_world = 0, logger_instance = None, cerr = []\<rparr> = None \<and>
   logger_history (demo_spdlog True) [Logger_Log Info ''hello'' []]
     \<lparr>log_world = 0, logger_instance = None, cerr = []\<rparr> \<noteq> None"
  using logger_first_use [of "\<lparr>log_world = 0, logger_instance = None, cerr = []\<rparr>" "demo_spdlog False" "()" 0
      Info "''hello''" "[]" "[]"]
    logger_first_use [of "\<lparr>log_world = 0, logger_instance = None, cerr = []\<rparr>" "demo_spdlog True" "()" 0
      Info "''hello''" "[]" "[]"]
  by (simp add: demo_spdlog_def del: logger_history.simps) blast

end
