(* ===== verification/Spec2Isabelle.thy ===== *)
theory Spec2Isabelle
  imports Benchmark Concurrency_Properties Gateway_Spec Node_Sessions Pipeline_Properties Program_Properties Queue_Properties Telemetry_Properties Unit_Tests Utility_Properties
begin

text \<open>
  A verification development for the Secure ROS2 Gateway: the C++ program that receives encrypted
  telemetry packets from robots, authenticates and parses them, and stores and publishes the frames.

  \<^bold>\<open>The program.\<close> \<^verbatim>\<open>ros::GatewayNode\<close> receives a JSON envelope (sender, ciphertext, nonce, tag), asks
  \<^verbatim>\<open>security::SecurityEngine\<close> for the rate limit and the AES-256-GCM decryption, hands the text to
  \<^verbatim>\<open>ingestion::TelemetryIngestionEngine\<close>, and pushes the frame (\<^verbatim>\<open>models::TelemetryData\<close>) into a
  \<^verbatim>\<open>containers::ConcurrentQueue\<close>. Its worker thread pops frames, gives them to
  \<^verbatim>\<open>storage::StorageEngine\<close> (SQLite) and publishes ROS messages. \<^verbatim>\<open>utils::\<close> holds a second, blocking
  queue, the logger and the configuration manager; \<^verbatim>\<open>main.cpp\<close> is a program that only exercises the
  storage engine from four threads, and \<^verbatim>\<open>mock_telemetry_publisher.cpp\<close> builds and encrypts samples.

  \<^bold>\<open>The theories\<close>, in the order of their imports; paths are relative to \<^verbatim>\<open>src/src\<close> (\<^verbatim>\<open>.cpp\<close>) and
  \<^verbatim>\<open>src/include/secure_telemetry_gateway\<close> (\<^verbatim>\<open>.hpp\<close>).

  \<^item> \<open>Prelude\<close>: machine types, byte vectors, C strings, exceptions, the environment record \<open>env\<close> (the
    opaque world and the log) that the component states extend.
  \<^item> \<open>Rounding_Grid\<close>: the numbers of a binary format with any count of fraction bits, and rounding to the
    nearest of them, proved correct once for floats and doubles.
  \<^item> \<open>Floating_Point\<close>: the IEEE doubles and floats the sources use, as bit patterns:
    \<^verbatim>\<open>std::to_string\<close>, the conversion to float, the comparison of floats, and the arithmetic.
  \<^item> \<open>Float_Rounding\<close>: the conversion to float, the product and the sum of doubles are correctly rounded.
  \<^item> \<open>Telemetry\<close>: models/telemetry_data.hpp and telemetry/telemetry_data.hpp.
  \<^item> \<open>Bounded_Queue\<close>: containers/concurrent_queue.hpp, and the locales \<open>bounded_fifo\<close> and
    \<open>nonblocking_fifo\<close>, the contract of a bounded queue (no loss, no reordering, the bound).
  \<^item> \<open>Blocking_Queue\<close>: utils/concurrent_queue.hpp as a monitor: a step relation over any number of
    pending calls, with the invariant that counts sleepers and alert calls.
  \<^item> \<open>Security_Engine\<close>: security/security_engine.hpp and .cpp over a parameter for OpenSSL, and the
    locale \<open>aead_service\<close>, what a caller may rely on.
  \<^item> \<open>Ingestion\<close>: ingestion/telemetry_ingestion_engine.hpp and .cpp over a parameter for the JSON
    library; \<open>frame_of_json\<close> is the specification of the frame a document stands for.
  \<^item> \<open>Storage_Engine\<close>, \<open>Storage_Refinement\<close>, \<open>Storage_Contract\<close>, \<open>Payload_Text\<close>:
    storage/storage_engine.hpp and .cpp over a parameter for SQLite; the refinement to an append-only
    table (\<open>db_view\<close>; \<open>sqlite_laws\<close> for a database in a file, \<open>engine_laws\<close> for one in a file or in memory
    while it is open); the locales \<open>telemetry_store\<close> and \<open>batch_store\<close>, interpreted on
    the engine (\<open>store\<close>, \<open>live_store\<close> for any open database, and \<open>sound_store\<close> for an engine that may have
    failed to open); a reader for the payload text.
  \<^item> \<open>Storage_Threads\<close>: the calls of the storage engine as three steps each (\<^verbatim>\<open>std::call_once\<close>, the test
    of the atomic flag, the section under the mutex), schedules of any number of calls, the simulation of
    every schedule by the sequential operations, and the crash of a section on a null statement, after
    which nothing runs.
  \<^item> \<open>Storage_Sessions\<close>: engines constructed one after the other on the same database, ended by their
    destructor or by the death of the process.
  \<^item> \<open>Gateway_Node\<close>, \<open>Gateway_Threads\<close>: ros/gateway_node.hpp and .cpp: the operations, and the node as
    a system of three threads, with the locale \<open>packet_receiver\<close> for the message handler.
    \<open>node_endpoints\<close> are the topics the node subscribes to and publishes on.
  \<^item> \<open>Gateway_Spec\<close>: the abstract machine \<open>pipeline_spec\<close>, what the node promises, and the simulation of the
    node by it. \<open>Node_Sessions\<close>: nodes constructed one after the other on the same database.
  \<^item> \<open>Worker_Progress\<close>: the worker by itself, with the measures for its exit and for its queue.
  \<^item> \<open>Config_Manager\<close>, \<open>Logger\<close>: utils/config_manager.hpp and .cpp, utils/logger.hpp and .cpp.
  \<^item> \<open>Startup\<close>: main.cpp, its four threads with the steps of \<open>Storage_Threads\<close>, under any schedule.
  \<^item> \<open>Mock_Publisher\<close>, \<open>Mock_Readings\<close>: mock_telemetry_publisher.cpp, and the readings it computes.
  \<^item> \<open>Unit_Tests\<close>: test/test_security_engine.cpp and test/test_storage_engine.cpp.
    \<open>Benchmark\<close>: the storage half of test/benchmark_telemetry_pipeline.cpp.
  \<^item> \<open>Security_Properties\<close>, \<open>Ingestion_Properties\<close>, \<open>Storage_Properties\<close>, \<open>Queue_Properties\<close>,
    \<open>Gateway_Properties\<close>, \<open>Telemetry_Properties\<close>, \<open>Utility_Properties\<close>, \<open>Program_Properties\<close>,
    \<open>Concurrency_Properties\<close> (the storage engine under concurrent calls), \<open>Pipeline_Properties\<close> (a
    value followed through several components): the
    claims C1 to C40, each with a concrete instance, on small libraries (\<open>demo_evp\<close>, \<open>demo_json_api\<close>,
    \<open>demo_store\<close>, \<open>demo_yaml_api\<close>, \<open>demo_spdlog\<close>) that satisfy the assumed laws. The claim that spans
    all components is in this theory.

  \<^bold>\<open>How the code is modelled.\<close> A class is a record that extends the record of the state it lives in; a
  member function is a function that returns the new state. Exceptions are values (\<open>exn + 'a\<close>);
  undefined behaviour (a write outside a vector, a call through a null pointer) is \<open>None\<close>. \<^verbatim>\<open>uint64_t\<close>
  is \<open>64 word\<close>, bytes are \<open>8 word\<close>, a \<^verbatim>\<open>size_t\<close> passed as \<^verbatim>\<open>int\<close> is converted explicitly. Libraries
  that are not in the repository (OpenSSL, SQLite, nlohmann JSON, yaml-cpp, spdlog, rclcpp) are
  parameters: records of functions on opaque states. What is assumed of them is their documented
  behaviour, stated as definitions (\<open>evp_gcm_laws\<close>, \<open>json_error_law\<close>, \<open>json_member_law\<close>,
  \<open>json_number_law\<close>, \<open>sqlite_laws\<close>, \<open>engine_laws\<close>, \<open>ending_laws\<close>, \<open>exit_law\<close>, \<open>yaml_laws\<close>) and named in the hypotheses of the theorems. Failures are not assumed
  away: a bind, a step, a commit, a rollback, an open may fail at any time, and the JSON parser may throw
  other exceptions than its syntax error. Nothing is assumed of a call on a null statement. Sections under a mutex are
  functions; the macros of the log append a line, and that they dereference a null logger after a failed
  \<open>Logger::init\<close> is in \<open>Logger\<close> only (C37). What happens between the sections is interleaved by step relations (\<open>node_step\<close>, \<open>bq_step\<close>) or by
  schedules (\<open>threads_run\<close>, \<open>program_run\<close>).

  \<^bold>\<open>What the theorems show.\<close>
  \<^item> The node as written refuses every packet, because it calls the decryption with the arguments in
    the order of the header while the definition takes them in another (C3, C40, and
    \<open>decrypt_declared_order_refused\<close>); so over all histories nothing is stored, queued or published (C2),
    and the callback only logs (\<open>callback_only_logs\<close>).
  \<^item> Behind a decryption that works (\<open>callback_after_decrypt\<close>, the callback from the point where it has
    delivered a plaintext), the pipeline is lossless and ordered up to the queue's capacity
    (C1), every accepted frame is well typed (C18), and the threads together implement a deterministic
    machine that stores and publishes the frames one by one (C4; its pieces are \<open>gateway_rows\<close> and
    \<open>gateway_publishes_handled\<close>), with the battery reading correctly rounded (C23). Over any restarts, kills
    included, the table holds exactly the rows of the frames whose insert succeeded, and at most 1001
    accepted frames of a session are not handed to the storage engine (C10). No accepted frame waits for
    ever for the worker, however many messages arrive (C12); when none do, the worker empties its queue
    within four steps a frame (\<open>worker_drains\<close>); it stops within four steps (C30), and destruction drops
    what is still queued (C19). When the worker falls behind, the queue keeps the oldest frames and the
    rest is dropped silently (C31). A sample of the mock publisher goes through cipher and parser to the
    frame it stands
    for (C17).
  \<^item> Cryptography: round trip and authenticity (C8, C9), and what an ignored failure of the random
    generator does (\<open>random_failure_gives_zeros\<close>).
  \<^item> Parsing: what a successful parse means (C20, \<open>parse_success_independent\<close>), the possible outcomes
    (C29), which exceptions escape (\<open>bad_identifier_escapes\<close>), and the engine with its queue over any
    history, a refinement of the bounded queue (C13).
  \<^item> Storage: batches are atomic (C5), inserts append exactly the accepted rows (C6), the two agree
    (\<open>batch_equals_inserts\<close>); initialisation and closing (C24, C25); a failed commit that leaves its
    transaction open (C26); nothing committed is lost over restarts (C7); what a row says (C21, C32,
    \<open>row_determines_identity\<close>) and where its integers wrap (C22). Concurrent calls are linearizable
    until one crashes (C11): an insert does, when a close comes between its test of the flag and its
    section (C27). And a close can make the first call fail that brought the engine up (C28).
  \<^item> Queues: first in, first out within the bound for every history (C15, \<open>cq_history_fifo\<close>,
    \<open>cq_push_refused_iff_full\<close>); no lost wake-up (C14); a shutdown lets every call return (C16).
  \<^item> The programs: the gateway program ends under every schedule and accounts for its four inserts
    (C33); the run of the mock publisher with the packets it makes (C39), whose battery falls below zero
    (C34).
  \<^item> The rest: configuration over any loads (C36, \<open>load_file_outcome\<close>, \<open>config_get_meaning\<close>), the logger
    (C37), the critical test (C38), what the unit tests yield (C35) and what the benchmark reports
    (\<open>benchmark_report_independent\<close>).

  \<^bold>\<open>Bounds.\<close> No definition runs on fuel except the reader \<open>read_members\<close>, which is given the length of
  the text, and a text has more characters than members. A schedule is finite; the theorems that a thread
  gets on (C12, \<open>worker_drains\<close>, C30, C33) say how many steps are enough. The 1001 of C4 and C10 is the
  capacity of the queue and the frame in the hands of the worker. Data for the cipher is shorter than
  \<open>2 ^ 31\<close> bytes, the range of the \<^verbatim>\<open>int\<close> that OpenSSL takes.

  \<^bold>\<open>What is not modelled.\<close> The memory model below the mutexes and atomics (accesses to them are
  sequentially consistent steps); the transport of rclcpp and its callback scheduling beyond
  one callback at a time while the node lives; a process killed inside a call of SQLite (a kill falls
  between two steps of \<open>node_step\<close>, or after the construction); arithmetic on infinities, which no computation of the
  sources reaches; the loss of power, after which WAL mode may drop the last commits; the dashboard, the
  launch, container and service files, the Python client and the launch test; of the benchmark the times
  it measures and the half on the security engine, whose timed body is empty.
\<close>

section \<open>A packet from end to end\<close>

text \<open>C40. A genuine packet: the text of a sample that parses, encrypted under the pre-shared key. With
  the arguments in the order of its definition, the decryption recovers the text and the rest of the
  callback enqueues exactly the frame of the sample. The node, which calls it in the order of the header,
  refuses this very packet and leaves the queue as it was.\<close>

theorem genuine_packet_refused:
  fixes g :: "('w, 'h, 's) gateway" and e :: "('w, 'm) env_scheme"
  assumes laws: "evp_gcm_laws evp seal unseal"
    and ctx: "fst (evp_ctx_new evp (ext e)) \<noteq> None" "fst (evp_ctx_new evp (ext g)) \<noteq> None"
    and sizes: "length iv = 12" "length pt < 2 ^ 31"
    and parsed: "parse_and_validate json clock_ns (string_of_bytes pt) empty_telemetry = (Inr SUCCESS, d)"
    and room: "cq_size (telemetry_queue g) < max_capacity (telemetry_queue g)"
  shows "\<exists>ct tag e' g1 g2.
           encrypt_aes_gcm evp pt PRE_SHARED_KEY iv [] [] e = Some (True, ct, tag, e') \<and>
           decrypt_aes_gcm evp ct PRE_SHARED_KEY iv tag [] g = Some (True, pt, g1) \<and>
           fst (accept_plaintext json clock_ns pt g1) = Inr True \<and>
           queue_items (telemetry_queue (snd (accept_plaintext json clock_ns pt g1))) =
             queue_items (telemetry_queue g) @ [d] \<and>
           process_incoming_raw_payload evp json clock_ns sender ct iv tag g = Some (Inr False, g2) \<and>
           telemetry_queue g2 = telemetry_queue g"
proof -
  obtain ct tag e' g1 where enc: "encrypt_aes_gcm evp pt PRE_SHARED_KEY iv [] [] e = Some (True, ct, tag, e')"
    and dec: "decrypt_aes_gcm evp ct PRE_SHARED_KEY iv tag [] g = Some (True, pt, g1)"
    and same: "telemetry_queue g1 = telemetry_queue g"
    using encrypted_then_decrypted [OF laws ctx length_PRE_SHARED_KEY sizes] by blast
  have acc: "accept_plaintext json clock_ns pt g1 =
      (Inr True, g1\<lparr>telemetry_queue := snd (cq_push d (telemetry_queue g))\<rparr>)"
    using parsed by (simp add: accept_plaintext_def same)
  show ?thesis
    by (rule exI [of _ ct], rule exI [of _ tag], rule exI [of _ e'], rule exI [of _ g1])
      (use room in \<open>simp add: enc dec acc cq_push_items process_refuses log_decrypt_size_error_def\<close>)
qed

theorem genuine_packet_refused_witness:
  "\<exists>ct tag g2.
     decrypt_aes_gcm (demo_evp True) ct PRE_SHARED_KEY demo_iv tag [] demo_node =
       Some (True, bytes_of_string ''battery-json'', g2) \<and>
     fst (the (process_incoming_raw_payload (demo_evp True) demo_api 5 ''amr_01'' ct demo_iv tag demo_node)) =
       Inr False"
proof -
  have parsed: "parse_and_validate demo_api 5 (string_of_bytes (bytes_of_string ''battery-json'')) empty_telemetry =
      (Inr SUCCESS, demo_battery_frame)"
    by (simp add: demo_parse_battery)
  have ctx: "fst (evp_ctx_new (demo_evp True) (ext demo_env)) \<noteq> None"
    "fst (evp_ctx_new (demo_evp True) (ext demo_node)) \<noteq> None"
    by (simp_all add: demo_evp_def)
  have room: "cq_size (telemetry_queue demo_node) < max_capacity (telemetry_queue demo_node)"
    by (simp add: demo_node_def cq_new_def cq_size_def)
  have sizes: "length demo_iv = 12" "length (bytes_of_string ''battery-json'') < 2 ^ 31"
    by (simp_all add: demo_iv_def)
  show ?thesis
    using genuine_packet_refused [OF demo_evp_laws ctx sizes parsed room, of "''amr_01''"] by fastforce
qed

end
